(* ===== verification/Prelude.thy ===== *)
theory Prelude
  imports Main
begin

text \<open>
  Shared vocabulary of the development: the JavaScript exceptions the browser
  code can raise, the result type of a JavaScript statement that may throw
  (the state reached before the throw persists, as in the source), the
  truthiness test the code applies to player numbers, array reads with a
  JavaScript index, and the lemma collections the component theories share.
\<close>

named_theorems grid_simps "evaluation rules of the box grid"
named_theorems game_simps "evaluation rules of the browser game"
named_theorems server_simps "evaluation rules of the server handlers"

subsection \<open>JavaScript values and exceptions\<close>

text \<open>
  A player is identified by a number.  A slot that holds a player number
  (\<open>Line.player\<close>, \<open>Box.player\<close>, a turn's \<open>playerId\<close>) may also hold
  \<open>null\<close> or \<open>undefined\<close>; both are \<open>None\<close> here, since the code treats them
  alike (both are falsy, both make \<open>players[p]\<close> undefined).
\<close>

type_synonym pid = nat

text \<open>Objects whose identity matters live in a store at addresses.\<close>

type_synonym addr = nat

datatype exn = TypeError | ReferenceError

text \<open>
  A statement that may throw returns \<open>exn + 'a\<close> beside the state it leaves:
  mutations performed before a throw are not undone.
\<close>

type_synonym 'a js = "exn + 'a"

text \<open>JavaScript truthiness of a player slot: \<open>null\<close>, \<open>undefined\<close> and \<open>0\<close> are falsy.\<close>

definition truthy :: "pid option \<Rightarrow> bool" where
  "truthy p \<longleftrightarrow> (case p of None \<Rightarrow> False | Some n \<Rightarrow> n \<noteq> 0)"

text \<open>
  \<open>xs[i]\<close> for a JavaScript number \<open>i\<close>: \<open>undefined\<close> (here \<open>None\<close>) outside
  \<open>0 \<le> i < xs.length\<close>.
\<close>

definition js_nth :: "'a list \<Rightarrow> int \<Rightarrow> 'a option" where
  "js_nth xs i = (if 0 \<le> i \<and> nat i < length xs then Some (xs ! nat i) else None)"

subsection \<open>Shared lemmas\<close>

lemma truthy_simps [simp]:
  "\<not> truthy None"
  "truthy (Some n) \<longleftrightarrow> n \<noteq> 0"
  by (simp_all add: truthy_def)

lemma truthy_Some_iff: "truthy p \<longleftrightarrow> (\<exists>n. p = Some n \<and> n \<noteq> 0)"
  by (cases p) simp_all

lemma js_nth_Some_iff:
  "js_nth xs i = Some v \<longleftrightarrow> 0 \<le> i \<and> nat i < length xs \<and> xs ! nat i = v"
  by (auto simp: js_nth_def)

lemma js_nth_None_iff: "js_nth xs i = None \<longleftrightarrow> \<not> (0 \<le> i \<and> nat i < length xs)"
  by (simp add: js_nth_def)

lemma js_nth_int [simp]: "js_nth xs (int n) = (if n < length xs then Some (xs ! n) else None)"
  by (simp add: js_nth_def)

text \<open>
  The code advances a player index in two spellings,
  \<open>p === n - 1 ? 0 : p + 1\<close> and \<open>p = p + 1; if (p > n - 1) p = 0\<close>; on a
  valid index both are the successor modulo \<open>n\<close>.
\<close>

lemma wrap_eq_mod:
  fixes p :: int
  assumes "0 \<le> p" "p < int n"
  shows "(if p = int n - 1 then 0 else p + 1) = (p + 1) mod int n"
    and "(if p + 1 > int n - 1 then 0 else p + 1) = (p + 1) mod int n"
proof -
  have "p + 1 = int n \<or> p + 1 < int n" using assms by arith
  then show "(if p = int n - 1 then 0 else p + 1) = (p + 1) mod int n"
    and "(if p + 1 > int n - 1 then 0 else p + 1) = (p + 1) mod int n"
    using assms by auto
qed

subsection \<open>Lists over index ranges\<close>

lemma concat_upt_select_one:
  "concat (map (\<lambda>a. if a = x then f else []) [0..<w]) = (if x < w then f else [])"
  by (induction w) auto

lemma concat_upt_select_two:
  "concat (map (\<lambda>a. if a = x \<or> Suc a = x then [f a] else []) [0..<w]) =
     (if 0 < x \<and> x \<le> w then [f (x - 1)] else []) @ (if x < w then [f x] else [])"
  by (induction w) auto

lemma filter_as_concat: "filter P xs = concat (map (\<lambda>c. if P c then [c] else []) xs)"
  by (induction xs) auto

lemma filter_guarded: "filter (\<lambda>c. A \<and> P c) xs = (if A then filter P xs else [])"
  by (induction xs) auto

lemma filter_upt_single: "filter (\<lambda>c. c = y \<and> A) [0..<h] = (if A \<and> y < h then [y] else [])"
  by (induction h) auto

subsection \<open>Searching lists\<close>

lemma find_None_iff_not_list_ex: "(find P xs = None) \<longleftrightarrow> \<not> list_ex P xs"
  by (induction xs) auto

lemma find_Some_list_ex: "find P xs = Some x \<Longrightarrow> list_ex P xs"
  by (induction xs) (auto split: if_splits)

lemma find_Some_mem: "find P xs = Some x \<Longrightarrow> x \<in> set xs"
  by (induction xs) (auto split: if_splits)

lemma find_unique:
  "a0 \<in> set xs \<Longrightarrow> \<forall>a\<in>set xs. P a \<longleftrightarrow> a = a0 \<Longrightarrow> find P xs = Some a0"
  by (induction xs) auto

lemma length_filter_disj:
  "\<forall>x\<in>set xs. \<not> (P x \<and> Q x) \<Longrightarrow>
   length (filter (\<lambda>x. P x \<or> Q x) xs) = length (filter P xs) + length (filter Q xs)"
  by (induction xs) auto

text \<open>Counting the elements owned by each of \<open>n\<close> owners counts the owned elements.\<close>

lemma sum_count_owners:
  "(\<Sum>a<(n::nat). length (filter (\<lambda>b. B b = Some a) xs)) = length (filter (\<lambda>b. \<exists>a<n. B b = Some a) xs)"
proof (induction xs)
  case (Cons x xs)
  have "(\<Sum>a<n. (if B x = Some a then 1 else 0 :: nat)) = (if \<exists>a<n. B x = Some a then 1 else 0)"
    by (cases "B x") (simp_all add: sum.delta')
  moreover have "(\<Sum>a<n. length (filter (\<lambda>b. B b = Some a) (x # xs))) =
      (\<Sum>a<n. (if B x = Some a then 1 else 0) + length (filter (\<lambda>b. B b = Some a) xs))"
    by (intro sum.cong) auto
  ultimately show ?case using Cons by (simp add: sum.distrib)
qed simp

end
