(* ===== verification/Protocol.thy ===== *)
theory Protocol
  imports Prelude
begin

text \<open>
  The data the server and the browser exchange (\<open>src/config.js\<close> and the
  objects of \<open>src/server/lib/Server.js\<close>): the roster of player identities,
  a turn record of the turn log, and the session object, which is also the
  snapshot the server broadcasts in its \<open>state\<close> messages.
\<close>

record player_info =
  name :: string
  color :: string

text \<open>
  \<open>PORT\<close> of \<open>src/config.js\<close>, \<open>process.env.PORT || 3000\<close>: the
  environment's string when it is set and non-empty (a truthy string), the
  number \<open>3000\<close> otherwise.
\<close>

definition PORT :: "string option \<Rightarrow> string + nat" where
  "PORT env = (case env of Some s \<Rightarrow> if s = [] then Inr 3000 else Inl s | None \<Rightarrow> Inr 3000)"

text \<open>\<open>PLAYERS\<close> of \<open>src/config.js\<close>: five identities; its length is the roster cap.\<close>

definition PLAYERS :: "player_info list" where
  "PLAYERS =
    [\<lparr>name = ''Mr. Pink'', color = ''pink''\<rparr>,
     \<lparr>name = ''Mr. Orange'', color = ''orange''\<rparr>,
     \<lparr>name = ''Mr. Blue'', color = ''blue''\<rparr>,
     \<lparr>name = ''Mr. Brown'', color = ''brown''\<rparr>,
     \<lparr>name = ''Mr. White'', color = ''white''\<rparr>]"

text \<open>
  A turn as \<open>onIOTurn\<close> pushes it, \<open>{ playerId, direction, x, y }\<close>.  The
  payload fields come from the client unchecked: any string, any number (an
  integer here); \<open>playerId\<close> is the socket's, \<open>undefined\<close> (\<open>None\<close>) for a
  socket that never created or joined a session.
\<close>

record turn =
  turn_playerId :: "pid option"
  turn_direction :: string
  turn_x :: int
  turn_y :: int

text \<open>The session object of \<open>onIOCreateSession\<close>, also the broadcast snapshot.\<close>

record session =
  sessionId :: string
  started :: bool
  player :: int
  players :: "player_info list"
  turns :: "turn list"

lemma length_PLAYERS [simp]: "length PLAYERS = 5"
  by (simp add: PLAYERS_def)

end
