(* ===== verification/Grid.thy ===== *)
theory Grid
  imports Prelude
begin

text \<open>
  The box grid of the browser game (\<open>src/public/js/app.js\<close>, classes \<open>Box\<close>
  and \<open>Line\<close> and the constructor of \<open>Game\<close>).  A line object is named by
  its orientation and coordinates, as \<open>this.lines[direction][x][y]\<close> names
  it; the memoising \<open>a[i] = a[i] || new Line(...)\<close> of the constructor makes
  the bottom line of box \<open>(x, y)\<close> the same object as the top line of box
  \<open>(x, y + 1)\<close>, which naming lines by coordinates reflects.  Box closure
  is wired by listeners: each box registers itself on its four lines.  The
  theory proves that the listener table the constructor builds is the static
  adjacency of the grid (each line lists the 1 or 2 boxes it borders, the
  lower-coordinate box first).
\<close>

datatype dir = H | V

type_synonym line = "dir \<times> nat \<times> nat"
type_synonym box = "nat \<times> nat"

subsection \<open>Definitions\<close>

fun lineTop :: "box \<Rightarrow> line" where "lineTop (x, y) = (H, x, y)"
fun lineBottom :: "box \<Rightarrow> line" where "lineBottom (x, y) = (H, x, Suc y)"
fun lineLeft :: "box \<Rightarrow> line" where "lineLeft (x, y) = (V, x, y)"
fun lineRight :: "box \<Rightarrow> line" where "lineRight (x, y) = (V, Suc x, y)"

text \<open>The lines a box registers on, in the order of the \<open>Box\<close> constructor.\<close>

definition box_lines :: "box \<Rightarrow> line list" where
  "box_lines b = [lineLeft b, lineTop b, lineRight b, lineBottom b]"

text \<open>The boxes in the order the constructor's nested loops create them.\<close>

definition grid_boxes :: "nat \<Rightarrow> nat \<Rightarrow> box list" where
  "grid_boxes w h = concat (map (\<lambda>x. map (\<lambda>y. (x, y)) [0..<h]) [0..<w])"

text \<open>The line objects the constructor creates (with repetitions for shared lines).\<close>

definition grid_lines :: "nat \<Rightarrow> nat \<Rightarrow> line list" where
  "grid_lines w h = concat (map box_lines (grid_boxes w h))"

text \<open>\<open>Line.addListener\<close>: append to the line's listener list.\<close>

definition addListener :: "(line \<Rightarrow> box list) \<Rightarrow> line \<Rightarrow> box \<Rightarrow> (line \<Rightarrow> box list)" where
  "addListener L l b = L(l := L l @ [b])"

text \<open>The \<open>Box\<close> constructor registering on left, top, right and bottom lines.\<close>

definition register_box :: "(line \<Rightarrow> box list) \<Rightarrow> box \<Rightarrow> (line \<Rightarrow> box list)" where
  "register_box L b = foldl (\<lambda>L l. addListener L l b) L (box_lines b)"

definition build_listeners :: "nat \<Rightarrow> nat \<Rightarrow> line \<Rightarrow> box list" where
  "build_listeners w h = foldl register_box (\<lambda>_. []) (grid_boxes w h)"

text \<open>Closed forms: which lines exist, and which boxes a line borders (\<open>boxesAdjacentTo\<close>).\<close>

fun is_line :: "nat \<Rightarrow> nat \<Rightarrow> line \<Rightarrow> bool" where
  "is_line w h (H, x, y) \<longleftrightarrow> 0 < h \<and> x < w \<and> y \<le> h"
| "is_line w h (V, x, y) \<longleftrightarrow> 0 < w \<and> x \<le> w \<and> y < h"

fun adjacent_boxes :: "nat \<Rightarrow> nat \<Rightarrow> line \<Rightarrow> box list" where
  "adjacent_boxes w h (H, x, y) =
     (if x < w then (if 0 < y \<and> y \<le> h then [(x, y - 1)] else []) @ (if y < h then [(x, y)] else [])
      else [])"
| "adjacent_boxes w h (V, x, y) =
     (if y < h then (if 0 < x \<and> x \<le> w then [(x - 1, y)] else []) @ (if x < w then [(x, y)] else [])
      else [])"

text \<open>A line bordered by two boxes (not on the outer frame).\<close>

fun interior_line :: "nat \<Rightarrow> nat \<Rightarrow> line \<Rightarrow> bool" where
  "interior_line w h (H, x, y) \<longleftrightarrow> 0 < y \<and> y < h"
| "interior_line w h (V, x, y) \<longleftrightarrow> 0 < x \<and> x < w"

subsection \<open>The listener table is the adjacency of the grid\<close>

lemma distinct_box_lines: "distinct (box_lines b)"
  by (cases b) (simp add: box_lines_def)

lemma mem_box_lines_H: "(H, x, y) \<in> set (box_lines (a, c)) \<longleftrightarrow> a = x \<and> (c = y \<or> Suc c = y)"
  by (auto simp: box_lines_def)

lemma mem_box_lines_V: "(V, x, y) \<in> set (box_lines (a, c)) \<longleftrightarrow> c = y \<and> (a = x \<or> Suc a = x)"
  by (auto simp: box_lines_def)

lemma foldl_addListener:
  "distinct ls \<Longrightarrow> foldl (\<lambda>L l. addListener L l b) L ls l' = L l' @ (if l' \<in> set ls then [b] else [])"
  by (induction ls arbitrary: L) (auto simp: addListener_def)

lemma register_box_apply: "register_box L b l = L l @ (if l \<in> set (box_lines b) then [b] else [])"
  by (simp add: register_box_def foldl_addListener distinct_box_lines)

lemma foldl_register_box: "foldl register_box L bs l = L l @ filter (\<lambda>b. l \<in> set (box_lines b)) bs"
  by (induction bs arbitrary: L) (simp_all add: register_box_apply)

lemma build_listeners_filter:
  "build_listeners w h l = filter (\<lambda>b. l \<in> set (box_lines b)) (grid_boxes w h)"
  by (simp add: build_listeners_def foldl_register_box)

lemma build_listeners_closed_form [grid_simps]: "build_listeners w h l = adjacent_boxes w h l"
proof (cases l)
  case (fields d x y)
  show ?thesis
  proof (cases d)
    case H
    let ?P = "\<lambda>c. c = y \<or> Suc c = y"
    have "build_listeners w h l =
        concat (map (\<lambda>a. map (Pair a) (filter (\<lambda>c. a = x \<and> ?P c) [0..<h])) [0..<w])"
      using fields H
      by (simp add: build_listeners_filter grid_boxes_def filter_concat comp_def filter_map
          mem_box_lines_H)
    also have "\<dots> = concat (map (\<lambda>a. if a = x then map (Pair x) (filter ?P [0..<h]) else []) [0..<w])"
      by (intro arg_cong [where f = concat] map_cong) (simp_all add: filter_guarded)
    also have "\<dots> = adjacent_boxes w h l"
      using fields H
      by (simp add: concat_upt_select_one filter_as_concat [of _ "[0..<h]"] concat_upt_select_two)
    finally show ?thesis .
  next
    case V
    let ?Q = "\<lambda>a. a = x \<or> Suc a = x"
    have "build_listeners w h l =
        concat (map (\<lambda>a. map (Pair a) (filter (\<lambda>c. c = y \<and> ?Q a) [0..<h])) [0..<w])"
      using fields V
      by (simp add: build_listeners_filter grid_boxes_def filter_concat comp_def filter_map
          mem_box_lines_V)
    also have "\<dots> = concat (map (\<lambda>a. if ?Q a \<and> y < h then [(a, y)] else []) [0..<w])"
      by (intro arg_cong [where f = concat] map_cong) (simp_all add: filter_upt_single)
    also have "\<dots> = adjacent_boxes w h l"
      using fields V
      by (cases "y < h") (simp_all add: concat_upt_select_two)
    finally show ?thesis .
  qed
qed

lemma set_grid_boxes: "set (grid_boxes w h) = {(x, y). x < w \<and> y < h}"
  by (auto simp: grid_boxes_def)

lemma distinct_grid_boxes: "distinct (grid_boxes w h)"
  by (induction w) (auto simp: grid_boxes_def distinct_map inj_on_def)

lemma listener_iff_bounding_line:
  "b \<in> set (build_listeners w h l) \<longleftrightarrow> b \<in> set (grid_boxes w h) \<and> l \<in> set (box_lines b)"
  by (auto simp: build_listeners_filter)

lemma distinct_build_listeners: "distinct (build_listeners w h l)"
  by (simp add: build_listeners_filter distinct_grid_boxes)

lemma adjacent_boxes_nonempty: "is_line w h l \<Longrightarrow> adjacent_boxes w h l \<noteq> []"
proof (cases l)
  case (fields d x y)
  then show "is_line w h l \<Longrightarrow> adjacent_boxes w h l \<noteq> []" by (cases d) auto
qed

lemma set_grid_lines: "set (grid_lines w h) = {l. is_line w h l}"
proof (intro set_eqI iffI)
  fix l assume "l \<in> set (grid_lines w h)"
  then show "l \<in> {l. is_line w h l}"
    by (auto simp: grid_lines_def grid_boxes_def box_lines_def)
next
  fix l assume "l \<in> {l. is_line w h l}"
  then have "build_listeners w h l \<noteq> []"
    by (simp add: build_listeners_closed_form adjacent_boxes_nonempty)
  then obtain b where "b \<in> set (grid_boxes w h)" "l \<in> set (box_lines b)"
    by (metis listener_iff_bounding_line list.set_sel(1))
  then show "l \<in> set (grid_lines w h)"
    by (auto simp: grid_lines_def)
qed

lemma card_box_lines: "card (set (box_lines b)) = 4"
  using distinct_box_lines [of b] by (simp add: distinct_card box_lines_def)

lemma grid_boxes_empty_iff: "grid_boxes w h = [] \<longleftrightarrow> w = 0 \<or> h = 0"
proof -
  have "set (grid_boxes w h) = {} \<longleftrightarrow> w = 0 \<or> h = 0"
    by (auto simp: set_grid_boxes)
  then show ?thesis by simp
qed

lemma length_grid_boxes: "length (grid_boxes w h) = w * h"
  by (simp add: grid_boxes_def length_concat comp_def sum_list_triv)

subsection \<open>Properties\<close>

text \<open>
  C10: The listener table the \<open>Game\<close> constructor builds by registering
  every box on its four lines is the static adjacency of the grid
  (\<open>boxesAdjacentTo\<close>): a horizontal line \<open>(x, y)\<close> lists the boxes
  \<open>(x, y - 1)\<close> and \<open>(x, y)\<close> that exist, a vertical line \<open>(x, y)\<close> the
  boxes \<open>(x - 1, y)\<close> and \<open>(x, y)\<close>, in this order.
\<close>

theorem listeners_are_adjacency: "build_listeners w h = adjacent_boxes w h"
  by (rule ext) (rule build_listeners_closed_form)

text \<open>
  C11: The box at \<open>(x, y)\<close> of the grid listens on exactly four lines:
  the horizontal lines at heights \<open>y\<close> and \<open>y + 1\<close> and the vertical lines
  at columns \<open>x\<close> and \<open>x + 1\<close>, the ones bounding it on the board; a
  position outside the grid listens on none.
\<close>

theorem box_listens_on_four_lines:
  "{l. (x, y) \<in> set (build_listeners w h l)} =
     (if x < w \<and> y < h then {(H, x, y), (H, x, Suc y), (V, x, y), (V, Suc x, y)} else {})"
  by (auto simp: listener_iff_bounding_line set_grid_boxes box_lines_def)

text \<open>
  C12: A line of the grid borders two boxes when it is interior and one box
  on the frame; a name that is no line of the grid has no listener.
\<close>

theorem length_build_listeners:
  "length (build_listeners w h l) =
     (if \<not> is_line w h l then 0 else if interior_line w h l then 2 else 1)"
proof (cases l)
  case (fields d x y)
  then show ?thesis by (cases d) (auto simp: build_listeners_closed_form)
qed

end
