(* ===== verification/ClientGame.thy ===== *)
theory ClientGame
  imports Protocol Grid
begin

text \<open>
  The browser's replica of a game, \<open>class Game\<close> of \<open>src/public/js/app.js\<close>
  with its \<open>Line\<close> and \<open>Box\<close> objects.  The record \<open>game\<close> holds the
  fields of the \<open>Game\<close> object and, as total functions over line and box
  names, the \<open>player\<close> fields of its \<open>Line\<close> and \<open>Box\<close> objects and the
  listener lists of its lines.  Every method that may throw returns
  \<open>exn + 'a\<close> beside the game it leaves, since the mutations made before a
  throw persist.  DOM updates (classes, colours, SVG attributes, status text)
  are not state of the model; the property reads they perform
  (\<open>players[p].color\<close>) are, because they throw on an undefined player.
\<close>

record game =
  g_width :: nat
  g_height :: nat
  g_players :: "player_info list"
  g_player :: int
  g_lines :: "line \<Rightarrow> pid option"
  g_boxes :: "box \<Rightarrow> pid option"
  g_listeners :: "line \<Rightarrow> box list"
  g_playerId :: "pid option"

subsection \<open>Operations\<close>

text \<open>
  The constructor.  The page builds the game once with the default
  \<open>width = 2, height = 2, players = []\<close>; \<open>winner\<close> and \<open>tie\<close> are never
  set to anything but their initial values (the statements that would set
  them come after the throwing expression in \<open>nextTurn\<close>), so they are not
  fields of the model.
\<close>

definition new_game :: "nat \<Rightarrow> nat \<Rightarrow> game" where
  "new_game w h =
    \<lparr>g_width = w, g_height = h, g_players = [], g_player = 0,
     g_lines = (\<lambda>_. None), g_boxes = (\<lambda>_. None),
     g_listeners = build_listeners w h, g_playerId = None\<rparr>"

text \<open>The guard of \<open>Box.onLineClick\<close>: all four lines hold a truthy player.\<close>

definition box_closed :: "game \<Rightarrow> box \<Rightarrow> bool" where
  "box_closed g b \<longleftrightarrow>
     truthy (g_lines g (lineLeft b)) \<and> truthy (g_lines g (lineTop b)) \<and>
     truthy (g_lines g (lineRight b)) \<and> truthy (g_lines g (lineBottom b))"

text \<open>\<open>this.game.players[p].color\<close> does not throw.\<close>

definition color_ok :: "game \<Rightarrow> pid option \<Rightarrow> bool" where
  "color_ok g p \<longleftrightarrow> (case p of None \<Rightarrow> False | Some i \<Rightarrow> i < length (g_players g))"

definition onLineClick :: "game \<Rightarrow> box \<Rightarrow> pid option \<Rightarrow> bool js \<times> game" where
  "onLineClick g b p =
    (if box_closed g b then
       (let g' = g\<lparr>g_boxes := (g_boxes g)(b := p)\<rparr>
        in (if color_ok g' p then Inr True else Inl TypeError, g'))
     else (Inr False, g))"

text \<open>\<open>this.listeners.some(listener => listener(...))\<close>: stops at the first \<open>true\<close>.\<close>

fun some_listener :: "game \<Rightarrow> box list \<Rightarrow> pid option \<Rightarrow> bool js \<times> game" where
  "some_listener g [] p = (Inr False, g)"
| "some_listener g (b # bs) p =
    (case onLineClick g b p of
       (Inr False, g') \<Rightarrow> some_listener g' bs p
     | r \<Rightarrow> r)"

text \<open>\<open>renderStatus\<close>: reads \<open>this.players[this.player].color\<close> in every branch reached.\<close>

definition renderStatus :: "game \<Rightarrow> unit js" where
  "renderStatus g = (case js_nth (g_players g) (g_player g) of None \<Rightarrow> Inl TypeError | Some _ \<Rightarrow> Inr ())"

text \<open>The CSS class \<open>enabled\<close> that \<open>renderStatus\<close> sets: \<open>this.playerId === this.player\<close>.\<close>

definition turn_enabled :: "game \<Rightarrow> bool" where
  "turn_enabled g \<longleftrightarrow> (case g_playerId g of None \<Rightarrow> False | Some i \<Rightarrow> int i = g_player g)"

text \<open>
  The text \<open>renderStatus\<close> writes with \<open>setStatus\<close> (\<open>innerHTML\<close>); the
  \<open>winner\<close> and \<open>tie\<close> branches are never reached (see \<open>new_game\<close>).
\<close>

definition status_html :: "game \<Rightarrow> string js" where
  \<open>status_html g =
    (case js_nth (g_players g) (g_player g) of
       None \<Rightarrow> Inl TypeError
     | Some p \<Rightarrow> Inr
         (if turn_enabled g
          then ''It's your turn, <span style="color: '' @ color p @ '';">'' @ name p @ ''</span>!''
          else ''It's <span style="color: '' @ color p @ '';">'' @ name p @ ''\'s</span> turn!''))\<close>

definition all_boxes_taken :: "game \<Rightarrow> bool" where
  "all_boxes_taken g \<longleftrightarrow> list_all (\<lambda>b. truthy (g_boxes g b)) (grid_boxes (g_width g) (g_height g))"

definition next_index :: "int \<Rightarrow> nat \<Rightarrow> int" where
  "next_index p n = (if p = int n - 1 then 0 else p + 1)"

text \<open>
  \<open>nextTurn\<close>.  When every box is taken, \<open>players[0].score\<close> reads the
  identifier \<open>players\<close>, which is bound nowhere in the script (the method's
  own field is \<open>this.players\<close>): a \<open>ReferenceError\<close>.  The score table
  it builds before is only logged.
\<close>

definition nextTurn :: "game \<Rightarrow> bool \<Rightarrow> unit js \<times> game" where
  "nextTurn g nextPlayer =
    (if all_boxes_taken g then (Inl ReferenceError, g)
     else
       (let g' = (if nextPlayer then g\<lparr>g_player := next_index (g_player g) (length (g_players g))\<rparr> else g)
        in (renderStatus g', g')))"

definition setPlayer :: "game \<Rightarrow> line \<Rightarrow> pid option \<Rightarrow> unit js \<times> game" where
  "setPlayer g l p =
    (if truthy (g_lines g l) then (Inr (), g)
     else
       (let g1 = g\<lparr>g_lines := (g_lines g)(l := p)\<rparr>
        in (case some_listener g1 (g_listeners g1 l) p of
              (Inl e, g2) \<Rightarrow> (Inl e, g2)
            | (Inr closed, g2) \<Rightarrow>
                if color_ok g2 p then nextTurn g2 (\<not> closed) else (Inl TypeError, g2))))"

text \<open>
  \<open>this.lines[direction][x][y]\<close>: a line object exactly when the
  constructor created one there; any other access reads a property of
  \<open>undefined\<close> or calls \<open>setPlayer\<close> on \<open>undefined\<close>, a \<open>TypeError\<close>.
\<close>

definition lookup_line :: "game \<Rightarrow> string \<Rightarrow> int \<Rightarrow> int \<Rightarrow> line option" where
  "lookup_line g d x y =
    (let od = (if d = ''h'' then Some H else if d = ''v'' then Some V else None)
     in case od of
          None \<Rightarrow> None
        | Some dd \<Rightarrow>
            if 0 \<le> x \<and> 0 \<le> y \<and> is_line (g_width g) (g_height g) (dd, nat x, nat y)
            then Some (dd, nat x, nat y) else None)"

text \<open>\<open>turns.forEach(...)\<close> in \<open>setState\<close>: replays every turn on the current objects.\<close>

fun replay :: "game \<Rightarrow> turn list \<Rightarrow> unit js \<times> game" where
  "replay g [] = (Inr (), g)"
| "replay g (t # ts) =
    (case lookup_line g (turn_direction t) (turn_x t) (turn_y t) of
       None \<Rightarrow> (Inl TypeError, g)
     | Some l \<Rightarrow>
         (case setPlayer g l (turn_playerId t) of
            (Inl e, g') \<Rightarrow> (Inl e, g')
          | (Inr _, g') \<Rightarrow> replay g' ts))"

text \<open>\<open>setState({ player, players, turns })\<close>: the server's \<open>player\<close> is ignored.\<close>

definition setState :: "game \<Rightarrow> session \<Rightarrow> unit js \<times> game" where
  "setState g s =
    (case replay (g\<lparr>g_players := players s\<rparr>) (turns s) of
       (Inl e, g') \<Rightarrow> (Inl e, g')
     | (Inr _, g') \<Rightarrow> (renderStatus g', g'))"

definition setPlayerId :: "game \<Rightarrow> pid \<Rightarrow> game" where
  "setPlayerId g i = g\<lparr>g_playerId := Some i\<rparr>"

text \<open>
  The direction literal a line's click callback sends with its coordinates
  (\<open>onTurn({ direction: 'h', x, y })\<close> in the constructor).
\<close>

fun dir_str :: "dir \<Rightarrow> string" where
  "dir_str H = ''h''"
| "dir_str V = ''v''"

subsection \<open>Auxiliary notions\<close>

text \<open>The game right after \<open>this.player = playerId\<close> in \<open>setPlayer\<close>.\<close>

definition line_set :: "game \<Rightarrow> line \<Rightarrow> pid option \<Rightarrow> game" where
  "line_set g l p = g\<lparr>g_lines := (g_lines g)(l := p)\<rparr>"

text \<open>Drawing \<open>l\<close> for \<open>p\<close> completes one of the boxes listening on \<open>l\<close>.\<close>

definition closes :: "game \<Rightarrow> line \<Rightarrow> pid option \<Rightarrow> bool" where
  "closes g l p \<longleftrightarrow> list_ex (box_closed (line_set g l p)) (g_listeners g l)"

text \<open>The listener table is the one the constructor built.\<close>

definition wf_game :: "game \<Rightarrow> bool" where
  "wf_game g \<longleftrightarrow> g_listeners g = build_listeners (g_width g) (g_height g)"

text \<open>\<open>this.player\<close> indexes \<open>this.players\<close>.\<close>

definition valid_index :: "game \<Rightarrow> bool" where
  "valid_index g \<longleftrightarrow> 0 \<le> g_player g \<and> g_player g < int (length (g_players g))"

subsection \<open>Evaluation and frame lemmas\<close>

lemma renderStatus_status_html:
  "renderStatus g = (case status_html g of Inl e \<Rightarrow> Inl e | Inr _ \<Rightarrow> Inr ())"
  by (simp add: renderStatus_def status_html_def split: option.split)

text \<open>The status tells the player it is their turn exactly when the page accepts their clicks.\<close>

lemma status_says_your_turn:
  "status_html g = Inr s \<Longrightarrow> take 14 s = ''It's your turn'' \<longleftrightarrow> turn_enabled g"
  by (auto simp: status_html_def split: option.splits if_splits)


lemma some_listener_state:
  "snd (some_listener g bs p) =
     (case find (box_closed g) bs of None \<Rightarrow> g | Some b \<Rightarrow> g\<lparr>g_boxes := (g_boxes g)(b := p)\<rparr>)"
  by (induction bs arbitrary: g) (auto simp: onLineClick_def Let_def)

lemma some_listener_result:
  "fst (some_listener g bs p) =
     (case find (box_closed g) bs of None \<Rightarrow> Inr False
      | Some b \<Rightarrow> if color_ok g p then Inr True else Inl TypeError)"
  by (induction bs arbitrary: g) (auto simp: onLineClick_def color_ok_def Let_def split: option.splits)

lemma some_listener_eq:
  "some_listener g bs p =
     (case find (box_closed g) bs of
        None \<Rightarrow> (Inr False, g)
      | Some b \<Rightarrow> (if color_ok g p then Inr True else Inl TypeError, g\<lparr>g_boxes := (g_boxes g)(b := p)\<rparr>))"
  using some_listener_state [of g bs p] some_listener_result [of g bs p]
  by (cases "some_listener g bs p"; cases "find (box_closed g) bs") auto

lemma nextTurn_eq:
  "nextTurn g np =
     (if all_boxes_taken g then (Inl ReferenceError, g)
      else if np then (renderStatus (g\<lparr>g_player := next_index (g_player g) (length (g_players g))\<rparr>),
                       g\<lparr>g_player := next_index (g_player g) (length (g_players g))\<rparr>)
      else (renderStatus g, g))"
  by (simp add: nextTurn_def Let_def)

lemma setPlayer_frame:
  "g_players (snd (setPlayer g l p)) = g_players g"
  "g_listeners (snd (setPlayer g l p)) = g_listeners g"
  "g_width (snd (setPlayer g l p)) = g_width g"
  "g_height (snd (setPlayer g l p)) = g_height g"
  "g_playerId (snd (setPlayer g l p)) = g_playerId g"
  by (auto simp: setPlayer_def some_listener_eq nextTurn_def Let_def split: option.splits sum.splits)

lemma setPlayer_lines:
  "g_lines (snd (setPlayer g l p)) = (if truthy (g_lines g l) then g_lines g else (g_lines g)(l := p))"
  by (auto simp: setPlayer_def some_listener_eq nextTurn_def Let_def split: option.splits sum.splits)

lemma setPlayer_boxes:
  "\<not> truthy (g_lines g l) \<Longrightarrow>
   g_boxes (snd (setPlayer g l p)) =
     (case find (box_closed (line_set g l p)) (g_listeners g l) of
        None \<Rightarrow> g_boxes g | Some b \<Rightarrow> (g_boxes g)(b := p))"
  by (auto simp: setPlayer_def some_listener_eq nextTurn_def line_set_def Let_def
      split: option.splits sum.splits)




lemma line_set_sel [simp]:
  "g_lines (line_set g l q) = (g_lines g)(l := q)"
  "g_boxes (line_set g l q) = g_boxes g"
  "g_player (line_set g l q) = g_player g"
  "g_players (line_set g l q) = g_players g"
  "g_listeners (line_set g l q) = g_listeners g"
  "g_width (line_set g l q) = g_width g"
  "g_height (line_set g l q) = g_height g"
  "g_playerId (line_set g l q) = g_playerId g"
  by (simp_all add: line_set_def)

lemma color_ok_line_set [simp]: "color_ok (line_set g l q) p = color_ok g p"
  by (simp add: color_ok_def split: option.split)

lemma all_boxes_taken_player_upd [simp]:
  "all_boxes_taken (g\<lparr>g_player := i\<rparr>) = all_boxes_taken g"
  by (simp add: all_boxes_taken_def)

lemma all_boxes_taken_line_set [simp]: "all_boxes_taken (line_set g l q) = all_boxes_taken g"
  by (simp add: all_boxes_taken_def)

lemma setPlayer_eq:
  "setPlayer g l p =
    (if truthy (g_lines g l) then (Inr (), g)
     else case find (box_closed (line_set g l p)) (g_listeners g l) of
        None \<Rightarrow> if color_ok g p then nextTurn (line_set g l p) True else (Inl TypeError, line_set g l p)
      | Some b \<Rightarrow>
          if color_ok g p then nextTurn ((line_set g l p)\<lparr>g_boxes := (g_boxes g)(b := p)\<rparr>) False
          else (Inl TypeError, (line_set g l p)\<lparr>g_boxes := (g_boxes g)(b := p)\<rparr>))"
  by (auto simp: setPlayer_def some_listener_eq line_set_def color_ok_def Let_def
      split: option.splits)

lemma not_closed_if_line_falsy:
  "l \<in> set (box_lines b) \<Longrightarrow> \<not> truthy (g_lines g l) \<Longrightarrow> \<not> box_closed g b"
  by (auto simp: box_closed_def box_lines_def)

lemma wf_game_setPlayer: "wf_game g \<Longrightarrow> wf_game (snd (setPlayer g l p))"
  by (simp add: wf_game_def setPlayer_frame)

lemma box_closed_setPlayer:
  "box_closed g b \<Longrightarrow> box_closed (snd (setPlayer g l p)) b"
  by (auto simp: box_closed_def setPlayer_lines)

lemma setPlayer_closed_box_kept:
  assumes "wf_game g" "box_closed g b"
  shows "g_boxes (snd (setPlayer g l p)) b = g_boxes g b"
proof (cases "truthy (g_lines g l)")
  case True
  then show ?thesis by (simp add: setPlayer_def)
next
  case False
  with assms(2) have "l \<notin> set (box_lines b)"
    by (auto simp: box_closed_def box_lines_def)
  with assms(1) have "b \<notin> set (g_listeners g l)"
    by (simp add: wf_game_def listener_iff_bounding_line)
  then have "find (box_closed (line_set g l p)) (g_listeners g l) \<noteq> Some b"
    by (auto dest: find_Some_iff [THEN iffD1] simp: in_set_conv_nth)
  with False show ?thesis
    by (auto simp: setPlayer_boxes split: option.splits)
qed

lemma replay_induct_state:
  assumes "P g"
    and "\<And>g l p. P g \<Longrightarrow> P (snd (setPlayer g l p))"
  shows "P (snd (replay g ts))"
  using assms(1)
proof (induction ts arbitrary: g)
  case Nil
  then show ?case by simp
next
  case (Cons t ts)
  show ?case
  proof (cases "lookup_line g (turn_direction t) (turn_x t) (turn_y t)")
    case None
    with Cons.prems show ?thesis by simp
  next
    case (Some l)
    have P': "P (snd (setPlayer g l (turn_playerId t)))"
      by (rule assms(2) [OF Cons.prems])
    show ?thesis
    proof (cases "setPlayer g l (turn_playerId t)")
      case (Pair r g')
      with P' Cons.IH Some show ?thesis by (cases r) auto
    qed
  qed
qed

lemma replay_keeps_closed_box:
  assumes "wf_game g" "box_closed g b"
  shows "g_boxes (snd (replay g ts)) b = g_boxes g b"
proof -
  have "wf_game (snd (replay g ts)) \<and> box_closed (snd (replay g ts)) b \<and>
        g_boxes (snd (replay g ts)) b = g_boxes g b"
    by (rule replay_induct_state [where P = "\<lambda>g'. wf_game g' \<and> box_closed g' b \<and> g_boxes g' b = g_boxes g b"])
       (use assms in \<open>auto simp: wf_game_setPlayer box_closed_setPlayer setPlayer_closed_box_kept\<close>)
  then show ?thesis by simp
qed

lemma next_index_bounds:
  "0 \<le> p \<Longrightarrow> p < int n \<Longrightarrow> 0 \<le> next_index p n \<and> next_index p n < int n"
  by (auto simp: next_index_def)

lemma valid_index_setPlayer: "valid_index g \<Longrightarrow> valid_index (snd (setPlayer g l p))"
  by (auto simp: setPlayer_eq nextTurn_eq valid_index_def next_index_bounds
      split: option.splits)

lemma renderStatus_valid: "valid_index g \<Longrightarrow> renderStatus g = Inr ()"
  by (auto simp: renderStatus_def valid_index_def js_nth_def)

lemma replay_valid_index:
  assumes "valid_index g"
  shows "valid_index (snd (replay g ts)) \<and> renderStatus (snd (replay g ts)) = Inr ()"
proof -
  have "valid_index (snd (replay g ts))"
    by (rule replay_induct_state [where P = valid_index]) (use assms valid_index_setPlayer in auto)
  then show ?thesis by (simp add: renderStatus_valid)
qed

lemma replay_frame:
  "g_width (snd (replay g ts)) = g_width g \<and> g_height (snd (replay g ts)) = g_height g \<and>
   g_listeners (snd (replay g ts)) = g_listeners g"
  by (rule replay_induct_state [where P = "\<lambda>g'. g_width g' = g_width g \<and> g_height g' = g_height g \<and>
        g_listeners g' = g_listeners g"]) (simp_all add: setPlayer_frame)

lemma not_all_boxes_taken_if_falsy:
  "b \<in> set (grid_boxes (g_width g) (g_height g)) \<Longrightarrow> \<not> truthy (g_boxes g b) \<Longrightarrow> \<not> all_boxes_taken g"
  by (auto simp: all_boxes_taken_def list_all_iff)

lemma lookup_line_dir_str:
  "lookup_line g (dir_str d) x y =
     (if 0 \<le> x \<and> 0 \<le> y \<and> is_line (g_width g) (g_height g) (d, nat x, nat y)
      then Some (d, nat x, nat y) else None)"
  by (cases d) (simp_all add: lookup_line_def)

lemma replay_append:
  "replay g (pre @ rest) =
     (case replay g pre of (Inl e, g') \<Rightarrow> (Inl e, g') | (Inr _, g') \<Rightarrow> replay g' rest)"
  by (induction g pre rule: replay.induct) (auto split: option.splits sum.splits prod.splits)

lemma setPlayer_undefined:
  assumes "wf_game g" "\<not> truthy (g_lines g l)"
  shows "setPlayer g l None = (Inl TypeError, line_set g l None)"
proof -
  have "find (box_closed (line_set g l None)) (g_listeners g l) = None"
  proof (rule find_None_iff [THEN iffD2], intro notI)
    assume "\<exists>b. b \<in> set (g_listeners g l) \<and> box_closed (line_set g l None) b"
    then obtain b where b: "b \<in> set (g_listeners g l)" "box_closed (line_set g l None) b"
      by blast
    with assms(1) have "l \<in> set (box_lines b)"
      by (simp add: wf_game_def listener_iff_bounding_line)
    then show False
      using b(2) not_closed_if_line_falsy [of l b "line_set g l None"] by simp
  qed
  with assms(2) show ?thesis by (simp add: setPlayer_eq color_ok_def)
qed

text \<open>The page's identity plays no part in replaying turns.\<close>

lemma ignores_playerId [simp]:
  "box_closed (g\<lparr>g_playerId := i\<rparr>) = box_closed g"
  "color_ok (g\<lparr>g_playerId := i\<rparr>) = color_ok g"
  "all_boxes_taken (g\<lparr>g_playerId := i\<rparr>) = all_boxes_taken g"
  "renderStatus (g\<lparr>g_playerId := i\<rparr>) = renderStatus g"
  "lookup_line (g\<lparr>g_playerId := i\<rparr>) = lookup_line g"
  "line_set (g\<lparr>g_playerId := i\<rparr>) l p = (line_set g l p)\<lparr>g_playerId := i\<rparr>"
  by (simp_all add: fun_eq_iff box_closed_def color_ok_def all_boxes_taken_def renderStatus_def
      lookup_line_def line_set_def split: option.split)

lemma nextTurn_playerId:
  "nextTurn (g\<lparr>g_playerId := i\<rparr>) np = apsnd (\<lambda>g'. g'\<lparr>g_playerId := i\<rparr>) (nextTurn g np)"
  by (simp add: nextTurn_eq renderStatus_def)

lemma setPlayer_playerId:
  "setPlayer (g\<lparr>g_playerId := i\<rparr>) l p = apsnd (\<lambda>g'. g'\<lparr>g_playerId := i\<rparr>) (setPlayer g l p)"
proof -
  have b: "(line_set g l p)\<lparr>g_playerId := i, g_boxes := X\<rparr> = (line_set g l p)\<lparr>g_boxes := X, g_playerId := i\<rparr>" for X
    by simp
  show ?thesis
    by (simp add: setPlayer_eq nextTurn_playerId b split: option.split)
qed

lemma replay_playerId:
  "replay (g\<lparr>g_playerId := i\<rparr>) ts = apsnd (\<lambda>g'. g'\<lparr>g_playerId := i\<rparr>) (replay g ts)"
proof (induction ts arbitrary: g)
  case Nil
  then show ?case by simp
next
  case (Cons t ts)
  show ?case
  proof (cases "lookup_line g (turn_direction t) (turn_x t) (turn_y t)")
    case None
    then show ?thesis by simp
  next
    case (Some l)
    then show ?thesis
      by (cases "setPlayer g l (turn_playerId t)" rule: prod.exhaust)
         (auto simp: setPlayer_playerId Cons.IH split: sum.splits)
  qed
qed

lemma setState_playerId:
  "setState (g\<lparr>g_playerId := i\<rparr>) s = apsnd (\<lambda>g'. g'\<lparr>g_playerId := i\<rparr>) (setState g s)"
proof -
  have eq: "g\<lparr>g_playerId := i, g_players := players s\<rparr> = g\<lparr>g_players := players s, g_playerId := i\<rparr>"
    by simp
  show ?thesis
    unfolding setState_def eq replay_playerId
    by (auto split: prod.splits sum.splits)
qed

lemma find_player0_None:
  assumes "wf_game g"
  shows "find (box_closed (line_set g l (Some 0))) (g_listeners g l) = None"
proof (rule find_None_iff [THEN iffD2], intro notI)
  assume "\<exists>b. b \<in> set (g_listeners g l) \<and> box_closed (line_set g l (Some 0)) b"
  then obtain b where b: "b \<in> set (g_listeners g l)" "box_closed (line_set g l (Some 0)) b"
    by blast
  with assms have "l \<in> set (box_lines b)"
    by (simp add: wf_game_def listener_iff_bounding_line)
  moreover have "\<not> truthy (g_lines (line_set g l (Some 0)) l)"
    by simp
  ultimately show False
    using b(2) not_closed_if_line_falsy by blast
qed

lemma next_index_ne:
  "0 \<le> p \<Longrightarrow> p < int n \<Longrightarrow> 2 \<le> n \<Longrightarrow> next_index p n \<noteq> p"
  by (simp add: next_index_def)

text \<open>A move that closes a box returns normally, without passing the turn, unless it fills the board.\<close>

lemma setPlayer_closing:
  assumes "\<not> truthy (g_lines g l)" "closes g l p" "color_ok g p" "valid_index g"
    "\<not> all_boxes_taken (snd (setPlayer g l p))"
  shows "fst (setPlayer g l p) = Inr () \<and> g_player (snd (setPlayer g l p)) = g_player g"
  using assms
  by (auto simp: setPlayer_eq closes_def nextTurn_eq renderStatus_valid valid_index_def
      find_None_iff_not_list_ex split: option.splits)

text \<open>Evaluation of the replica on concrete snapshots.\<close>

lemmas replay_eval = setState_def lookup_line_def setPlayer_eq nextTurn_eq
  box_closed_def color_ok_def renderStatus_def next_index_def all_boxes_taken_def
  grid_boxes_def Let_def upt_rec js_nth_def new_game_def PLAYERS_def grid_simps

subsection \<open>Properties\<close>

text \<open>
  C1: Turn rule of the replica.  Drawing a free line for a player of the
  roster leaves the current turn index unchanged exactly when the line
  completes a box listening on it (the bonus turn), whoever drew it;
  otherwise the index passes to the next player in circular order.
\<close>

theorem setPlayer_turn_rule:
  assumes "\<not> truthy (g_lines g l)" "color_ok g p" "\<not> all_boxes_taken g"
  shows "g_player (snd (setPlayer g l p)) =
    (if closes g l p then g_player g else next_index (g_player g) (length (g_players g)))"
  using assms
  by (auto simp: setPlayer_eq closes_def nextTurn_eq find_None_iff_not_list_ex
      split: option.splits dest: find_Some_list_ex)

theorem setPlayer_turn_rule_witness:
  "\<not> truthy (g_lines ((new_game 2 2)\<lparr>g_players := take 2 PLAYERS\<rparr>) (V, 0, 0)) \<and>
   color_ok ((new_game 2 2)\<lparr>g_players := take 2 PLAYERS\<rparr>) (Some 1) \<and>
   \<not> all_boxes_taken ((new_game 2 2)\<lparr>g_players := take 2 PLAYERS\<rparr>) \<and>
   g_player (snd (setPlayer ((new_game 2 2)\<lparr>g_players := take 2 PLAYERS\<rparr>) (V, 0, 0) (Some 1))) = 1"
proof -
  let ?g = "(new_game 2 2)\<lparr>g_players := take 2 PLAYERS\<rparr>"
  have h: "\<not> truthy (g_lines ?g (V, 0, 0))" "color_ok ?g (Some 1)" "\<not> all_boxes_taken ?g"
    by (simp_all add: replay_eval)
  have "\<not> closes ?g (V, 0, 0) (Some 1)"
    by (simp add: closes_def replay_eval)
  with setPlayer_turn_rule [OF h] h show ?thesis
    by (simp add: replay_eval)
qed

text \<open>
  C2: A line that completes two boxes at once gives only the first listening
  box to the player: \<open>listeners.some\<close> stops at the first listener that
  returns \<open>true\<close>.  In every replica whose listener table is the
  constructor's, the second box, open before, keeps no owner under every
  later replay of any turns, and the replica never sees the board complete.
\<close>

theorem double_box_second_never_owned:
  assumes "wf_game g" "\<not> truthy (g_lines g l)" "g_listeners g l = [b1, b2]"
    "box_closed (line_set g l p) b1" "box_closed (line_set g l p) b2" "g_boxes g b2 = None"
  shows "g_boxes (snd (setPlayer g l p)) b1 = p \<and>
    (\<forall>ts. g_boxes (snd (replay (snd (setPlayer g l p)) ts)) b2 = None \<and>
          \<not> all_boxes_taken (snd (replay (snd (setPlayer g l p)) ts)))"
proof -
  let ?g = "snd (setPlayer g l p)"
  have d: "b1 \<noteq> b2"
    using assms(1,3) distinct_build_listeners [of "g_width g" "g_height g" l] by (simp add: wf_game_def)
  have bx: "g_boxes ?g = (g_boxes g)(b1 := p)"
    using assms(2,3,4) by (simp add: setPlayer_boxes)
  have cl: "box_closed ?g b2"
    using assms(2,5) by (simp add: box_closed_def setPlayer_lines)
  have w: "wf_game ?g" using assms(1) by (rule wf_game_setPlayer)
  have grid: "b2 \<in> set (grid_boxes (g_width g) (g_height g))"
    using assms(1,3) listener_iff_bounding_line [of b2 "g_width g" "g_height g" l] by (simp add: wf_game_def)
  have "g_boxes (snd (replay ?g ts)) b2 = None \<and> \<not> all_boxes_taken (snd (replay ?g ts))" for ts
  proof -
    have none: "g_boxes (snd (replay ?g ts)) b2 = None"
      using replay_keeps_closed_box [OF w cl] bx d assms(6) by simp
    moreover have "b2 \<in> set (grid_boxes (g_width (snd (replay ?g ts))) (g_height (snd (replay ?g ts))))"
      using grid replay_frame [of ?g ts] by (simp add: setPlayer_frame)
    ultimately show ?thesis using not_all_boxes_taken_if_falsy by simp
  qed
  with bx show ?thesis by simp
qed

theorem double_box_second_never_owned_witness:
  "wf_game (snd (setState (new_game 2 1)
      \<lparr>sessionId = ''ABCDE'', started = True, player = 0, players = take 2 PLAYERS,
       turns = map (\<lambda>(d, x, y). \<lparr>turn_playerId = Some 1, turn_direction = d, turn_x = x, turn_y = y\<rparr>)
         [(''v'', 0, 0), (''h'', 0, 0), (''h'', 0, 1), (''v'', 2, 0), (''h'', 1, 0), (''h'', 1, 1)]\<rparr>)) \<and>
   \<not> truthy (g_lines (snd (setState (new_game 2 1)
      \<lparr>sessionId = ''ABCDE'', started = True, player = 0, players = take 2 PLAYERS,
       turns = map (\<lambda>(d, x, y). \<lparr>turn_playerId = Some 1, turn_direction = d, turn_x = x, turn_y = y\<rparr>)
         [(''v'', 0, 0), (''h'', 0, 0), (''h'', 0, 1), (''v'', 2, 0), (''h'', 1, 0), (''h'', 1, 1)]\<rparr>)) (V, 1, 0)) \<and>
   g_boxes (snd (setPlayer (snd (setState (new_game 2 1)
      \<lparr>sessionId = ''ABCDE'', started = True, player = 0, players = take 2 PLAYERS,
       turns = map (\<lambda>(d, x, y). \<lparr>turn_playerId = Some 1, turn_direction = d, turn_x = x, turn_y = y\<rparr>)
         [(''v'', 0, 0), (''h'', 0, 0), (''h'', 0, 1), (''v'', 2, 0), (''h'', 1, 0), (''h'', 1, 1)]\<rparr>)) (V, 1, 0) (Some 1))) (0, 0) = Some 1 \<and>
   g_boxes (snd (setPlayer (snd (setState (new_game 2 1)
      \<lparr>sessionId = ''ABCDE'', started = True, player = 0, players = take 2 PLAYERS,
       turns = map (\<lambda>(d, x, y). \<lparr>turn_playerId = Some 1, turn_direction = d, turn_x = x, turn_y = y\<rparr>)
         [(''v'', 0, 0), (''h'', 0, 0), (''h'', 0, 1), (''v'', 2, 0), (''h'', 1, 0), (''h'', 1, 1)]\<rparr>)) (V, 1, 0) (Some 1))) (1, 0) = None"
  (is "wf_game ?g \<and> ?n \<and> ?a \<and> ?b")
proof -
  have h: "wf_game ?g" "\<not> truthy (g_lines ?g (V, 1, 0))" "g_listeners ?g (V, 1, 0) = [(0, 0), (1, 0)]"
    "box_closed (line_set ?g (V, 1, 0) (Some 1)) (0, 0)" "box_closed (line_set ?g (V, 1, 0) (Some 1)) (1, 0)"
    "g_boxes ?g (1, 0) = None"
    by (simp_all add: replay_eval wf_game_def line_set_def build_listeners_def register_box_def
        addListener_def box_lines_def)
  have "?a \<and> g_boxes (snd (replay (snd (setPlayer ?g (V, 1, 0) (Some 1))) [])) (1, 0) = None"
    using double_box_second_never_owned [OF h] by blast
  with h show ?thesis by simp
qed

text \<open>
  C3: Player 0, the session's creator, never completes a box: the line it
  draws holds the number 0, which \<open>Box.onLineClick\<close> reads as not drawn.
\<close>

theorem player0_never_closes:
  assumes "wf_game g"
  shows "g_boxes (snd (setPlayer g l (Some 0))) = g_boxes g"
proof (cases "truthy (g_lines g l)")
  case True
  then show ?thesis by (simp add: setPlayer_def)
next
  case False
  with find_player0_None [OF assms] show ?thesis by (simp add: setPlayer_boxes)
qed

theorem player0_never_closes_witness:
  "wf_game (snd (setState (new_game 2 2)
      \<lparr>sessionId = ''ABCDE'', started = True, player = 0, players = take 2 PLAYERS,
       turns = map (\<lambda>(d, x, y). \<lparr>turn_playerId = Some 1, turn_direction = d, turn_x = x, turn_y = y\<rparr>)
         [(''v'', 0, 0), (''h'', 0, 0), (''v'', 1, 0)]\<rparr>)) \<and>
   g_boxes (snd (setPlayer (snd (setState (new_game 2 2)
      \<lparr>sessionId = ''ABCDE'', started = True, player = 0, players = take 2 PLAYERS,
       turns = map (\<lambda>(d, x, y). \<lparr>turn_playerId = Some 1, turn_direction = d, turn_x = x, turn_y = y\<rparr>)
         [(''v'', 0, 0), (''h'', 0, 0), (''v'', 1, 0)]\<rparr>)) (H, 0, 1) (Some 0))) (0, 0) = None"
  (is "wf_game ?g \<and> _")
proof -
  have w: "wf_game ?g" by (simp add: replay_eval wf_game_def)
  have "g_boxes ?g (0, 0) = None" by (simp add: replay_eval)
  with player0_never_closes [OF w, of "(H, 0, 1)"] w show ?thesis by simp
qed

text \<open>
  C4: A line's owner changes only while it is falsy: a line drawn by a
  player other than 0 is written once, a line of player 0 is overwritten by
  the next turn that names it.
\<close>

theorem setPlayer_line_owner:
  "g_lines (snd (setPlayer g l p)) l = (if truthy (g_lines g l) then g_lines g l else p)"
  by (simp add: setPlayer_lines)

text \<open>
  C5: Once its four lines are drawn by players other than 0, a box keeps its
  owner (or its lack of one) through any replay of further turns.
\<close>

theorem closed_box_owner_final:
  assumes "wf_game g" "box_closed g b"
  shows "g_boxes (snd (replay g ts)) b = g_boxes g b"
  using assms by (rule replay_keeps_closed_box)

theorem closed_box_owner_final_witness:
  "wf_game (snd (setState (new_game 2 2)
      \<lparr>sessionId = ''ABCDE'', started = True, player = 0, players = take 2 PLAYERS,
       turns = map (\<lambda>(d, x, y). \<lparr>turn_playerId = Some 1, turn_direction = d, turn_x = x, turn_y = y\<rparr>)
         [(''v'', 0, 0), (''h'', 0, 0), (''v'', 1, 0), (''h'', 0, 1)]\<rparr>)) \<and>
   box_closed (snd (setState (new_game 2 2)
      \<lparr>sessionId = ''ABCDE'', started = True, player = 0, players = take 2 PLAYERS,
       turns = map (\<lambda>(d, x, y). \<lparr>turn_playerId = Some 1, turn_direction = d, turn_x = x, turn_y = y\<rparr>)
         [(''v'', 0, 0), (''h'', 0, 0), (''v'', 1, 0), (''h'', 0, 1)]\<rparr>)) (0, 0) \<and>
   g_boxes (snd (replay (snd (setState (new_game 2 2)
      \<lparr>sessionId = ''ABCDE'', started = True, player = 0, players = take 2 PLAYERS,
       turns = map (\<lambda>(d, x, y). \<lparr>turn_playerId = Some 1, turn_direction = d, turn_x = x, turn_y = y\<rparr>)
         [(''v'', 0, 0), (''h'', 0, 0), (''v'', 1, 0), (''h'', 0, 1)]\<rparr>))
      [\<lparr>turn_playerId = Some 0, turn_direction = ''h'', turn_x = 0, turn_y = 0\<rparr>])) (0, 0) = Some 1"
  (is "wf_game ?g \<and> box_closed ?g _ \<and> g_boxes (snd (replay ?g ?ts)) _ = _")
proof -
  have h: "wf_game ?g" "box_closed ?g (0, 0)" "g_boxes ?g (0, 0) = Some 1"
    by (simp_all add: replay_eval wf_game_def)
  have "g_boxes (snd (replay ?g ?ts)) (0, 0) = Some 1"
    using closed_box_owner_final [OF h(1,2)] h(3) by (rule trans)
  with h(1,2) show ?thesis by blast
qed

text \<open>
  C6: The replica is not a function of the turn log.  Each \<open>state\<close>
  message replays the whole log onto the same objects.  Re-applying a turn
  of player 0 to a replica that already shows that line is not ignored,
  since the number 0 is falsy: the board stays as it was, but the turn
  passes once more.  So with two or more players a replica that has seen
  one snapshot moves its turn away from one that replays the same log once.
\<close>

theorem replica_drifts_on_player0_lines:
  assumes "wf_game g" "valid_index g" "2 \<le> length (g_players g)" "g_lines g l = Some 0"
    "\<not> all_boxes_taken g"
  shows "g_lines (snd (setPlayer g l (Some 0))) = g_lines g \<and>
         g_boxes (snd (setPlayer g l (Some 0))) = g_boxes g \<and>
         g_player (snd (setPlayer g l (Some 0))) = next_index (g_player g) (length (g_players g)) \<and>
         g_player (snd (setPlayer g l (Some 0))) \<noteq> g_player g"
proof -
  have ls: "line_set g l (Some 0) = g"
    using assms(4) by (simp add: line_set_def fun_upd_idem)
  have c: "color_ok g (Some 0)" using assms(3) by (cases "g_players g") (simp_all add: color_ok_def)
  have "setPlayer g l (Some 0) = nextTurn g True"
    using find_player0_None [OF assms(1), of l] assms(4) c by (simp add: setPlayer_eq ls)
  then show ?thesis
    using assms(2,3,5) next_index_ne [of "g_player g" "length (g_players g)"]
    by (simp add: nextTurn_eq valid_index_def)
qed

theorem replica_drifts_on_player0_lines_witness:
  "wf_game (snd (setPlayer ((new_game 2 2)\<lparr>g_players := take 2 PLAYERS\<rparr>) (V, 0, 0) (Some 0))) \<and>
   valid_index (snd (setPlayer ((new_game 2 2)\<lparr>g_players := take 2 PLAYERS\<rparr>) (V, 0, 0) (Some 0))) \<and>
   2 \<le> length (g_players (snd (setPlayer ((new_game 2 2)\<lparr>g_players := take 2 PLAYERS\<rparr>) (V, 0, 0) (Some 0)))) \<and>
   g_lines (snd (setPlayer ((new_game 2 2)\<lparr>g_players := take 2 PLAYERS\<rparr>) (V, 0, 0) (Some 0))) (V, 0, 0) = Some 0 \<and>
   \<not> all_boxes_taken (snd (setPlayer ((new_game 2 2)\<lparr>g_players := take 2 PLAYERS\<rparr>) (V, 0, 0) (Some 0))) \<and>
   g_player (snd (setPlayer (snd (setPlayer ((new_game 2 2)\<lparr>g_players := take 2 PLAYERS\<rparr>) (V, 0, 0) (Some 0)))
     (V, 0, 0) (Some 0))) = 0"
  (is "?a \<and> ?b \<and> ?c \<and> ?d \<and> ?e \<and> _")
proof -
  have h: ?a ?b ?c ?d ?e by (simp_all add: replay_eval wf_game_def valid_index_def)
  have "g_player (snd (setPlayer ((new_game 2 2)\<lparr>g_players := take 2 PLAYERS\<rparr>) (V, 0, 0) (Some 0))) = 1"
    by (simp add: replay_eval)
  moreover have "length (g_players (snd (setPlayer ((new_game 2 2)\<lparr>g_players := take 2 PLAYERS\<rparr>) (V, 0, 0) (Some 0)))) = 2"
    by (simp add: setPlayer_frame)
  ultimately show ?thesis using replica_drifts_on_player0_lines [OF h] h by (simp add: next_index_def)
qed

text \<open>
  C7: The move that completes the board never returns normally: with every
  box taken, \<open>nextTurn\<close> evaluates \<open>players[0].score\<close> on an unbound
  identifier and throws, so the replica never announces a winner or a tie.
\<close>

theorem setPlayer_completing_move_throws:
  assumes "\<not> truthy (g_lines g l)" "all_boxes_taken (snd (setPlayer g l p))"
  shows "fst (setPlayer g l p) \<noteq> Inr ()"
  using assms
  by (auto simp: setPlayer_eq nextTurn_eq split: option.splits if_splits)

theorem setPlayer_completing_move_throws_witness:
  "\<not> truthy (g_lines (snd (setState (new_game 1 1)
      \<lparr>sessionId = ''ABCDE'', started = True, player = 0, players = take 2 PLAYERS,
       turns = map (\<lambda>(d, x, y). \<lparr>turn_playerId = Some 1, turn_direction = d, turn_x = x, turn_y = y\<rparr>)
         [(''v'', 0, 0), (''h'', 0, 0), (''v'', 1, 0)]\<rparr>)) (H, 0, 1)) \<and>
   all_boxes_taken (snd (setPlayer (snd (setState (new_game 1 1)
      \<lparr>sessionId = ''ABCDE'', started = True, player = 0, players = take 2 PLAYERS,
       turns = map (\<lambda>(d, x, y). \<lparr>turn_playerId = Some 1, turn_direction = d, turn_x = x, turn_y = y\<rparr>)
         [(''v'', 0, 0), (''h'', 0, 0), (''v'', 1, 0)]\<rparr>)) (H, 0, 1) (Some 1))) \<and>
   fst (setPlayer (snd (setState (new_game 1 1)
      \<lparr>sessionId = ''ABCDE'', started = True, player = 0, players = take 2 PLAYERS,
       turns = map (\<lambda>(d, x, y). \<lparr>turn_playerId = Some 1, turn_direction = d, turn_x = x, turn_y = y\<rparr>)
         [(''v'', 0, 0), (''h'', 0, 0), (''v'', 1, 0)]\<rparr>)) (H, 0, 1) (Some 1)) \<noteq> Inr ()"
  (is "?a \<and> ?b \<and> _")
proof -
  have h: ?a ?b by (simp_all add: replay_eval)
  with setPlayer_completing_move_throws [OF h] show ?thesis by blast
qed

text \<open>
  C8: Status rendering is safe in a replica whose current index is valid:
  every replay of turns keeps \<open>this.player\<close> an index of
  \<open>this.players\<close>, so \<open>renderStatus\<close> does not throw.
\<close>

theorem replay_keeps_status_renderable:
  assumes "valid_index g"
  shows "valid_index (snd (replay g ts)) \<and> renderStatus (snd (replay g ts)) = Inr ()"
  using assms by (rule replay_valid_index)

theorem replay_keeps_status_renderable_witness:
  "valid_index ((new_game 2 2)\<lparr>g_players := take 3 PLAYERS\<rparr>) \<and>
   renderStatus (snd (replay ((new_game 2 2)\<lparr>g_players := take 3 PLAYERS\<rparr>)
     [\<lparr>turn_playerId = Some 2, turn_direction = ''h'', turn_x = 1, turn_y = 2\<rparr>])) = Inr ()"
proof -
  have h: "valid_index ((new_game 2 2)\<lparr>g_players := take 3 PLAYERS\<rparr>)"
    by (simp add: valid_index_def replay_eval)
  with replay_keeps_status_renderable [OF h] show ?thesis by blast
qed

text \<open>
  C22: A logged turn whose \<open>playerId\<close> is undefined stops every replay at
  that turn when it names an undrawn line: \<open>players[undefined].color\<close>
  throws inside \<open>setPlayer\<close>, so no later turn of the log is applied, on
  this snapshot or on any later one.
\<close>

theorem replay_stops_at_undefined_player:
  assumes "wf_game g" "replay g pre = (Inr (), g1)"
    "lookup_line g1 d x y = Some l" "\<not> truthy (g_lines g1 l)"
  shows "replay g (pre @ \<lparr>turn_playerId = None, turn_direction = d, turn_x = x, turn_y = y\<rparr> # post) =
           (Inl TypeError, line_set g1 l None)"
proof -
  have "wf_game g1"
    using replay_frame [of g pre] assms(1,2) by (simp add: wf_game_def)
  with assms show ?thesis by (simp add: replay_append setPlayer_undefined)
qed

theorem replay_stops_at_undefined_player_witness:
  "wf_game ((new_game 2 2)\<lparr>g_players := take 2 PLAYERS\<rparr>) \<and>
   replay ((new_game 2 2)\<lparr>g_players := take 2 PLAYERS\<rparr>)
     [\<lparr>turn_playerId = Some 1, turn_direction = ''v'', turn_x = 0, turn_y = 0\<rparr>] =
     (Inr (), snd (replay ((new_game 2 2)\<lparr>g_players := take 2 PLAYERS\<rparr>)
       [\<lparr>turn_playerId = Some 1, turn_direction = ''v'', turn_x = 0, turn_y = 0\<rparr>])) \<and>
   lookup_line (snd (replay ((new_game 2 2)\<lparr>g_players := take 2 PLAYERS\<rparr>)
       [\<lparr>turn_playerId = Some 1, turn_direction = ''v'', turn_x = 0, turn_y = 0\<rparr>])) ''h'' 0 0 = Some (H, 0, 0) \<and>
   \<not> truthy (g_lines (snd (replay ((new_game 2 2)\<lparr>g_players := take 2 PLAYERS\<rparr>)
       [\<lparr>turn_playerId = Some 1, turn_direction = ''v'', turn_x = 0, turn_y = 0\<rparr>])) (H, 0, 0)) \<and>
   fst (replay ((new_game 2 2)\<lparr>g_players := take 2 PLAYERS\<rparr>)
     ([\<lparr>turn_playerId = Some 1, turn_direction = ''v'', turn_x = 0, turn_y = 0\<rparr>] @
      \<lparr>turn_playerId = None, turn_direction = ''h'', turn_x = 0, turn_y = 0\<rparr> #
      [\<lparr>turn_playerId = Some 0, turn_direction = ''h'', turn_x = 0, turn_y = 1\<rparr>])) = Inl TypeError"
  (is "?a \<and> ?b \<and> ?c \<and> ?d \<and> _")
proof -
  have h: ?a ?b ?c ?d by (simp_all add: replay_eval wf_game_def)
  from h replay_stops_at_undefined_player [OF h] show ?thesis by simp
qed

end
