(* ===== verification/SessionId.thy ===== *)
theory SessionId
  imports Prelude
begin

text \<open>
  \<open>Util.createSessionId\<close> of \<open>src/server/lib/Util.js\<close>: \<open>length\<close> characters
  drawn from a 62-letter alphabet.  The draws \<open>Math.floor(Math.random() *
  characters.length)\<close> are the argument of the model, a list of numbers
  below 62, so that the generator is a function; the list's length is the
  \<open>length\<close> parameter (5 at the only call site).  The theory shows that the
  loop computes \<open>map\<close> of the draws, that the identifiers it produces are
  exactly those the page route \<open>/:sessionId([A-Za-z0-9]{5})\<close> accepts, and
  that the draws can be read back from the identifier.
\<close>

definition characters :: string where
  "characters = ''ABCDEFGHIJKLMNOPQRSTUVWXYZabcdefghijklmnopqrstuvwxyz0123456789''"

text \<open>The \<open>for\<close> loop: \<open>result += characters[r]\<close> for each draw.\<close>

fun createSessionId_loop :: "string \<Rightarrow> nat list \<Rightarrow> string" where
  "createSessionId_loop result [] = result"
| "createSessionId_loop result (r # rs) = createSessionId_loop (result @ [characters ! r]) rs"

definition createSessionId :: "nat list \<Rightarrow> string" where
  "createSessionId rs = createSessionId_loop [] rs"

text \<open>The route pattern \<open>[A-Za-z0-9]{5}\<close> of the express page route.\<close>

definition is_alnum :: "char \<Rightarrow> bool" where
  "is_alnum c \<longleftrightarrow>
     (let n = (of_char c :: nat)
      in (of_char CHR ''A'' \<le> n \<and> n \<le> of_char CHR ''Z'') \<or>
         (of_char CHR ''a'' \<le> n \<and> n \<le> of_char CHR ''z'') \<or>
         (of_char CHR ''0'' \<le> n \<and> n \<le> of_char CHR ''9''))"

definition route_matches :: "string \<Rightarrow> bool" where
  "route_matches s \<longleftrightarrow> length s = 5 \<and> list_all is_alnum s"

text \<open>Reading a draw back from a character: its position in the alphabet.\<close>

fun index_of :: "char \<Rightarrow> string \<Rightarrow> nat" where
  "index_of c [] = 0"
| "index_of c (d # ds) = (if c = d then 0 else Suc (index_of c ds))"

definition decodeSessionId :: "string \<Rightarrow> nat list" where
  "decodeSessionId s = map (\<lambda>c. index_of c characters) s"

subsection \<open>Lemmas\<close>

lemma length_characters [simp]: "length characters = 62"
  by (simp add: characters_def)

lemma distinct_characters: "distinct characters"
  by (simp add: characters_def)

lemma createSessionId_loop_map: "createSessionId_loop result rs = result @ map (\<lambda>r. characters ! r) rs"
  by (induction rs arbitrary: result) simp_all

lemma index_of_nth: "distinct xs \<Longrightarrow> i < length xs \<Longrightarrow> index_of (xs ! i) xs = i"
proof (induction xs arbitrary: i)
  case Nil
  then show ?case by simp
next
  case (Cons x xs)
  then show ?case by (cases i) (auto simp: nth_mem)
qed

lemma is_alnum_characters: "list_all is_alnum characters"
  by (simp add: characters_def is_alnum_def)

lemma is_alnum_nth_characters: "r < 62 \<Longrightarrow> is_alnum (characters ! r)"
  using is_alnum_characters by (simp add: list_all_length)

subsection \<open>Properties\<close>

text \<open>
  C20: Every identifier the server creates from five draws is accepted by
  the page route \<open>/:sessionId([A-Za-z0-9]{5})\<close>, so the shared link
  \<open>/<id>\<close> serves the page, whose script then joins the session (it joins
  exactly when the path has five characters).
\<close>

theorem createSessionId_matches_route:
  assumes "list_all (\<lambda>r. r < 62) rs" "length rs = 5"
  shows "route_matches (createSessionId rs)"
  using assms
  by (auto simp: route_matches_def createSessionId_def createSessionId_loop_map list_all_iff
      is_alnum_nth_characters)

theorem createSessionId_matches_route_witness:
  "list_all (\<lambda>r. r < 62) [61, 0, 25, 26, 52 :: nat] \<and> length [61, 0, 25, 26, 52 :: nat] = 5 \<and>
   route_matches (createSessionId [61, 0, 25, 26, 52]) \<and> createSessionId [61, 0, 25, 26, 52] = ''9AZa0''"
proof -
  have h: "list_all (\<lambda>r. r < 62) [61, 0, 25, 26, 52 :: nat]" "length [61, 0, 25, 26, 52 :: nat] = 5"
    by simp_all
  have "createSessionId [61, 0, 25, 26, 52] = ''9AZa0''"
    by (simp add: createSessionId_def characters_def)
  with h createSessionId_matches_route [OF h] show ?thesis by simp
qed

text \<open>
  C21: The identifier determines the draws: reading each character's
  position in the alphabet gives them back, so distinct draws give distinct
  identifiers.
\<close>

theorem decode_createSessionId:
  assumes "list_all (\<lambda>r. r < 62) rs"
  shows "decodeSessionId (createSessionId rs) = rs"
  using assms
  by (induction rs) (simp_all add: decodeSessionId_def createSessionId_def createSessionId_loop_map
      index_of_nth distinct_characters)

theorem decode_createSessionId_witness:
  "list_all (\<lambda>r. r < 62) [3, 14, 15, 9, 26 :: nat] \<and>
   decodeSessionId (createSessionId [3, 14, 15, 9, 26]) = [3, 14, 15, 9, 26]"
proof -
  have h: "list_all (\<lambda>r. r < 62) [3, 14, 15, 9, 26 :: nat]" by simp
  from h decode_createSessionId [OF h] show ?thesis by simp
qed

end
