(* ===== verification/Server.thy ===== *)
theory Server
  imports Protocol SessionId "HOL-Library.Sublist"
begin

text \<open>
  The session manager, \<open>class Server\<close> of \<open>src/server/lib/Server.js\<close>.  The
  server's state is an explicit store: session objects live at addresses
  (\<open>heap\<close>), \<open>this.sessions\<close> maps ids to addresses, and every socket holds
  the fields the handlers write on it (\<open>playerId\<close>, \<open>sessionId\<close> and a
  reference \<open>session\<close> to a session object).  References matter: a socket
  keeps its object after \<open>this.sessions[id]\<close> is overwritten, and a socket
  whose join was refused keeps the reference the handler stored before the
  checks.  Rooms are socket.io's membership lists.  A handler returns the
  new server, the \<open>state\<close> messages it emitted (recipients and the snapshot
  of the object at emission time) and its callback reply.
\<close>

type_synonym sid = nat

record sock =
  sock_playerId :: "pid option"
  sock_sessionId :: "string option"
  sock_session :: "addr option"

record server =
  heap :: "addr \<Rightarrow> session option"
  sessions :: "string \<Rightarrow> addr option"
  sockets :: "sid \<Rightarrow> sock"
  rooms :: "string \<Rightarrow> sid list"
  next_addr :: addr

text \<open>The errors a callback reports, and the literal string the code sends for each.\<close>

datatype server_error = Session_not_found | Max_players | Game_already_started
  | Waiting_for_players | Game_not_started

fun error_message :: "server_error \<Rightarrow> string" where
  "error_message Session_not_found = ''session_not_found''"
| "error_message Max_players = ''max_players''"
| "error_message Game_already_started = ''game_already_started''"
| "error_message Waiting_for_players = ''Waiting for players...''"
| "error_message Game_not_started = ''Game not started!''"

text \<open>
  Replies: \<open>callback(err)\<close>, \<open>callback()\<close>, and
  \<open>callback(null, { sessionId, playerId, state })\<close>; \<open>Throws\<close> is a handler
  that throws before calling back.  Nothing catches the exception, so it
  ends the Node process: no later request is served.
\<close>

datatype reply = Err server_error | Ack | Welcome string pid session | Throws exn

fun served :: "reply \<Rightarrow> bool" where
  "served (Throws _) = False"
| "served _ = True"

type_synonym emit = "sid list \<times> session"

type_synonym outcome = "server \<times> emit list \<times> reply"

text \<open>A socket that never created or joined: every field \<open>undefined\<close>.\<close>

definition fresh_sock :: sock where
  "fresh_sock = \<lparr>sock_playerId = None, sock_sessionId = None, sock_session = None\<rparr>"

definition server0 :: server where
  "server0 = \<lparr>heap = (\<lambda>_. None), sessions = (\<lambda>_. None), sockets = (\<lambda>_. fresh_sock),
              rooms = (\<lambda>_. []), next_addr = 0\<rparr>"

text \<open>\<open>socket.join(room)\<close>: membership is a set, kept in joining order.\<close>

definition join_room :: "server \<Rightarrow> sid \<Rightarrow> string \<Rightarrow> server" where
  "join_room s k r =
     s\<lparr>rooms := (rooms s)(r := (if k \<in> set (rooms s r) then rooms s r else rooms s r @ [k]))\<rparr>"

text \<open>\<open>this.io.to(room).emit('state', obj)\<close>; \<open>io.to(undefined)\<close> reaches nobody here.\<close>

definition emit_state :: "server \<Rightarrow> string option \<Rightarrow> session \<Rightarrow> emit" where
  "emit_state s r obj = ((case r of None \<Rightarrow> [] | Some r' \<Rightarrow> rooms s r'), obj)"

text \<open>\<open>{ ...PLAYERS[n] }\<close>: the \<open>n\<close>-th identity (an empty object past the end).\<close>

definition player_entry :: "nat \<Rightarrow> player_info" where
  "player_entry n = (case js_nth PLAYERS (int n) of Some p \<Rightarrow> p | None \<Rightarrow> \<lparr>name = [], color = []\<rparr>)"

text \<open>
  \<open>this.sessions\<close> is a plain object (\<open>{}\<close>): an id that is no own
  property but a property of \<open>Object.prototype\<close> reads an inherited
  function or object, not \<open>undefined\<close>.
\<close>

definition proto_keys :: "string list" where
  "proto_keys = [''constructor'', ''__proto__'', ''hasOwnProperty'', ''isPrototypeOf'',
     ''propertyIsEnumerable'', ''toLocaleString'', ''toString'', ''valueOf'',
     ''__defineGetter__'', ''__defineSetter__'', ''__lookupGetter__'', ''__lookupSetter__'']"

subsection \<open>Handlers\<close>

definition onIOCreateSession :: "server \<Rightarrow> sid \<Rightarrow> nat list \<Rightarrow> outcome" where
  "onIOCreateSession s k draws =
    (let sessId = createSessionId draws; a = next_addr s;
         obj = \<lparr>sessionId = sessId, started = False, player = 0,
                players = [player_entry 0], turns = []\<rparr>;
         s1 = s\<lparr>heap := (heap s)(a \<mapsto> obj), sessions := (sessions s)(sessId \<mapsto> a),
                 next_addr := Suc a,
                 sockets := (sockets s)(k := \<lparr>sock_playerId = Some 0, sock_sessionId = Some sessId,
                                               sock_session = Some a\<rparr>)\<rparr>;
         s2 = join_room s1 k sessId
     in (s2, [emit_state s2 (Some sessId) obj], Welcome sessId 0 obj))"

text \<open>
  \<open>onIOJoinSession\<close>.  For an inherited id, \<open>socket.session\<close> is truthy
  and \<open>socket.session.players.length\<close> reads \<open>length\<close> of \<open>undefined\<close>:
  a \<open>TypeError\<close> before any callback.
\<close>

definition onIOJoinSession :: "server \<Rightarrow> sid \<Rightarrow> string \<Rightarrow> outcome" where
  "onIOJoinSession s k sessId =
    (let sk = sockets s k;
         s1 = s\<lparr>sockets := (sockets s)(k := sk\<lparr>sock_sessionId := Some sessId,
                                                 sock_session := sessions s sessId\<rparr>)\<rparr>
     in case sessions s sessId of
          None \<Rightarrow> if sessId \<in> set proto_keys then (s1, [], Throws TypeError)
                  else (s1, [], Err Session_not_found)
        | Some a \<Rightarrow>
           (case heap s a of
              None \<Rightarrow> (s1, [], Err Session_not_found)
            | Some obj \<Rightarrow>
               if length (players obj) = length PLAYERS then (s1, [], Err Max_players)
               else if started obj then (s1, [], Err Game_already_started)
               else
                 (let n = length (players obj);
                      obj' = obj\<lparr>players := players obj @ [player_entry n]\<rparr>;
                      s2 = s1\<lparr>heap := (heap s1)(a \<mapsto> obj'),
                              sockets := (sockets s1)(k := (sockets s1 k)\<lparr>sock_playerId := Some n\<rparr>)\<rparr>;
                      s3 = join_room s2 k sessId
                  in (s3, [emit_state s3 (Some sessId) obj'], Welcome sessId n obj'))))"

definition onIOStart :: "server \<Rightarrow> sid \<Rightarrow> outcome" where
  "onIOStart s k =
    (let sk = sockets s k
     in case sock_session sk of
          None \<Rightarrow> (s, [], Err Session_not_found)
        | Some a \<Rightarrow>
           (case heap s a of
              None \<Rightarrow> (s, [], Err Session_not_found)
            | Some obj \<Rightarrow>
               if length (players obj) < 2 then (s, [], Err Waiting_for_players)
               else
                 (let obj' = obj\<lparr>started := True\<rparr>; s1 = s\<lparr>heap := (heap s)(a \<mapsto> obj')\<rparr>
                  in (s1, [emit_state s1 (sock_sessionId sk) obj'], Ack))))"

text \<open>
  \<open>onIOTurn\<close>: the turn-order check is commented out in the source; the line
  is not checked either.  The counter is advanced on every turn:
  \<open>session.player + 1\<close>, back to 0 past the last index.
\<close>

definition advance :: "int \<Rightarrow> nat \<Rightarrow> int" where
  "advance p n = (if p + 1 > int n - 1 then 0 else p + 1)"

definition onIOTurn :: "server \<Rightarrow> sid \<Rightarrow> string \<Rightarrow> int \<Rightarrow> int \<Rightarrow> outcome" where
  "onIOTurn s k direction x y =
    (let sk = sockets s k
     in case sock_session sk of
          None \<Rightarrow> (s, [], Err Session_not_found)
        | Some a \<Rightarrow>
           (case heap s a of
              None \<Rightarrow> (s, [], Err Session_not_found)
            | Some obj \<Rightarrow>
               if \<not> started obj then (s, [], Err Game_not_started)
               else
                 (let t = \<lparr>turn_playerId = sock_playerId sk, turn_direction = direction,
                           turn_x = x, turn_y = y\<rparr>;
                      obj' = obj\<lparr>turns := turns obj @ [t],
                                 player := advance (player obj) (length (players obj))\<rparr>;
                      s1 = s\<lparr>heap := (heap s)(a \<mapsto> obj')\<rparr>
                  in (s1, [emit_state s1 (sock_sessionId sk) obj'], Ack))))"

text \<open>The socket events of \<open>onIOConnection\<close>, one handler each.\<close>

datatype request = CreateSession "nat list" | JoinSession string | Start | Turn string int int

fun handle :: "server \<Rightarrow> sid \<Rightarrow> request \<Rightarrow> outcome" where
  "handle s k (CreateSession draws) = onIOCreateSession s k draws"
| "handle s k (JoinSession i) = onIOJoinSession s k i"
| "handle s k Start = onIOStart s k"
| "handle s k (Turn d x y) = onIOTurn s k d x y"

text \<open>Draws are below 62, as \<open>Math.floor(Math.random() * 62)\<close> is.\<close>

fun request_ok :: "request \<Rightarrow> bool" where
  "request_ok (CreateSession ds) = list_all (\<lambda>r. r < 62) ds"
| "request_ok _ = True"

text \<open>The requests whose handler never throws: all but a join of an inherited id.\<close>

fun crash_free :: "request \<Rightarrow> bool" where
  "crash_free (JoinSession i) = (i \<notin> set proto_keys)"
| "crash_free _ = True"

text \<open>
  Node runs one handler at a time, to completion, in arrival order: a run of
  requests from any sockets is a fold of \<open>handle\<close> (\<open>serve\<close>) that ends
  at a handler that throws, and the reachable servers are those some run of
  well-formed requests reaches while the process is up.
\<close>

fun serve :: "server \<Rightarrow> (sid \<times> request) list \<Rightarrow> server \<times> emit list \<times> reply list" where
  "serve s [] = (s, [], [])"
| "serve s ((k, rq) # rqs) =
    (case handle s k rq of
       (s1, es, r) \<Rightarrow>
         if served r then (case serve s1 rqs of (s2, es', rs) \<Rightarrow> (s2, es @ es', r # rs))
         else (s1, es, [r]))"

inductive reachable :: "server \<Rightarrow> bool" where
  init: "reachable server0"
| step: "reachable s \<Longrightarrow> request_ok req \<Longrightarrow> handle s k req = (s', es, r) \<Longrightarrow> served r \<Longrightarrow> reachable s'"

subsection \<open>Invariant\<close>


definition session_ok :: "session \<Rightarrow> bool" where
  "session_ok obj \<longleftrightarrow>
     1 \<le> length (players obj) \<and> length (players obj) \<le> length PLAYERS \<and>
     players obj = take (length (players obj)) PLAYERS \<and>
     0 \<le> player obj \<and> player obj < int (length (players obj)) \<and>
     (\<not> started obj \<longrightarrow> turns obj = [])"

definition server_inv :: "server \<Rightarrow> bool" where
  "server_inv s \<longleftrightarrow>
     (\<forall>a obj. heap s a = Some obj \<longrightarrow> session_ok obj) \<and>
     (\<forall>a. next_addr s \<le> a \<longrightarrow> heap s a = None) \<and>
     (\<forall>i a. sessions s i = Some a \<longrightarrow> heap s a \<noteq> None) \<and>
     (\<forall>k a. sock_session (sockets s k) = Some a \<longrightarrow> heap s a \<noteq> None)"

text \<open>
  The identities in play: a socket's \<open>playerId\<close> and the \<open>playerId\<close> of
  every logged turn are undefined or an index of \<open>PLAYERS\<close>.
\<close>

definition ids_ok :: "server \<Rightarrow> bool" where
  "ids_ok s \<longleftrightarrow>
     (\<forall>k. pred_option (\<lambda>i. i < length PLAYERS) (sock_playerId (sockets s k))) \<and>
     (\<forall>a obj. heap s a = Some obj \<longrightarrow> list_all (\<lambda>t. pred_option (\<lambda>i. i < length PLAYERS) (turn_playerId t)) (turns obj))"

subsection \<open>Lemmas\<close>

lemma server_inv_init: "server_inv server0"
  by (simp add: server_inv_def server0_def fresh_sock_def)

lemma player_entry_nth: "n < length PLAYERS \<Longrightarrow> player_entry n = PLAYERS ! n"
  by (simp add: player_entry_def js_nth_def)

lemma take_Suc_PLAYERS:
  "n < length PLAYERS \<Longrightarrow> take n PLAYERS @ [player_entry n] = take (Suc n) PLAYERS"
  by (simp add: player_entry_nth take_Suc_conv_app_nth)

lemma session_ok_create: "session_ok \<lparr>sessionId = i, started = False, player = 0, players = [player_entry 0], turns = []\<rparr>"
  by (simp add: session_ok_def player_entry_nth take_Suc_conv_app_nth)

lemma join_room_sel [simp]:
  "heap (join_room s k r) = heap s" "sessions (join_room s k r) = sessions s"
  "sockets (join_room s k r) = sockets s" "next_addr (join_room s k r) = next_addr s"
  by (simp_all add: join_room_def)

lemma set_rooms_join_room:
  "set (rooms (join_room s k r) r') = (if r' = r then insert k (set (rooms s r)) else set (rooms s r'))"
  by (auto simp: join_room_def)

lemma server_inv_create:
  "server_inv s \<Longrightarrow> onIOCreateSession s k ds = (s', es, r) \<Longrightarrow> server_inv s'"
  by (auto simp: server_inv_def onIOCreateSession_def Let_def session_ok_create split: if_splits)

lemma session_ok_join:
  assumes ok: "session_ok obj" and "length (players obj) \<noteq> length PLAYERS" "\<not> started obj"
  shows "session_ok (obj\<lparr>players := players obj @ [player_entry (length (players obj))]\<rparr>)"
proof -
  let ?n = "length (players obj)"
  from ok assms(2) have n: "?n < length PLAYERS" by (simp add: session_ok_def)
  from ok have "players obj @ [player_entry ?n] = take (Suc ?n) PLAYERS"
    by (metis n session_ok_def take_Suc_PLAYERS)
  with ok n assms(3) show ?thesis
    by (simp add: session_ok_def)
qed

lemma server_inv_join:
  "server_inv s \<Longrightarrow> onIOJoinSession s k i = (s', es, r) \<Longrightarrow> server_inv s'"
  unfolding server_inv_def onIOJoinSession_def Let_def
  by (auto simp: session_ok_join split: option.splits if_splits) (metis option.distinct(1))

lemma session_ok_start: "session_ok obj \<Longrightarrow> session_ok (obj\<lparr>started := True\<rparr>)"
  by (simp add: session_ok_def)

lemma advance_bounds: "0 \<le> p \<Longrightarrow> p < int n \<Longrightarrow> 0 \<le> advance p n \<and> advance p n < int n"
  by (simp add: advance_def)

lemma session_ok_turn:
  "session_ok obj \<Longrightarrow> started obj \<Longrightarrow>
   session_ok (obj\<lparr>turns := ts, player := advance (player obj) (length (players obj))\<rparr>)"
  by (simp add: session_ok_def advance_bounds)

lemma server_inv_start: "server_inv s \<Longrightarrow> onIOStart s k = (s', es, r) \<Longrightarrow> server_inv s'"
  by (auto simp: server_inv_def onIOStart_def Let_def session_ok_start split: option.splits if_splits)

lemma server_inv_turn: "server_inv s \<Longrightarrow> onIOTurn s k d x y = (s', es, r) \<Longrightarrow> server_inv s'"
  by (auto simp: server_inv_def onIOTurn_def Let_def session_ok_turn split: option.splits if_splits)

lemma server_inv_handle: "server_inv s \<Longrightarrow> handle s k req = (s', es, r) \<Longrightarrow> server_inv s'"
  by (cases req) (auto intro: server_inv_create server_inv_join server_inv_start server_inv_turn)

lemma served_simps [simp]:
  "served (snd (snd (onIOCreateSession s k ds)))"
  "served (snd (snd (onIOStart s k)))"
  "served (snd (snd (onIOTurn s k d x y)))"
  "i \<notin> set proto_keys \<Longrightarrow> served (snd (snd (onIOJoinSession s k i)))"
  by (auto simp: onIOCreateSession_def onIOStart_def onIOTurn_def onIOJoinSession_def Let_def
      split: option.splits)

lemma served_handle: "crash_free rq \<Longrightarrow> served (snd (snd (handle s k rq)))"
  by (cases rq) simp_all

lemma reachable_server_inv: "reachable s \<Longrightarrow> server_inv s"
  by (induction rule: reachable.induct) (auto intro: server_inv_init server_inv_handle)

lemma advance_ne: "0 \<le> p \<Longrightarrow> p < int n \<Longrightarrow> 2 \<le> n \<Longrightarrow> advance p n \<noteq> p"
  by (simp add: advance_def)

text \<open>A turn on a started session the socket holds is logged with the socket's identity.\<close>

lemma onIOTurn_started:
  assumes "sock_session (sockets s k) = Some a" "heap s a = Some obj" "started obj"
  shows "onIOTurn s k d x y =
    (s\<lparr>heap := (heap s)(a \<mapsto> obj\<lparr>turns := turns obj @ [\<lparr>turn_playerId = sock_playerId (sockets s k),
        turn_direction = d, turn_x = x, turn_y = y\<rparr>], player := advance (player obj) (length (players obj))\<rparr>)\<rparr>,
     [emit_state (s\<lparr>heap := (heap s)(a \<mapsto> obj\<lparr>turns := turns obj @ [\<lparr>turn_playerId = sock_playerId (sockets s k),
        turn_direction = d, turn_x = x, turn_y = y\<rparr>], player := advance (player obj) (length (players obj))\<rparr>)\<rparr>)
        (sock_sessionId (sockets s k))
        (obj\<lparr>turns := turns obj @ [\<lparr>turn_playerId = sock_playerId (sockets s k),
        turn_direction = d, turn_x = x, turn_y = y\<rparr>], player := advance (player obj) (length (players obj))\<rparr>)], Ack)"
  using assms by (simp add: onIOTurn_def Let_def)

text \<open>A join of a started session is refused after the session is stored on the socket.\<close>

lemma onIOJoinSession_started:
  assumes "sessions s i = Some a" "heap s a = Some obj" "started obj"
  shows "\<exists>e. onIOJoinSession s k i =
    (s\<lparr>sockets := (sockets s)(k := (sockets s k)\<lparr>sock_sessionId := Some i, sock_session := Some a\<rparr>)\<rparr>, [], Err e)"
  using assms by (simp add: onIOJoinSession_def Let_def)

text \<open>Evaluation of the handlers on concrete requests.\<close>

lemmas server_eval = onIOCreateSession_def onIOJoinSession_def onIOStart_def onIOTurn_def
  server0_def fresh_sock_def join_room_def emit_state_def player_entry_def advance_def
  createSessionId_def characters_def Let_def PLAYERS_def js_nth_def proto_keys_def

lemma advance_mod: "0 \<le> p \<Longrightarrow> p < int n \<Longrightarrow> advance p n = (p + 1) mod int n"
  using wrap_eq_mod(2) [of p n] by (simp add: advance_def)

lemma reachable_serve:
  "reachable s \<Longrightarrow> list_all (\<lambda>(k, rq). request_ok rq \<and> crash_free rq) rqs \<Longrightarrow> reachable (fst (serve s rqs))"
proof (induction rqs arbitrary: s)
  case Nil
  then show ?case by simp
next
  case (Cons kr rqs)
  obtain k rq where kr: "kr = (k, rq)" by (cases kr)
  obtain s1 es r where h: "handle s k rq = (s1, es, r)" by (cases "handle s k rq") auto
  have sv: "served r" using served_handle [of rq s k] Cons.prems kr h by simp
  from Cons.prems kr h sv have r1: "reachable s1" by (auto intro: reachable.step)
  from Cons.prems kr have "list_all (\<lambda>(k, rq). request_ok rq \<and> crash_free rq) rqs" by simp
  with r1 have "reachable (fst (serve s1 rqs))" by (rule Cons.IH)
  moreover have "fst (serve s (kr # rqs)) = fst (serve s1 rqs)"
    using kr h sv by (cases "serve s1 rqs") simp
  ultimately show ?case by simp
qed

lemma reachable_obj_ok: "reachable s \<Longrightarrow> heap s a = Some obj \<Longrightarrow> session_ok obj"
  using reachable_server_inv [of s] by (simp add: server_inv_def)

lemma reachable_started_demo:
  "reachable (fst (serve server0 [(0, CreateSession [0, 1, 2, 3, 4]), (1, JoinSession ''ABCDE''), (0, Start)]))"
  by (rule reachable_serve [OF reachable.init]) (simp add: proto_keys_def)

lemma reachable_created_demo: "reachable (fst (serve server0 [(0, CreateSession [0, 1, 2, 3, 4])]))"
  by (rule reachable_serve [OF reachable.init]) simp

lemma ids_ok_handle:
  assumes r: "reachable s" and ok: "ids_ok s"
  shows "ids_ok (fst (handle s k req))"
proof (cases req)
  case (CreateSession ds)
  then show ?thesis using ok
    by (auto simp: ids_ok_def onIOCreateSession_def join_room_def Let_def)
next
  case (JoinSession i)
  have cap: "length (players obj) \<le> length PLAYERS" if "heap s a = Some obj" for a obj
    using reachable_obj_ok [OF r that] by (simp add: session_ok_def)
  show ?thesis using ok JoinSession cap
    by (fastforce simp: ids_ok_def onIOJoinSession_def join_room_def Let_def
        split: option.splits if_splits)
next
  case Start
  then show ?thesis using ok
    by (auto simp: ids_ok_def onIOStart_def Let_def split: option.splits)
next
  case (Turn d x y)
  then show ?thesis using ok
    by (auto simp: ids_ok_def onIOTurn_def Let_def split: option.splits)
qed

lemma reachable_ids_ok: "reachable s \<Longrightarrow> ids_ok s"
proof (induction rule: reachable.induct)
  case init
  then show ?case by (simp add: ids_ok_def server0_def fresh_sock_def)
next
  case (step s req k s' es r)
  then show ?case using ids_ok_handle [OF step.hyps(1) step.IH, of k req] by simp
qed

subsection \<open>Properties\<close>

text \<open>
  C13: In every reachable server, every session object has between one and
  five players, who are the first entries of \<open>PLAYERS\<close> in order, its turn
  counter indexes the roster, and it has no turns before it is started.
\<close>

theorem reachable_session_ok:
  assumes "reachable s" "heap s a = Some obj"
  shows "session_ok obj"
  using assms by (rule reachable_obj_ok)

theorem reachable_session_ok_witness:
  "reachable (fst (onIOCreateSession server0 0 [0, 1, 2, 3, 4])) \<and>
   heap (fst (onIOCreateSession server0 0 [0, 1, 2, 3, 4])) 0 =
     Some \<lparr>sessionId = ''ABCDE'', started = False, player = 0, players = take 1 PLAYERS, turns = []\<rparr> \<and>
   session_ok \<lparr>sessionId = ''ABCDE'', started = False, player = 0, players = take 1 PLAYERS, turns = []\<rparr>"
proof -
  have r: "reachable (fst (onIOCreateSession server0 0 [0, 1, 2, 3, 4]))"
    by (rule reachable.step [OF reachable.init, of "CreateSession [0, 1, 2, 3, 4]" 0 _ _
        "snd (snd (onIOCreateSession server0 0 [0, 1, 2, 3, 4]))"]) (simp_all add: prod_eq_iff)
  have h: "heap (fst (onIOCreateSession server0 0 [0, 1, 2, 3, 4])) 0 =
     Some \<lparr>sessionId = ''ABCDE'', started = False, player = 0, players = take 1 PLAYERS, turns = []\<rparr>"
    by (simp add: server_eval)
  from r h reachable_session_ok [OF r h] show ?thesis by blast
qed

text \<open>
  C14: In a started session, a turn from any socket holding the session is
  accepted, whoever sends it and whichever line it names (the turn-order
  check is commented out and occupancy is never checked); it is appended to
  the log with the socket's \<open>playerId\<close>, and the counter always moves to
  the next player modulo the roster size, with no bonus turn.
\<close>

theorem turn_accepted_and_rotates:
  assumes "reachable s" "sock_session (sockets s k) = Some a" "heap s a = Some obj" "started obj"
  shows "\<exists>s' es. onIOTurn s k d x y = (s', es, Ack) \<and>
    heap s' a = Some (obj\<lparr>turns := turns obj @ [\<lparr>turn_playerId = sock_playerId (sockets s k),
                          turn_direction = d, turn_x = x, turn_y = y\<rparr>],
                        player := (player obj + 1) mod int (length (players obj))\<rparr>)"
proof -
  have "session_ok obj" by (rule reachable_obj_ok [OF assms(1,3)])
  then have "advance (player obj) (length (players obj)) = (player obj + 1) mod int (length (players obj))"
    by (simp add: session_ok_def advance_mod)
  with assms(2-4) show ?thesis by (simp add: onIOTurn_def Let_def)
qed

theorem turn_accepted_and_rotates_witness:
  "reachable (fst (serve server0 [(0, CreateSession [0, 1, 2, 3, 4]), (1, JoinSession ''ABCDE''), (0, Start)])) \<and>
   sock_session (sockets (fst (serve server0 [(0, CreateSession [0, 1, 2, 3, 4]), (1, JoinSession ''ABCDE''), (0, Start)])) 1) = Some 0 \<and>
   heap (fst (serve server0 [(0, CreateSession [0, 1, 2, 3, 4]), (1, JoinSession ''ABCDE''), (0, Start)])) 0 =
     Some \<lparr>sessionId = ''ABCDE'', started = True, player = 0, players = take 2 PLAYERS, turns = []\<rparr> \<and>
   (\<exists>s' es. onIOTurn (fst (serve server0 [(0, CreateSession [0, 1, 2, 3, 4]), (1, JoinSession ''ABCDE''), (0, Start)])) 1 ''h'' 0 0 = (s', es, Ack) \<and>
     heap s' 0 = Some \<lparr>sessionId = ''ABCDE'', started = True, player = 1, players = take 2 PLAYERS,
        turns = [\<lparr>turn_playerId = Some 1, turn_direction = ''h'', turn_x = 0, turn_y = 0\<rparr>]\<rparr>)"
  (is "reachable ?s \<and> ?a \<and> ?b \<and> _")
proof -
  have h: ?a ?b by (simp_all add: server_eval)
  have p: "sock_playerId (sockets ?s 1) = Some 1" by (simp add: server_eval)
  from turn_accepted_and_rotates [OF reachable_started_demo h(1) h(2), of "''h''" 0 0] h p
  show ?thesis using reachable_started_demo by (simp add: PLAYERS_def)
qed

text \<open>
  C15: A socket whose join of a started session is refused (with
  \<open>max_players\<close> when its roster is full, \<open>game_already_started\<close>
  otherwise) still submits turns to it: \<open>onIOJoinSession\<close> stores the
  session on the socket before its checks, so the refused socket's next
  \<open>turn\<close> is accepted and logged with that socket's \<open>playerId\<close>
  (\<open>undefined\<close> for a new socket).  A full lobby that has not started
  answers that turn with \<open>Game not started!\<close> instead.
\<close>

theorem refused_join_can_submit_turns:
  assumes "reachable s" "sessions s i = Some a" "heap s a = Some obj" "started obj"
  shows "\<exists>e s1 s2 es obj'. onIOJoinSession s k i = (s1, [], Err e) \<and>
     e \<in> {Max_players, Game_already_started} \<and>
     onIOTurn s1 k d x y = (s2, es, Ack) \<and> heap s2 a = Some obj' \<and>
     turns obj' = turns obj @ [\<lparr>turn_playerId = sock_playerId (sockets s k), turn_direction = d,
                                turn_x = x, turn_y = y\<rparr>]"
  using assms by (auto simp: onIOJoinSession_def onIOTurn_def Let_def)

theorem refused_join_can_submit_turns_witness:
  "reachable (fst (serve server0 [(0, CreateSession [0, 1, 2, 3, 4]), (1, JoinSession ''ABCDE''), (0, Start)])) \<and> sessions (fst (serve server0 [(0, CreateSession [0, 1, 2, 3, 4]), (1, JoinSession ''ABCDE''), (0, Start)])) ''ABCDE'' = Some 0 \<and>
   heap (fst (serve server0 [(0, CreateSession [0, 1, 2, 3, 4]), (1, JoinSession ''ABCDE''), (0, Start)])) 0 = Some \<lparr>sessionId = ''ABCDE'', started = True, player = 0, players = take 2 PLAYERS, turns = []\<rparr> \<and>
   started \<lparr>sessionId = ''ABCDE'', started = True, player = 0, players = take 2 PLAYERS, turns = []\<rparr> \<and>
   (\<exists>e s1 s2 es obj'. onIOJoinSession (fst (serve server0 [(0, CreateSession [0, 1, 2, 3, 4]), (1, JoinSession ''ABCDE''), (0, Start)])) 2 ''ABCDE'' = (s1, [], Err e) \<and>
     onIOTurn s1 2 ''v'' 0 0 = (s2, es, Ack) \<and> heap s2 0 = Some obj' \<and>
     turns obj' = [\<lparr>turn_playerId = None, turn_direction = ''v'', turn_x = 0, turn_y = 0\<rparr>])"
  (is "?r \<and> ?a \<and> ?b \<and> ?c \<and> _")
proof -
  have h: ?a ?b ?c by (simp_all add: server_eval)
  have p: "sock_playerId (sockets (fst (serve server0 [(0, CreateSession [0, 1, 2, 3, 4]), (1, JoinSession ''ABCDE''), (0, Start)])) 2) = None" by (simp add: server_eval)
  from refused_join_can_submit_turns [OF reachable_started_demo h, of 2 "''v''" 0 0] h p
  show ?thesis using reachable_started_demo by auto
qed

text \<open>
  C16: In every reachable server, a \<open>createSession\<close> whose generated id is
  bound to a live session rebinds the id to a new lobby at a fresh address
  without a check.  The old session object stays in the heap, unchanged, and
  every other socket keeps its reference to it; the room of the id keeps the
  old game's sockets and gains the creator, and the new lobby's
  \<open>state\<close> message goes to that whole room.
\<close>

theorem session_id_collision_orphans_game:
  assumes "reachable s" "sessions s (createSessionId ds) = Some a"
    "onIOCreateSession s k ds = (s', es, r)"
  shows "sessions s' (createSessionId ds) = Some (next_addr s) \<and> next_addr s \<noteq> a \<and>
         heap s a \<noteq> None \<and> heap s' a = heap s a \<and>
         (\<forall>k'. k' \<noteq> k \<longrightarrow> sockets s' k' = sockets s k') \<and>
         set (rooms s' (createSessionId ds)) = insert k (set (rooms s (createSessionId ds))) \<and>
         es = [(rooms s' (createSessionId ds),
                \<lparr>sessionId = createSessionId ds, started = False, player = 0,
                 players = [player_entry 0], turns = []\<rparr>)]"
proof -
  have inv: "server_inv s" using assms(1) by (rule reachable_server_inv)
  then have live: "heap s a \<noteq> None" using assms(2) by (simp add: server_inv_def)
  with inv have "a < next_addr s" unfolding server_inv_def by (meson not_le)
  then show ?thesis
    using assms(3) live
    by (auto simp: onIOCreateSession_def set_rooms_join_room emit_state_def Let_def)
qed

theorem session_id_collision_orphans_game_witness:
  "reachable (fst (serve server0 [(0, CreateSession [0, 1, 2, 3, 4]), (1, JoinSession ''ABCDE''), (0, Start)])) \<and>
   sessions (fst (serve server0 [(0, CreateSession [0, 1, 2, 3, 4]), (1, JoinSession ''ABCDE''), (0, Start)]))
     (createSessionId [0, 1, 2, 3, 4]) = Some 0 \<and>
   sessions (fst (onIOCreateSession (fst (serve server0 [(0, CreateSession [0, 1, 2, 3, 4]), (1, JoinSession ''ABCDE''), (0, Start)])) 2 [0, 1, 2, 3, 4]))
     ''ABCDE'' = Some 1 \<and>
   set (rooms (fst (onIOCreateSession (fst (serve server0 [(0, CreateSession [0, 1, 2, 3, 4]), (1, JoinSession ''ABCDE''), (0, Start)])) 2 [0, 1, 2, 3, 4]))
     ''ABCDE'') = {0, 1, 2}"
  (is "?r \<and> ?b \<and> _")
proof -
  let ?s = "fst (serve server0 [(0, CreateSession [0, 1, 2, 3, 4]), (1, JoinSession ''ABCDE''), (0, Start)])"
  have b: ?b by (simp add: server_eval)
  have n: "next_addr ?s = 1" "set (rooms ?s ''ABCDE'') = {0, 1}" "createSessionId [0, 1, 2, 3, 4] = ''ABCDE''"
    by (simp_all add: server_eval)
  from session_id_collision_orphans_game [OF reachable_started_demo b, of 2]
  show ?thesis using reachable_started_demo b n by (cases "onIOCreateSession ?s 2 [0, 1, 2, 3, 4]") auto
qed

text \<open>
  C17: A refused request changes no session object, no id binding, no room
  membership and emits nothing; only the requesting socket's own fields may
  change (a refused join rebinds them).
\<close>

theorem refusals_change_no_session:
  assumes "handle s k req = (s', es, Err e)"
  shows "heap s' = heap s \<and> sessions s' = sessions s \<and> rooms s' = rooms s \<and> es = [] \<and>
         (\<forall>k'. k' \<noteq> k \<longrightarrow> sockets s' k' = sockets s k')"
  using assms
  by (cases req) (auto simp: onIOCreateSession_def onIOJoinSession_def onIOStart_def onIOTurn_def
      Let_def split: option.splits if_splits)

theorem refusals_change_no_session_witness:
  "handle (fst (serve server0 [(0, CreateSession [0, 1, 2, 3, 4]), (1, JoinSession ''ABCDE''), (0, Start)])) 2 (JoinSession ''ABCDE'') = (fst (handle (fst (serve server0 [(0, CreateSession [0, 1, 2, 3, 4]), (1, JoinSession ''ABCDE''), (0, Start)])) 2 (JoinSession ''ABCDE'')), [], Err Game_already_started) \<and>
   heap (fst (handle (fst (serve server0 [(0, CreateSession [0, 1, 2, 3, 4]), (1, JoinSession ''ABCDE''), (0, Start)])) 2 (JoinSession ''ABCDE''))) = heap (fst (serve server0 [(0, CreateSession [0, 1, 2, 3, 4]), (1, JoinSession ''ABCDE''), (0, Start)]))"
proof -
  have h: "handle (fst (serve server0 [(0, CreateSession [0, 1, 2, 3, 4]), (1, JoinSession ''ABCDE''), (0, Start)])) 2 (JoinSession ''ABCDE'') = (fst (handle (fst (serve server0 [(0, CreateSession [0, 1, 2, 3, 4]), (1, JoinSession ''ABCDE''), (0, Start)])) 2 (JoinSession ''ABCDE'')), [], Err Game_already_started)"
    by (simp add: server_eval)
  from h refusals_change_no_session [OF h] show ?thesis by blast
qed

text \<open>
  C18: Joining an open lobby below capacity appends the next identity of
  \<open>PLAYERS\<close>, answers with the new player's index, which is the roster
  size before the join, records it on the socket, puts the socket in the
  session's room and broadcasts the new snapshot to the room.
\<close>

theorem join_admits:
  assumes "reachable s" "sessions s i = Some a" "heap s a = Some obj" "\<not> started obj"
    "length (players obj) < length PLAYERS"
  shows "\<exists>s' obj'. onIOJoinSession s k i = (s', [(rooms s' i, obj')], Welcome i (length (players obj)) obj') \<and>
     heap s' a = Some obj' \<and> players obj' = take (Suc (length (players obj))) PLAYERS \<and>
     sock_playerId (sockets s' k) = Some (length (players obj)) \<and> k \<in> set (rooms s' i)"
proof -
  have ok: "session_ok obj" by (rule reachable_obj_ok [OF assms(1,3)])
  then have "players obj @ [player_entry (length (players obj))] = take (Suc (length (players obj))) PLAYERS"
    using assms(5) by (metis session_ok_def take_Suc_PLAYERS)
  with assms(2-5) show ?thesis
    by (auto simp: onIOJoinSession_def Let_def join_room_def emit_state_def)
qed

theorem join_admits_witness:
  "reachable (fst (serve server0 [(0, CreateSession [0, 1, 2, 3, 4])])) \<and> sessions (fst (serve server0 [(0, CreateSession [0, 1, 2, 3, 4])])) ''ABCDE'' = Some 0 \<and>
   heap (fst (serve server0 [(0, CreateSession [0, 1, 2, 3, 4])])) 0 = Some \<lparr>sessionId = ''ABCDE'', started = False, player = 0, players = take 1 PLAYERS, turns = []\<rparr> \<and>
   \<not> started \<lparr>sessionId = ''ABCDE'', started = False, player = 0, players = take 1 PLAYERS, turns = []\<rparr> \<and>
   length (players \<lparr>sessionId = ''ABCDE'', started = False, player = 0, players = take 1 PLAYERS, turns = []\<rparr>) < length PLAYERS \<and>
   (\<exists>s' obj'. onIOJoinSession (fst (serve server0 [(0, CreateSession [0, 1, 2, 3, 4])])) 1 ''ABCDE'' = (s', [(rooms s' ''ABCDE'', obj')], Welcome ''ABCDE'' 1 obj') \<and>
     players obj' = take 2 PLAYERS \<and> 1 \<in> set (rooms s' ''ABCDE''))"
  (is "?r \<and> ?a \<and> ?b \<and> ?c \<and> ?d \<and> _")
proof -
  have h: ?a ?b ?c ?d by (simp_all add: server_eval)
  from join_admits [OF reachable_created_demo h, of 1] h reachable_created_demo
  show ?thesis by (auto simp: numeral_2_eq_2)
qed

text \<open>
  C19: No request moves a session backwards: a session object stays at its
  address with its id, a started session stays started, and the roster and
  the turn log only grow by appending.
\<close>

theorem step_monotone:
  assumes "reachable s" "handle s k req = (s', es, r)" "heap s a = Some obj"
  shows "\<exists>obj'. heap s' a = Some obj' \<and> sessionId obj' = sessionId obj \<and>
    (started obj \<longrightarrow> started obj') \<and> prefix (players obj) (players obj') \<and> prefix (turns obj) (turns obj')"
proof -
  have inv: "server_inv s" by (rule reachable_server_inv [OF assms(1)])
  then have "a \<noteq> next_addr s" using assms(3) by (auto simp: server_inv_def)
  with assms(2,3) show ?thesis
    by (cases req) (auto simp: onIOCreateSession_def onIOJoinSession_def onIOStart_def onIOTurn_def
        Let_def split: option.splits if_splits)
qed

theorem step_monotone_witness:
  "reachable (fst (serve server0 [(0, CreateSession [0, 1, 2, 3, 4]), (1, JoinSession ''ABCDE''), (0, Start)])) \<and>
   handle (fst (serve server0 [(0, CreateSession [0, 1, 2, 3, 4]), (1, JoinSession ''ABCDE''), (0, Start)])) 1 (Turn ''h'' 0 0) = (fst (handle (fst (serve server0 [(0, CreateSession [0, 1, 2, 3, 4]), (1, JoinSession ''ABCDE''), (0, Start)])) 1 (Turn ''h'' 0 0)), fst (snd (handle (fst (serve server0 [(0, CreateSession [0, 1, 2, 3, 4]), (1, JoinSession ''ABCDE''), (0, Start)])) 1 (Turn ''h'' 0 0))), Ack) \<and>
   heap (fst (serve server0 [(0, CreateSession [0, 1, 2, 3, 4]), (1, JoinSession ''ABCDE''), (0, Start)])) 0 = Some \<lparr>sessionId = ''ABCDE'', started = True, player = 0, players = take 2 PLAYERS, turns = []\<rparr> \<and>
   (\<exists>obj'. heap (fst (handle (fst (serve server0 [(0, CreateSession [0, 1, 2, 3, 4]), (1, JoinSession ''ABCDE''), (0, Start)])) 1 (Turn ''h'' 0 0))) 0 = Some obj' \<and> started obj')"
  (is "?r \<and> ?a \<and> ?b \<and> _")
proof -
  have h: ?a ?b by (simp_all add: server_eval)
  from step_monotone [OF reachable_started_demo h] h reachable_started_demo
  show ?thesis by auto
qed

text \<open>
  C35: Logged identities are well typed: in every reachable server, each
  turn of each session names no player or an index of \<open>PLAYERS\<close>.  It need
  not be an index of that session's roster, nor the sender's identity in
  that session: the socket keeps the \<open>playerId\<close> of any session it joined
  before.
\<close>

theorem reachable_turn_ids_typed:
  "reachable s \<Longrightarrow> heap s a = Some obj \<Longrightarrow> t \<in> set (turns obj) \<Longrightarrow>
   pred_option (\<lambda>i. i < length PLAYERS) (turn_playerId t)"
  by (drule reachable_ids_ok) (auto simp: ids_ok_def list_all_iff)

theorem reachable_turn_ids_typed_witness:
  "reachable (fst (serve server0 [(0, CreateSession [0, 1, 2, 3, 4]), (1, JoinSession ''ABCDE''), (0, Start), (1, Turn ''v'' 0 0)])) \<and>
   heap (fst (serve server0 [(0, CreateSession [0, 1, 2, 3, 4]), (1, JoinSession ''ABCDE''), (0, Start), (1, Turn ''v'' 0 0)])) 0 =
     Some \<lparr>sessionId = ''ABCDE'', started = True, player = 1, players = take 2 PLAYERS,
           turns = [\<lparr>turn_playerId = Some 1, turn_direction = ''v'', turn_x = 0, turn_y = 0\<rparr>]\<rparr> \<and>
   \<lparr>turn_playerId = Some 1, turn_direction = ''v'', turn_x = 0, turn_y = 0\<rparr> \<in>
     set [\<lparr>turn_playerId = Some 1, turn_direction = ''v'', turn_x = 0, turn_y = 0\<rparr>] \<and>
   pred_option (\<lambda>i. i < length PLAYERS) (Some (1::nat))"
proof -
  have r: "reachable (fst (serve server0 [(0, CreateSession [0, 1, 2, 3, 4]), (1, JoinSession ''ABCDE''), (0, Start), (1, Turn ''v'' 0 0)]))"
    by (rule reachable_serve [OF reachable.init]) (simp add: proto_keys_def)
  have h: "heap (fst (serve server0 [(0, CreateSession [0, 1, 2, 3, 4]), (1, JoinSession ''ABCDE''), (0, Start), (1, Turn ''v'' 0 0)])) 0 =
     Some \<lparr>sessionId = ''ABCDE'', started = True, player = 1, players = take 2 PLAYERS,
           turns = [\<lparr>turn_playerId = Some 1, turn_direction = ''v'', turn_x = 0, turn_y = 0\<rparr>]\<rparr>"
    by (simp add: server_eval)
  show ?thesis
    using reachable_turn_ids_typed [OF r h, of "\<lparr>turn_playerId = Some 1, turn_direction = ''v'', turn_x = 0, turn_y = 0\<rparr>"] r h
    by simp
qed

end
