(* ===== verification/Sync.thy ===== *)
theory Sync
  imports ClientGame Server
begin

text \<open>
  The composition of the server and the browsers: the page script of
  \<open>src/public/js/app.js\<close> (class \<open>Lobby\<close> and the \<open>load\<close> handler with its
  \<open>state\<close> handler and the callbacks of \<open>joinSession\<close> and
  \<open>createSession\<close>), and a system state pairing the server with one page per
  socket.  A request is handled by the server; its \<open>state\<close> messages are
  then delivered, in emission order, to every recipient, and the reply
  reaches the requester last, which is the order in which socket.io writes
  them on a connection.  Delivery is fire-and-forget: a socket outside the
  room receives nothing.
\<close>

record lobby =
  l_players :: "player_info list"
  l_start_disabled :: bool
  l_sessionId :: "string option"
  l_playerId :: "pid option"

record page =
  c_game :: game
  c_lobby :: lobby
  c_lobby_visible :: bool
  c_game_visible :: bool
  c_location :: string

subsection \<open>The page script\<close>

definition lobby0 :: lobby where
  "lobby0 = \<lparr>l_players = [], l_start_disabled = False, l_sessionId = None, l_playerId = None\<rparr>"

text \<open>\<open>Lobby.setState\<close>: the roster, and the start button disabled below two players.\<close>

definition lobby_setState :: "lobby \<Rightarrow> session \<Rightarrow> lobby" where
  "lobby_setState l s = l\<lparr>l_players := players s, l_start_disabled := length (players s) < 2\<rparr>"

text \<open>
  The page as loaded at a path: one \<open>Game\<close> with its defaults (2 by 2, no
  players) and one \<open>Lobby\<close>; the visibility of the two sections is what the
  page's markup sets, here both hidden.
\<close>

definition page0 :: "string \<Rightarrow> page" where
  "page0 path = \<lparr>c_game = new_game 2 2, c_lobby = lobby0, c_lobby_visible = False,
                 c_game_visible = False, c_location = path\<rparr>"

text \<open>
  \<open>socket.on('state', ...)\<close>: the lobby, then the game; the visibility
  toggles run only if \<open>game.setState\<close> returned, since a throw leaves the
  handler.
\<close>

definition on_state :: "page \<Rightarrow> session \<Rightarrow> unit js \<times> page" where
  "on_state c s =
    (let c1 = c\<lparr>c_lobby := lobby_setState (c_lobby c) s\<rparr>
     in case setState (c_game c1) s of
          (Inl e, g) \<Rightarrow> (Inl e, c1\<lparr>c_game := g\<rparr>)
        | (Inr _, g) \<Rightarrow> (Inr (), c1\<lparr>c_game := g, c_lobby_visible := \<not> started s,
                                   c_game_visible := started s\<rparr>))"

text \<open>
  The success branch of the \<open>joinSession\<close> and \<open>createSession\<close> callbacks:
  identity and snapshot to the lobby and the game (\<open>createSession\<close> also
  pushes \<open>/<sessionId>\<close> to the history).
\<close>

definition on_welcome :: "page \<Rightarrow> string \<Rightarrow> pid \<Rightarrow> session \<Rightarrow> unit js \<times> page" where
  "on_welcome c i n s =
    (let c1 = c\<lparr>c_lobby := lobby_setState ((c_lobby c)\<lparr>l_sessionId := Some i, l_playerId := Some n\<rparr>) s,
                c_game := setPlayerId (c_game c) n\<rparr>
     in case setState (c_game c1) s of (r, g) \<Rightarrow> (r, c1\<lparr>c_game := g\<rparr>))"

text \<open>
  A reply reaching the page.  The three known refusals of \<open>joinSession\<close>
  send the page to \<open>/\<close>; every other error is only an alert.
\<close>

fun on_reply :: "page \<Rightarrow> request \<Rightarrow> reply \<Rightarrow> page" where
  "on_reply c (CreateSession _) (Welcome i n s) = (snd (on_welcome c i n s))\<lparr>c_location := ''/'' @ i\<rparr>"
| "on_reply c (JoinSession _) (Welcome i n s) = snd (on_welcome c i n s)"
| "on_reply c (JoinSession _) (Err e) =
     (if e \<in> {Session_not_found, Game_already_started, Max_players} then c\<lparr>c_location := ''/''\<rparr> else c)"
| "on_reply c _ _ = c"

text \<open>The first request of a page: join when the path names a five-character id.\<close>

definition strip_slash :: "string \<Rightarrow> string" where
  "strip_slash p = (case p of CHR ''/'' # q \<Rightarrow> q | _ \<Rightarrow> p)"

definition initial_request :: "string \<Rightarrow> nat list \<Rightarrow> request" where
  "initial_request path draws =
    (let i = strip_slash path in if length i = 5 then JoinSession i else CreateSession draws)"

text \<open>
  A click on a line.  The \<open>Line\<close> constructor stores its \<open>onClick\<close> option
  as an own property, which shadows the guarded prototype method
  \<open>Line.onClick\<close>; the click listener therefore always runs the option the
  \<open>Game\<close> constructor passes, \<open>() => this.onTurn({ direction, x, y })\<close>,
  and the page's \<open>onTurn\<close> emits \<open>turn\<close>: a click sends a turn whatever
  the line holds and whoever's turn it is.
\<close>

fun line_click :: "line \<Rightarrow> request" where
  "line_click (d, x, y) = Turn (dir_str d) (int x) (int y)"

subsection \<open>The system\<close>

record system =
  sys_server :: server
  sys_pages :: "sid \<Rightarrow> page"

fun deliver_to :: "(sid \<Rightarrow> page) \<Rightarrow> sid list \<Rightarrow> session \<Rightarrow> (sid \<Rightarrow> page)" where
  "deliver_to cs [] s = cs"
| "deliver_to cs (k # ks) s = deliver_to (cs(k := snd (on_state (cs k) s))) ks s"

fun deliver :: "(sid \<Rightarrow> page) \<Rightarrow> emit list \<Rightarrow> (sid \<Rightarrow> page)" where
  "deliver cs [] = cs"
| "deliver cs ((ks, s) # es) = deliver (deliver_to cs ks s) es"

definition sys_step :: "system \<Rightarrow> sid \<Rightarrow> request \<Rightarrow> system" where
  "sys_step y k rq =
    (case handle (sys_server y) k rq of
       (s', es, r) \<Rightarrow>
         (let cs = deliver (sys_pages y) es
          in \<lparr>sys_server = s', sys_pages = cs(k := on_reply (cs k) rq r)\<rparr>))"

fun sys_run :: "system \<Rightarrow> (sid \<times> request) list \<Rightarrow> system" where
  "sys_run y [] = y"
| "sys_run y ((k, rq) # rqs) =
    (if served (snd (snd (handle (sys_server y) k rq))) then sys_run (sys_step y k rq) rqs
     else sys_step y k rq)"

definition system0 :: system where
  "system0 = \<lparr>sys_server = server0, sys_pages = (\<lambda>_. page0 ''/'')\<rparr>"

subsection \<open>Lemmas\<close>

lemma on_state_game_playerId:
  "c_game c2 = (c_game c1)\<lparr>g_playerId := i\<rparr> \<Longrightarrow>
   c_game (snd (on_state c2 s)) = (c_game (snd (on_state c1 s)))\<lparr>g_playerId := i\<rparr>"
  using setState_playerId [where g = "c_game c1" and i = i and s = s]
  by (auto simp: on_state_def Let_def split: prod.splits sum.splits)

lemma deliver_to_distinct:
  "distinct ks \<Longrightarrow> deliver_to cs ks s k = (if k \<in> set ks then snd (on_state (cs k) s) else cs k)"
  by (induction ks arbitrary: cs) auto

lemma replay_drawn_line:
  assumes "replay g ts = (Inr (), g')" "truthy (g_lines g' l)" "is_line (g_width g') (g_height g') l"
  shows "replay g (ts @ [\<lparr>turn_playerId = p, turn_direction = dir_str (fst l),
                         turn_x = int (fst (snd l)), turn_y = int (snd (snd l))\<rparr>]) = (Inr (), g')"
proof -
  obtain d x y where l: "l = (d, x, y)" by (cases l)
  show ?thesis
    using assms by (simp add: replay_append l lookup_line_dir_str setPlayer_def)
qed

text \<open>
  A replica that replayed a log replays the log extended by a click on one
  of its lines exactly as \<open>setPlayer\<close> draws that line for the clicker.
\<close>

lemma replay_click:
  assumes "replay g ts = (Inr (), g1)" "is_line (g_width g1) (g_height g1) l"
  shows "replay g (ts @ [\<lparr>turn_playerId = p, turn_direction = dir_str (fst l),
                         turn_x = int (fst (snd l)), turn_y = int (snd (snd l))\<rparr>]) = setPlayer g1 l p"
proof -
  obtain d x y where l: "l = (d, x, y)" by (cases l)
  show ?thesis
    using assms by (simp add: replay_append l lookup_line_dir_str split: prod.split sum.split)
qed

lemma replay_players: "g_players (snd (replay g ts)) = g_players g"
  by (rule replay_induct_state [where P = "\<lambda>g'. g_players g' = g_players g"]) (simp_all add: setPlayer_frame)

text \<open>Evaluation of the system on concrete request sequences.\<close>

lemmas sync_eval = sys_step_def system0_def page0_def on_state_def on_welcome_def lobby_setState_def
  lobby0_def setPlayerId_def turn_enabled_def server_eval replay_eval

subsection \<open>Properties\<close>

text \<open>
  C23: The bonus turn splits server and replicas.  In every reachable
  server, when a socket of a started session with two or more players
  clicks a free line that closes a box on a replica that agreed with the
  server on whose turn it is, the server accepts the turn and advances its
  counter, while the replica replaying the new log keeps the turn where it
  was.  The \<open>currentPlayerIndex\<close> broadcast with the new snapshot then
  disagrees with every such replica; the specification (4.2, 8) keeps the
  turn with the closer on both.  The end-to-end scenario of the
  specification is an instance.
\<close>

theorem end_to_end_bonus_turn:
  assumes "reachable s" "sock_session (sockets s k) = Some a" "heap s a = Some obj" "started obj"
    "2 \<le> length (players obj)" "g_players g = players obj" "replay g (turns obj) = (Inr (), g1)"
    "g_player g1 = player obj" "is_line (g_width g1) (g_height g1) l" "\<not> truthy (g_lines g1 l)"
    "closes g1 l (sock_playerId (sockets s k))" "color_ok g1 (sock_playerId (sockets s k))"
    "\<not> all_boxes_taken (snd (setPlayer g1 l (sock_playerId (sockets s k))))"
  shows "\<exists>s' es obj'. handle s k (line_click l) = (s', es, Ack) \<and> heap s' a = Some obj' \<and>
     player obj' = advance (player obj) (length (players obj)) \<and>
     replay g (turns obj') = (Inr (), snd (setPlayer g1 l (sock_playerId (sockets s k)))) \<and>
     g_player (snd (setPlayer g1 l (sock_playerId (sockets s k)))) = player obj \<and>
     player obj' \<noteq> player obj"
proof -
  obtain d x y where l: "l = (d, x, y)" by (cases l)
  let ?p = "sock_playerId (sockets s k)"
  have ok: "session_ok obj" using assms(1,3) by (rule reachable_obj_ok)
  have "g_players g1 = players obj"
    using replay_players [of g "turns obj"] assms(6,7) by simp
  then have v: "valid_index g1" using ok assms(8) by (simp add: valid_index_def session_ok_def)
  have c: "fst (setPlayer g1 l ?p) = Inr () \<and> g_player (snd (setPlayer g1 l ?p)) = g_player g1"
    using setPlayer_closing [OF assms(10,11,12) v assms(13)] .
  have r: "replay g (turns obj @ [\<lparr>turn_playerId = ?p, turn_direction = dir_str d, turn_x = int x, turn_y = int y\<rparr>]) =
           (Inr (), snd (setPlayer g1 l ?p))"
    using replay_click [OF assms(7,9), of ?p] c by (simp add: l prod_eq_iff)
  have "advance (player obj) (length (players obj)) \<noteq> player obj"
    using ok assms(5) by (simp add: session_ok_def advance_ne)
  then show ?thesis
    using r c assms(8) by (simp add: l onIOTurn_started [OF assms(2,3,4)])
qed

theorem end_to_end_bonus_turn_witness:
  "reachable (fst (serve server0 [(0, CreateSession [0, 1, 2, 3, 4]), (1, JoinSession ''ABCDE''), (0, Start), (1, Turn ''v'' 0 0), (1, Turn ''h'' 0 0), (1, Turn ''v'' 1 0)])) \<and> sock_session (sockets (fst (serve server0 [(0, CreateSession [0, 1, 2, 3, 4]), (1, JoinSession ''ABCDE''), (0, Start), (1, Turn ''v'' 0 0), (1, Turn ''h'' 0 0), (1, Turn ''v'' 1 0)])) 1) = Some 0 \<and> heap (fst (serve server0 [(0, CreateSession [0, 1, 2, 3, 4]), (1, JoinSession ''ABCDE''), (0, Start), (1, Turn ''v'' 0 0), (1, Turn ''h'' 0 0), (1, Turn ''v'' 1 0)])) 0 = Some (\<lparr>sessionId = ''ABCDE'', started = True, player = 1, players = take 2 PLAYERS, turns = [\<lparr>turn_playerId = Some 1, turn_direction = ''v'', turn_x = 0, turn_y = 0\<rparr>, \<lparr>turn_playerId = Some 1, turn_direction = ''h'', turn_x = 0, turn_y = 0\<rparr>, \<lparr>turn_playerId = Some 1, turn_direction = ''v'', turn_x = 1, turn_y = 0\<rparr>]\<rparr>) \<and>
   started (\<lparr>sessionId = ''ABCDE'', started = True, player = 1, players = take 2 PLAYERS, turns = [\<lparr>turn_playerId = Some 1, turn_direction = ''v'', turn_x = 0, turn_y = 0\<rparr>, \<lparr>turn_playerId = Some 1, turn_direction = ''h'', turn_x = 0, turn_y = 0\<rparr>, \<lparr>turn_playerId = Some 1, turn_direction = ''v'', turn_x = 1, turn_y = 0\<rparr>]\<rparr>) \<and> 2 \<le> length (players (\<lparr>sessionId = ''ABCDE'', started = True, player = 1, players = take 2 PLAYERS, turns = [\<lparr>turn_playerId = Some 1, turn_direction = ''v'', turn_x = 0, turn_y = 0\<rparr>, \<lparr>turn_playerId = Some 1, turn_direction = ''h'', turn_x = 0, turn_y = 0\<rparr>, \<lparr>turn_playerId = Some 1, turn_direction = ''v'', turn_x = 1, turn_y = 0\<rparr>]\<rparr>)) \<and> g_players ((new_game 2 2)\<lparr>g_players := take 2 PLAYERS\<rparr>) = players (\<lparr>sessionId = ''ABCDE'', started = True, player = 1, players = take 2 PLAYERS, turns = [\<lparr>turn_playerId = Some 1, turn_direction = ''v'', turn_x = 0, turn_y = 0\<rparr>, \<lparr>turn_playerId = Some 1, turn_direction = ''h'', turn_x = 0, turn_y = 0\<rparr>, \<lparr>turn_playerId = Some 1, turn_direction = ''v'', turn_x = 1, turn_y = 0\<rparr>]\<rparr>) \<and>
   replay ((new_game 2 2)\<lparr>g_players := take 2 PLAYERS\<rparr>) (turns (\<lparr>sessionId = ''ABCDE'', started = True, player = 1, players = take 2 PLAYERS, turns = [\<lparr>turn_playerId = Some 1, turn_direction = ''v'', turn_x = 0, turn_y = 0\<rparr>, \<lparr>turn_playerId = Some 1, turn_direction = ''h'', turn_x = 0, turn_y = 0\<rparr>, \<lparr>turn_playerId = Some 1, turn_direction = ''v'', turn_x = 1, turn_y = 0\<rparr>]\<rparr>)) = (Inr (), (snd (replay ((new_game 2 2)\<lparr>g_players := take 2 PLAYERS\<rparr>) [\<lparr>turn_playerId = Some 1, turn_direction = ''v'', turn_x = 0, turn_y = 0\<rparr>, \<lparr>turn_playerId = Some 1, turn_direction = ''h'', turn_x = 0, turn_y = 0\<rparr>, \<lparr>turn_playerId = Some 1, turn_direction = ''v'', turn_x = 1, turn_y = 0\<rparr>]))) \<and> g_player (snd (replay ((new_game 2 2)\<lparr>g_players := take 2 PLAYERS\<rparr>) [\<lparr>turn_playerId = Some 1, turn_direction = ''v'', turn_x = 0, turn_y = 0\<rparr>, \<lparr>turn_playerId = Some 1, turn_direction = ''h'', turn_x = 0, turn_y = 0\<rparr>, \<lparr>turn_playerId = Some 1, turn_direction = ''v'', turn_x = 1, turn_y = 0\<rparr>])) = player (\<lparr>sessionId = ''ABCDE'', started = True, player = 1, players = take 2 PLAYERS, turns = [\<lparr>turn_playerId = Some 1, turn_direction = ''v'', turn_x = 0, turn_y = 0\<rparr>, \<lparr>turn_playerId = Some 1, turn_direction = ''h'', turn_x = 0, turn_y = 0\<rparr>, \<lparr>turn_playerId = Some 1, turn_direction = ''v'', turn_x = 1, turn_y = 0\<rparr>]\<rparr>) \<and>
   is_line (g_width (snd (replay ((new_game 2 2)\<lparr>g_players := take 2 PLAYERS\<rparr>) [\<lparr>turn_playerId = Some 1, turn_direction = ''v'', turn_x = 0, turn_y = 0\<rparr>, \<lparr>turn_playerId = Some 1, turn_direction = ''h'', turn_x = 0, turn_y = 0\<rparr>, \<lparr>turn_playerId = Some 1, turn_direction = ''v'', turn_x = 1, turn_y = 0\<rparr>]))) (g_height (snd (replay ((new_game 2 2)\<lparr>g_players := take 2 PLAYERS\<rparr>) [\<lparr>turn_playerId = Some 1, turn_direction = ''v'', turn_x = 0, turn_y = 0\<rparr>, \<lparr>turn_playerId = Some 1, turn_direction = ''h'', turn_x = 0, turn_y = 0\<rparr>, \<lparr>turn_playerId = Some 1, turn_direction = ''v'', turn_x = 1, turn_y = 0\<rparr>]))) (H, 0, 1) \<and> \<not> truthy (g_lines (snd (replay ((new_game 2 2)\<lparr>g_players := take 2 PLAYERS\<rparr>) [\<lparr>turn_playerId = Some 1, turn_direction = ''v'', turn_x = 0, turn_y = 0\<rparr>, \<lparr>turn_playerId = Some 1, turn_direction = ''h'', turn_x = 0, turn_y = 0\<rparr>, \<lparr>turn_playerId = Some 1, turn_direction = ''v'', turn_x = 1, turn_y = 0\<rparr>])) (H, 0, 1)) \<and>
   closes (snd (replay ((new_game 2 2)\<lparr>g_players := take 2 PLAYERS\<rparr>) [\<lparr>turn_playerId = Some 1, turn_direction = ''v'', turn_x = 0, turn_y = 0\<rparr>, \<lparr>turn_playerId = Some 1, turn_direction = ''h'', turn_x = 0, turn_y = 0\<rparr>, \<lparr>turn_playerId = Some 1, turn_direction = ''v'', turn_x = 1, turn_y = 0\<rparr>])) (H, 0, 1) (sock_playerId (sockets (fst (serve server0 [(0, CreateSession [0, 1, 2, 3, 4]), (1, JoinSession ''ABCDE''), (0, Start), (1, Turn ''v'' 0 0), (1, Turn ''h'' 0 0), (1, Turn ''v'' 1 0)])) 1)) \<and> color_ok (snd (replay ((new_game 2 2)\<lparr>g_players := take 2 PLAYERS\<rparr>) [\<lparr>turn_playerId = Some 1, turn_direction = ''v'', turn_x = 0, turn_y = 0\<rparr>, \<lparr>turn_playerId = Some 1, turn_direction = ''h'', turn_x = 0, turn_y = 0\<rparr>, \<lparr>turn_playerId = Some 1, turn_direction = ''v'', turn_x = 1, turn_y = 0\<rparr>])) (sock_playerId (sockets (fst (serve server0 [(0, CreateSession [0, 1, 2, 3, 4]), (1, JoinSession ''ABCDE''), (0, Start), (1, Turn ''v'' 0 0), (1, Turn ''h'' 0 0), (1, Turn ''v'' 1 0)])) 1)) \<and>
   \<not> all_boxes_taken (snd (setPlayer (snd (replay ((new_game 2 2)\<lparr>g_players := take 2 PLAYERS\<rparr>) [\<lparr>turn_playerId = Some 1, turn_direction = ''v'', turn_x = 0, turn_y = 0\<rparr>, \<lparr>turn_playerId = Some 1, turn_direction = ''h'', turn_x = 0, turn_y = 0\<rparr>, \<lparr>turn_playerId = Some 1, turn_direction = ''v'', turn_x = 1, turn_y = 0\<rparr>])) (H, 0, 1) (sock_playerId (sockets (fst (serve server0 [(0, CreateSession [0, 1, 2, 3, 4]), (1, JoinSession ''ABCDE''), (0, Start), (1, Turn ''v'' 0 0), (1, Turn ''h'' 0 0), (1, Turn ''v'' 1 0)])) 1)))) \<and>
   (\<exists>s' es obj'. handle (fst (serve server0 [(0, CreateSession [0, 1, 2, 3, 4]), (1, JoinSession ''ABCDE''), (0, Start), (1, Turn ''v'' 0 0), (1, Turn ''h'' 0 0), (1, Turn ''v'' 1 0)])) 1 (line_click (H, 0, 1)) = (s', es, Ack) \<and> heap s' 0 = Some obj' \<and>
      player obj' = 0 \<and> g_player (snd (setPlayer (snd (replay ((new_game 2 2)\<lparr>g_players := take 2 PLAYERS\<rparr>) [\<lparr>turn_playerId = Some 1, turn_direction = ''v'', turn_x = 0, turn_y = 0\<rparr>, \<lparr>turn_playerId = Some 1, turn_direction = ''h'', turn_x = 0, turn_y = 0\<rparr>, \<lparr>turn_playerId = Some 1, turn_direction = ''v'', turn_x = 1, turn_y = 0\<rparr>])) (H, 0, 1) (Some 1))) = 1)"
  (is "?h1 \<and> ?h2 \<and> ?h3 \<and> ?h4 \<and> ?h5 \<and> ?h6 \<and> ?h7 \<and> ?h8 \<and> ?h9 \<and> ?h10 \<and> ?h11 \<and> ?h12 \<and> ?h13 \<and> _")
proof -
  have r: ?h1 by (rule reachable_serve [OF reachable.init]) (simp add: proto_keys_def)
  have h: ?h2 ?h3 ?h4 ?h5 ?h6 by (simp_all add: server_eval)
  have g: ?h7 ?h8 ?h9 ?h10 by (simp_all add: replay_eval)
  have p: "sock_playerId (sockets (fst (serve server0 [(0, CreateSession [0, 1, 2, 3, 4]), (1, JoinSession ''ABCDE''), (0, Start), (1, Turn ''v'' 0 0), (1, Turn ''h'' 0 0), (1, Turn ''v'' 1 0)])) 1) = Some 1" by (simp add: server_eval)
  have c: ?h11 ?h12 ?h13 unfolding p by (simp_all add: closes_def replay_eval build_listeners_def register_box_def addListener_def box_lines_def)
  have a: "advance 1 (length (players (\<lparr>sessionId = ''ABCDE'', started = True, player = 1, players = take 2 PLAYERS, turns = [\<lparr>turn_playerId = Some 1, turn_direction = ''v'', turn_x = 0, turn_y = 0\<rparr>, \<lparr>turn_playerId = Some 1, turn_direction = ''h'', turn_x = 0, turn_y = 0\<rparr>, \<lparr>turn_playerId = Some 1, turn_direction = ''v'', turn_x = 1, turn_y = 0\<rparr>]\<rparr>))) = 0" by (simp add: server_eval)
  show ?thesis
    using end_to_end_bonus_turn [OF r h g c] r h g c a p by auto
qed

text \<open>
  C24: Replicas of one room converge: two pages whose games differ only in
  their own identity, and which receive the same \<open>state\<close> messages, hold
  the same board, the same roster and the same current player afterwards.
\<close>

theorem replicas_converge:
  assumes "list_all (\<lambda>(ks, s). distinct ks \<and> k1 \<in> set ks \<and> k2 \<in> set ks) es"
    "c_game (cs k2) = (c_game (cs k1))\<lparr>g_playerId := i\<rparr>"
  shows "c_game (deliver cs es k2) = (c_game (deliver cs es k1))\<lparr>g_playerId := i\<rparr>"
  using assms
proof (induction es arbitrary: cs)
  case Nil
  then show ?case by simp
next
  case (Cons e es)
  obtain ks s where e: "e = (ks, s)" by (cases e)
  with Cons.prems have "c_game (deliver_to cs ks s k2) = (c_game (deliver_to cs ks s k1))\<lparr>g_playerId := i\<rparr>"
    by (simp add: deliver_to_distinct on_state_game_playerId)
  with Cons.IH Cons.prems e show ?case by simp
qed

theorem replicas_converge_witness:
  "list_all (\<lambda>(ks, s). distinct ks \<and> (0::sid) \<in> set ks \<and> 1 \<in> set ks) [([0::sid, 1], \<lparr>sessionId = ''ABCDE'', started = True, player = 1, players = take 2 PLAYERS, turns = [\<lparr>turn_playerId = Some 0, turn_direction = ''v'', turn_x = 2, turn_y = 1\<rparr>]\<rparr>)] \<and>
   c_game (((\<lambda>_. page0 ''/'')((0::sid) := (page0 ''/'')\<lparr>c_game := setPlayerId (new_game 2 2) 0\<rparr>, 1 := (page0 ''/'')\<lparr>c_game := setPlayerId (new_game 2 2) 1\<rparr>)) 1) = (c_game (((\<lambda>_. page0 ''/'')((0::sid) := (page0 ''/'')\<lparr>c_game := setPlayerId (new_game 2 2) 0\<rparr>, 1 := (page0 ''/'')\<lparr>c_game := setPlayerId (new_game 2 2) 1\<rparr>)) 0))\<lparr>g_playerId := Some 1\<rparr> \<and>
   c_game (deliver ((\<lambda>_. page0 ''/'')((0::sid) := (page0 ''/'')\<lparr>c_game := setPlayerId (new_game 2 2) 0\<rparr>, 1 := (page0 ''/'')\<lparr>c_game := setPlayerId (new_game 2 2) 1\<rparr>)) [([0::sid, 1], \<lparr>sessionId = ''ABCDE'', started = True, player = 1, players = take 2 PLAYERS, turns = [\<lparr>turn_playerId = Some 0, turn_direction = ''v'', turn_x = 2, turn_y = 1\<rparr>]\<rparr>)] 1) = (c_game (deliver ((\<lambda>_. page0 ''/'')((0::sid) := (page0 ''/'')\<lparr>c_game := setPlayerId (new_game 2 2) 0\<rparr>, 1 := (page0 ''/'')\<lparr>c_game := setPlayerId (new_game 2 2) 1\<rparr>)) [([0::sid, 1], \<lparr>sessionId = ''ABCDE'', started = True, player = 1, players = take 2 PLAYERS, turns = [\<lparr>turn_playerId = Some 0, turn_direction = ''v'', turn_x = 2, turn_y = 1\<rparr>]\<rparr>)] 0))\<lparr>g_playerId := Some 1\<rparr>"
  (is "?a \<and> ?b \<and> _")
proof -
  have h: ?a ?b by (simp_all add: setPlayerId_def)
  from h replicas_converge [OF h] show ?thesis by blast
qed

text \<open>
  C25: A refused joiner freezes every replica of the room.  For any started
  session, a socket that holds no identity and is refused by
  \<open>joinSession\<close> has its next turn on a free line logged with an undefined
  player.  Every log that extends the new one stops replaying at that turn,
  with a \<open>TypeError\<close>, on every replica whose replay of the previous log
  returned, so no later move of the game is ever shown.
\<close>

theorem refused_joiner_freezes_replicas:
  assumes "sessions s i = Some a" "heap s a = Some obj" "started obj" "sock_playerId (sockets s k) = None"
    "wf_game g" "replay g (turns obj) = (Inr (), g1)" "lookup_line g1 d x y = Some l" "\<not> truthy (g_lines g1 l)"
  shows "\<exists>e s1 s2 es obj'. onIOJoinSession s k i = (s1, [], Err e) \<and> onIOTurn s1 k d x y = (s2, es, Ack) \<and>
     heap s2 a = Some obj' \<and> (\<forall>post. replay g (turns obj' @ post) = (Inl TypeError, line_set g1 l None))"
proof -
  obtain e where j: "onIOJoinSession s k i =
    (s\<lparr>sockets := (sockets s)(k := (sockets s k)\<lparr>sock_sessionId := Some i, sock_session := Some a\<rparr>)\<rparr>, [], Err e)"
    using onIOJoinSession_started [OF assms(1,2,3)] by blast
  let ?s1 = "s\<lparr>sockets := (sockets s)(k := (sockets s k)\<lparr>sock_sessionId := Some i, sock_session := Some a\<rparr>)\<rparr>"
  have w1: "wf_game g1" using replay_frame [of g "turns obj"] assms(5,6) by (simp add: wf_game_def)
  have "replay g ((turns obj @ [\<lparr>turn_playerId = None, turn_direction = d, turn_x = x, turn_y = y\<rparr>]) @ post) =
        (Inl TypeError, line_set g1 l None)" for post
    using assms(6,7,8) setPlayer_undefined [OF w1 assms(8)] by (simp add: replay_append)
  then show ?thesis
    using j assms(2,3,4) onIOTurn_started [of ?s1 k a obj d x y] by simp
qed

theorem refused_joiner_freezes_replicas_witness:
  "sessions (fst (serve server0 [(0, CreateSession [0, 1, 2, 3, 4]), (1, JoinSession ''ABCDE''), (0, Start)])) ''ABCDE'' = Some 0 \<and> heap (fst (serve server0 [(0, CreateSession [0, 1, 2, 3, 4]), (1, JoinSession ''ABCDE''), (0, Start)])) 0 = Some (\<lparr>sessionId = ''ABCDE'', started = True, player = 0, players = take 2 PLAYERS, turns = []\<rparr>) \<and> started (\<lparr>sessionId = ''ABCDE'', started = True, player = 0, players = take 2 PLAYERS, turns = []\<rparr>) \<and>
   sock_playerId (sockets (fst (serve server0 [(0, CreateSession [0, 1, 2, 3, 4]), (1, JoinSession ''ABCDE''), (0, Start)])) 2) = None \<and> wf_game ((new_game 2 2)\<lparr>g_players := take 2 PLAYERS\<rparr>) \<and> replay ((new_game 2 2)\<lparr>g_players := take 2 PLAYERS\<rparr>) (turns (\<lparr>sessionId = ''ABCDE'', started = True, player = 0, players = take 2 PLAYERS, turns = []\<rparr>)) = (Inr (), ((new_game 2 2)\<lparr>g_players := take 2 PLAYERS\<rparr>)) \<and>
   lookup_line ((new_game 2 2)\<lparr>g_players := take 2 PLAYERS\<rparr>) ''v'' 0 0 = Some (V, 0, 0) \<and> \<not> truthy (g_lines ((new_game 2 2)\<lparr>g_players := take 2 PLAYERS\<rparr>) (V, 0, 0)) \<and>
   (\<exists>e s1 s2 es obj'. onIOJoinSession (fst (serve server0 [(0, CreateSession [0, 1, 2, 3, 4]), (1, JoinSession ''ABCDE''), (0, Start)])) 2 ''ABCDE'' = (s1, [], Err e) \<and> onIOTurn s1 2 ''v'' 0 0 = (s2, es, Ack) \<and>
      heap s2 0 = Some obj' \<and> fst (replay ((new_game 2 2)\<lparr>g_players := take 2 PLAYERS\<rparr>) (turns obj' @ [\<lparr>turn_playerId = Some 1, turn_direction = ''h'', turn_x = 0, turn_y = 0\<rparr>])) = Inl TypeError)"
  (is "?h1 \<and> ?h2 \<and> ?h3 \<and> ?h4 \<and> ?h5 \<and> ?h6 \<and> ?h7 \<and> ?h8 \<and> _")
proof -
  have h: ?h1 ?h2 ?h3 ?h4 by (simp_all add: server_eval)
  have g: ?h5 ?h6 ?h7 ?h8 by (simp_all add: replay_eval wf_game_def)
  from refused_joiner_freezes_replicas [OF h g] show ?thesis using h g by fastforce
qed

text \<open>
  C26: The lobby's start button and the server agree: for the session a
  socket holds, the button is disabled exactly when \<open>start\<close> would be
  refused with \<open>Waiting for players...\<close>, and \<open>start\<close> is accepted otherwise.
\<close>

theorem start_button_agrees:
  assumes "sock_session (sockets s k) = Some a" "heap s a = Some obj"
  shows "snd (snd (onIOStart s k)) =
           (if l_start_disabled (lobby_setState l obj) then Err Waiting_for_players else Ack)"
  using assms by (simp add: onIOStart_def lobby_setState_def Let_def)

theorem start_button_agrees_witness:
  "sock_session (sockets (fst (serve server0 [(0, CreateSession [0, 1, 2, 3, 4])])) 0) = Some 0 \<and>
   heap (fst (serve server0 [(0, CreateSession [0, 1, 2, 3, 4])])) 0 =
     Some \<lparr>sessionId = ''ABCDE'', started = False, player = 0, players = take 1 PLAYERS, turns = []\<rparr> \<and>
   snd (snd (onIOStart (fst (serve server0 [(0, CreateSession [0, 1, 2, 3, 4])])) 0)) = Err Waiting_for_players"
  (is "?a \<and> ?b \<and> _")
proof -
  have h: ?a ?b by (simp_all add: server_eval)
  from h start_button_agrees [OF h, of lobby0] show ?thesis
    by (simp add: lobby_setState_def lobby0_def)
qed

text \<open>
  C36: A click on a drawn line is a turn the server accepts and the replicas
  ignore.  Whatever line a replica shows drawn by a truthy player after
  replaying the log, the click emits a turn for it; the server of a started
  session logs it and advances its counter.  From the same starting
  replica, whether fresh or live, replaying the longer log ends exactly
  where replaying the log without that turn ends: the extra turn has no
  effect there, yet it moved the server's counter.  The specification
  rejects such a turn with \<open>LineAlreadyTaken\<close>.
\<close>

theorem drawn_line_click_accepted_and_ignored:
  assumes "sock_session (sockets s k) = Some a" "heap s a = Some obj" "started obj"
    "replay g (turns obj) = (Inr (), g')" "truthy (g_lines g' l)" "is_line (g_width g') (g_height g') l"
  shows "\<exists>s1 es obj'. handle s k (line_click l) = (s1, es, Ack) \<and> heap s1 a = Some obj' \<and>
     length (turns obj') = Suc (length (turns obj)) \<and>
     player obj' = advance (player obj) (length (players obj)) \<and>
     replay g (turns obj') = (Inr (), g')"
proof -
  obtain d x y where l: "l = (d, x, y)" by (cases l)
  show ?thesis
    using assms replay_drawn_line [OF assms(4,5,6), of "sock_playerId (sockets s k)"]
    by (simp add: l onIOTurn_def Let_def)
qed

theorem drawn_line_click_accepted_and_ignored_witness:
  "sock_session (sockets (fst (serve server0 [(0, CreateSession [0, 1, 2, 3, 4]), (1, JoinSession ''ABCDE''), (0, Start), (1, Turn ''v'' 0 0)])) 0) = Some 0 \<and>
   heap (fst (serve server0 [(0, CreateSession [0, 1, 2, 3, 4]), (1, JoinSession ''ABCDE''), (0, Start), (1, Turn ''v'' 0 0)])) 0 =
     Some \<lparr>sessionId = ''ABCDE'', started = True, player = 1, players = take 2 PLAYERS,
           turns = [\<lparr>turn_playerId = Some 1, turn_direction = ''v'', turn_x = 0, turn_y = 0\<rparr>]\<rparr> \<and>
   replay ((new_game 2 2)\<lparr>g_players := take 2 PLAYERS\<rparr>) [\<lparr>turn_playerId = Some 1, turn_direction = ''v'', turn_x = 0, turn_y = 0\<rparr>] =
     (Inr (), snd (setPlayer ((new_game 2 2)\<lparr>g_players := take 2 PLAYERS\<rparr>) (V, 0, 0) (Some 1))) \<and>
   truthy (g_lines (snd (setPlayer ((new_game 2 2)\<lparr>g_players := take 2 PLAYERS\<rparr>) (V, 0, 0) (Some 1))) (V, 0, 0)) \<and>
   (\<exists>s1 es obj'. handle (fst (serve server0 [(0, CreateSession [0, 1, 2, 3, 4]), (1, JoinSession ''ABCDE''), (0, Start), (1, Turn ''v'' 0 0)])) 0 (line_click (V, 0, 0)) = (s1, es, Ack) \<and>
      heap s1 0 = Some obj' \<and> length (turns obj') = 2 \<and> player obj' = 0 \<and>
      replay ((new_game 2 2)\<lparr>g_players := take 2 PLAYERS\<rparr>) (turns obj') =
        (Inr (), snd (setPlayer ((new_game 2 2)\<lparr>g_players := take 2 PLAYERS\<rparr>) (V, 0, 0) (Some 1))))"
proof -
  let ?s = "fst (serve server0 [(0, CreateSession [0, 1, 2, 3, 4]), (1, JoinSession ''ABCDE''), (0, Start), (1, Turn ''v'' 0 0)])"
  let ?g = "(new_game 2 2)\<lparr>g_players := take 2 PLAYERS\<rparr>"
  let ?g' = "snd (setPlayer ?g (V, 0, 0) (Some 1))"
  have h1: "sock_session (sockets ?s 0) = Some 0" by (simp add: server_eval)
  have h2: "heap ?s 0 = Some \<lparr>sessionId = ''ABCDE'', started = True, player = 1, players = take 2 PLAYERS,
           turns = [\<lparr>turn_playerId = Some 1, turn_direction = ''v'', turn_x = 0, turn_y = 0\<rparr>]\<rparr>"
    by (simp add: server_eval)
  have h3: "started \<lparr>sessionId = ''ABCDE'', started = True, player = 1, players = take 2 PLAYERS,
           turns = [\<lparr>turn_playerId = Some 1, turn_direction = ''v'', turn_x = 0, turn_y = 0\<rparr>]\<rparr>" by simp
  have h4: "replay ?g (turns \<lparr>sessionId = ''ABCDE'', started = True, player = 1, players = take 2 PLAYERS,
           turns = [\<lparr>turn_playerId = Some 1, turn_direction = ''v'', turn_x = 0, turn_y = 0\<rparr>]\<rparr>) = (Inr (), ?g')"
    by (simp add: replay_eval)
  have h5: "truthy (g_lines ?g' (V, 0, 0))" by (simp add: replay_eval)
  have h6: "is_line (g_width ?g') (g_height ?g') (V, 0, 0)" by (simp add: replay_eval)
  have pl: "advance 1 (length (take 2 PLAYERS)) = 0" by (simp add: server_eval)
  show ?thesis
    using drawn_line_click_accepted_and_ignored [OF h1 h2 h3 h4 h5 h6] h1 h2 h4 h5 pl by auto
qed

text \<open>
  C37: A stale identity impersonates a player.  A socket that holds the
  \<open>playerId\<close> \<open>j\<close> it got in an earlier session and is refused by a started
  game, so it is not in that game's room, has its click logged there as
  player \<open>j\<close>; every replica of the room that replays the log draws the
  line for player \<open>j\<close>.
\<close>

theorem stale_identity_impersonates:
  assumes "sessions s i = Some a" "heap s a = Some obj" "started obj" "sock_playerId (sockets s k) = Some j"
    "k \<notin> set (rooms s i)" "replay g (turns obj) = (Inr (), g1)"
    "is_line (g_width g1) (g_height g1) l" "\<not> truthy (g_lines g1 l)"
  shows "\<exists>e s1 s2 es obj'. onIOJoinSession s k i = (s1, [], Err e) \<and> handle s1 k (line_click l) = (s2, es, Ack) \<and>
     heap s2 a = Some obj' \<and> k \<notin> set (rooms s2 i) \<and> g_lines (snd (replay g (turns obj'))) l = Some j"
proof -
  obtain d x y where l: "l = (d, x, y)" by (cases l)
  obtain e where jn: "onIOJoinSession s k i =
    (s\<lparr>sockets := (sockets s)(k := (sockets s k)\<lparr>sock_sessionId := Some i, sock_session := Some a\<rparr>)\<rparr>, [], Err e)"
    using onIOJoinSession_started [OF assms(1,2,3)] by blast
  let ?s1 = "s\<lparr>sockets := (sockets s)(k := (sockets s k)\<lparr>sock_sessionId := Some i, sock_session := Some a\<rparr>)\<rparr>"
  have r: "replay g (turns obj @ [\<lparr>turn_playerId = Some j, turn_direction = dir_str d, turn_x = int x, turn_y = int y\<rparr>]) =
           setPlayer g1 l (Some j)"
    using replay_click [OF assms(6,7), of "Some j"] by (simp add: l)
  have "g_lines (snd (setPlayer g1 l (Some j))) l = Some j" using assms(8) by (simp add: setPlayer_lines)
  then show ?thesis
    using jn r assms(2,3,4,5) onIOTurn_started [of ?s1 k a obj "dir_str d" "int x" "int y"] by (simp add: l)
qed

theorem stale_identity_impersonates_witness:
  "sessions (fst (serve server0 [(0, CreateSession [0, 1, 2, 3, 4]), (1, JoinSession ''ABCDE''), (0, Start), (3, CreateSession [5, 6, 7, 8, 9]), (2, JoinSession ''FGHIJ'')])) ''ABCDE'' = Some 0 \<and> heap (fst (serve server0 [(0, CreateSession [0, 1, 2, 3, 4]), (1, JoinSession ''ABCDE''), (0, Start), (3, CreateSession [5, 6, 7, 8, 9]), (2, JoinSession ''FGHIJ'')])) 0 = Some (\<lparr>sessionId = ''ABCDE'', started = True, player = 0, players = take 2 PLAYERS, turns = []\<rparr>) \<and> started (\<lparr>sessionId = ''ABCDE'', started = True, player = 0, players = take 2 PLAYERS, turns = []\<rparr>) \<and>
   sock_playerId (sockets (fst (serve server0 [(0, CreateSession [0, 1, 2, 3, 4]), (1, JoinSession ''ABCDE''), (0, Start), (3, CreateSession [5, 6, 7, 8, 9]), (2, JoinSession ''FGHIJ'')])) 2) = Some 1 \<and> 2 \<notin> set (rooms (fst (serve server0 [(0, CreateSession [0, 1, 2, 3, 4]), (1, JoinSession ''ABCDE''), (0, Start), (3, CreateSession [5, 6, 7, 8, 9]), (2, JoinSession ''FGHIJ'')])) ''ABCDE'') \<and>
   replay ((new_game 2 2)\<lparr>g_players := take 2 PLAYERS\<rparr>) (turns (\<lparr>sessionId = ''ABCDE'', started = True, player = 0, players = take 2 PLAYERS, turns = []\<rparr>)) = (Inr (), ((new_game 2 2)\<lparr>g_players := take 2 PLAYERS\<rparr>)) \<and> is_line (g_width ((new_game 2 2)\<lparr>g_players := take 2 PLAYERS\<rparr>)) (g_height ((new_game 2 2)\<lparr>g_players := take 2 PLAYERS\<rparr>)) (V, 0, 0) \<and>
   \<not> truthy (g_lines ((new_game 2 2)\<lparr>g_players := take 2 PLAYERS\<rparr>) (V, 0, 0)) \<and>
   (\<exists>e s1 s2 es obj'. onIOJoinSession (fst (serve server0 [(0, CreateSession [0, 1, 2, 3, 4]), (1, JoinSession ''ABCDE''), (0, Start), (3, CreateSession [5, 6, 7, 8, 9]), (2, JoinSession ''FGHIJ'')])) 2 ''ABCDE'' = (s1, [], Err e) \<and>
      handle s1 2 (line_click (V, 0, 0)) = (s2, es, Ack) \<and> heap s2 0 = Some obj' \<and>
      2 \<notin> set (rooms s2 ''ABCDE'') \<and> g_lines (snd (replay ((new_game 2 2)\<lparr>g_players := take 2 PLAYERS\<rparr>) (turns obj'))) (V, 0, 0) = Some 1)"
  (is "?h1 \<and> ?h2 \<and> ?h3 \<and> ?h4 \<and> ?h5 \<and> ?h6 \<and> ?h7 \<and> ?h8 \<and> _")
proof -
  have h: ?h1 ?h2 ?h3 ?h4 ?h5 by (simp_all add: server_eval)
  have g: ?h6 ?h7 ?h8 by (simp_all add: replay_eval)
  from stale_identity_impersonates [OF h g] show ?thesis using h g by blast
qed

end
