(* ===== verification/GameSpec.thy ===== *)
theory GameSpec
  imports Grid
begin

text \<open>
  The game state machine the specification describes (section 4.2 of the
  specification): the abstract contract against which the browser games are
  compared.  A state has a phase, a player count, the index of the player to
  move and the owners of lines and boxes.  \<open>applyTurn\<close> checks, in this
  order, the phase, that the line is free and that it is the player's turn;
  an accepted turn owns the line, closes each adjacent box whose four lines
  are owned, keeps the turn after a closure and otherwise passes it on
  modulo the player count, and finishes the game when every box has an
  owner.  The winner is the player with a strictly greatest score, the
  score being the number of boxes owned.
\<close>

datatype phase = Lobby | Active | Finished

datatype game_error = GameNotStarted | LineAlreadyTaken | NotYourTurn

record spec_game =
  sg_width :: nat
  sg_height :: nat
  sg_nplayers :: nat
  sg_phase :: phase
  sg_current :: nat
  sg_lines :: "line \<Rightarrow> pid option"
  sg_boxes :: "box \<Rightarrow> pid option"

definition spec_start :: "nat \<Rightarrow> nat \<Rightarrow> nat \<Rightarrow> spec_game" where
  "spec_start w h n =
    \<lparr>sg_width = w, sg_height = h, sg_nplayers = n, sg_phase = Active, sg_current = 0,
     sg_lines = (\<lambda>_. None), sg_boxes = (\<lambda>_. None)\<rparr>"

text \<open>A box all of whose four bounding lines are owned.\<close>

definition spec_box_full :: "(line \<Rightarrow> pid option) \<Rightarrow> box \<Rightarrow> bool" where
  "spec_box_full ls b \<longleftrightarrow> list_all (\<lambda>l. ls l \<noteq> None) (box_lines b)"

definition spec_all_owned :: "nat \<Rightarrow> nat \<Rightarrow> (box \<Rightarrow> pid option) \<Rightarrow> bool" where
  "spec_all_owned w h bs \<longleftrightarrow> list_all (\<lambda>b. bs b \<noteq> None) (grid_boxes w h)"

definition applyTurn :: "spec_game \<Rightarrow> pid \<Rightarrow> line \<Rightarrow> game_error + spec_game \<times> box list" where
  "applyTurn s p l =
    (if sg_phase s \<noteq> Active then Inl GameNotStarted
     else if sg_lines s l \<noteq> None then Inl LineAlreadyTaken
     else if p \<noteq> sg_current s then Inl NotYourTurn
     else
       (let ls = (sg_lines s)(l := Some p);
            closed = filter (spec_box_full ls) (adjacent_boxes (sg_width s) (sg_height s) l);
            bs = (\<lambda>b. if b \<in> set closed then Some p else sg_boxes s b);
            cur = (if closed \<noteq> [] then sg_current s else (sg_current s + 1) mod sg_nplayers s)
        in Inr (s\<lparr>sg_lines := ls, sg_boxes := bs, sg_current := cur,
                   sg_phase := (if spec_all_owned (sg_width s) (sg_height s) bs then Finished else Active)\<rparr>,
                closed)))"

text \<open>
  The session manager's \<open>joinSession\<close> (section 4.3): a session is seen
  through its phase and roster size; the checks are, in this order, that the
  session exists, that it is in the lobby and that the roster is below the
  maximum; the joiner gets the next index.
\<close>

datatype session_error = SessionNotFound | GameAlreadyStarted | MaxPlayersReached | NotEnoughPlayers

definition spec_joinSession :: "(string \<Rightarrow> (phase \<times> nat) option) \<Rightarrow> nat \<Rightarrow> string \<Rightarrow> session_error + pid" where
  "spec_joinSession sess maxp i =
    (case sess i of
       None \<Rightarrow> Inl SessionNotFound
     | Some (ph, n) \<Rightarrow>
         if ph \<noteq> Lobby then Inl GameAlreadyStarted
         else if n = maxp then Inl MaxPlayersReached
         else Inr n)"

text \<open>\<open>startSession\<close>: the session must exist and hold two players; it becomes active.\<close>

definition spec_startSession :: "(phase \<times> nat) option \<Rightarrow> session_error + phase \<times> nat" where
  "spec_startSession ss =
    (case ss of
       None \<Rightarrow> Inl SessionNotFound
     | Some (ph, n) \<Rightarrow> if n < 2 then Inl NotEnoughPlayers else Inr (Active, n))"

text \<open>Scores are derived from box ownership; the winner has a strictly greatest score.\<close>

definition spec_score :: "spec_game \<Rightarrow> pid \<Rightarrow> nat" where
  "spec_score s p = length (filter (\<lambda>b. sg_boxes s b = Some p) (grid_boxes (sg_width s) (sg_height s)))"

definition spec_winner :: "spec_game \<Rightarrow> pid option" where
  "spec_winner s =
    find (\<lambda>p. list_all (\<lambda>q. q = p \<or> spec_score s q < spec_score s p) [0..<sg_nplayers s])
      [0..<sg_nplayers s]"

end
