(* ===== verification/Render.thy ===== *)
theory Render
  imports Grid
begin

text \<open>
  The SVG drawing of the board by the constructors of \<open>Line\<close>, \<open>Box\<close> and
  \<open>Game\<close> in \<open>src/public/js/app.js\<close>: every line object appends its
  \<open><line>\<close> element, possibly an extra dot and its own starting dot, and
  every box its scribble \<open><svg>\<close>, in the order the constructor's loops
  create them; the \<open>viewBox\<close> spans the grid plus its padding.  Elements
  are named by kind and attributes (the scribble's fixed polyline and the
  CSS classes are left out).
\<close>

definition GAME_PADDING :: int where "GAME_PADDING = 10"
definition BOX_SIZE :: int where "BOX_SIZE = 50"
definition BOX_PADDING :: int where "BOX_PADDING = 5"

datatype svg_elem =
  SvgLine int int int int   \<comment> \<open>\<open>x1, x2, y1, y2\<close>\<close>
| SvgDot int int            \<comment> \<open>\<open>cx, cy\<close> of a circle of radius 2\<close>
| SvgScribble int int int int  \<comment> \<open>\<open>x, y, width, height\<close>\<close>

text \<open>The pixel coordinate of grid position \<open>k\<close>.\<close>

definition px :: "nat \<Rightarrow> int" where
  "px k = GAME_PADDING + int k * BOX_SIZE"

text \<open>
  The \<open>Line\<close> constructor.  Both "most right column" and "most bottom row"
  extra dots test \<open>this.y === this.game.width - 1\<close>.
\<close>

fun line_svg :: "nat \<Rightarrow> line \<Rightarrow> svg_elem list" where
  "line_svg w (H, x, y) =
     [SvgLine (px x + 5) (px x + BOX_SIZE - 5) (px y) (px y)] @
     (if int y = int w - 1 then [SvgDot (px x + BOX_SIZE) (px y)] else []) @
     [SvgDot (px x) (px y)]"
| "line_svg w (V, x, y) =
     [SvgLine (px x) (px x) (px y + 5) (px y + BOX_SIZE - 5)] @
     (if int y = int w - 1 then [SvgDot (px x) (px y + BOX_SIZE)] else []) @
     [SvgDot (px x) (px y)]"

text \<open>The \<open>Box\<close> constructor's scribble element.\<close>

fun box_svg :: "box \<Rightarrow> svg_elem" where
  "box_svg (x, y) =
     SvgScribble (BOX_PADDING + px x) (BOX_PADDING + px y)
       (BOX_SIZE - BOX_PADDING - BOX_PADDING) (BOX_SIZE - BOX_PADDING - BOX_PADDING)"

text \<open>
  \<open>this.lines[d][x][y] = this.lines[d][x][y] || new Line(...)\<close>: a line is
  created, and drawn, the first time the loops name it.
\<close>

definition create_line :: "nat \<Rightarrow> line list \<times> svg_elem list \<Rightarrow> line \<Rightarrow> line list \<times> svg_elem list" where
  "create_line w st l = (if l \<in> set (fst st) then st else (fst st @ [l], snd st @ line_svg w l))"

text \<open>One iteration of the constructor's loops: top, bottom, left and right lines, then the box.\<close>

definition create_cell :: "nat \<Rightarrow> line list \<times> svg_elem list \<Rightarrow> box \<Rightarrow> line list \<times> svg_elem list" where
  "create_cell w st b =
    (let st' = foldl (create_line w) st [lineTop b, lineBottom b, lineLeft b, lineRight b]
     in (fst st', snd st' @ [box_svg b]))"

definition render :: "nat \<Rightarrow> nat \<Rightarrow> svg_elem list" where
  "render w h = snd (foldl (create_cell w) ([], []) (grid_boxes w h))"

text \<open>\<open>viewBox = 0 0 (width * BOX_SIZE + 2 GAME_PADDING) (height * BOX_SIZE + 2 GAME_PADDING)\<close>.\<close>

definition viewBox :: "nat \<Rightarrow> nat \<Rightarrow> int \<times> int \<times> int \<times> int" where
  "viewBox w h = (0, 0, int w * BOX_SIZE + GAME_PADDING + GAME_PADDING,
                  int h * BOX_SIZE + GAME_PADDING + GAME_PADDING)"

text \<open>An element lies inside a \<open>W\<close> by \<open>Ht\<close> drawing area.\<close>

fun inside :: "int \<Rightarrow> int \<Rightarrow> svg_elem \<Rightarrow> bool" where
  "inside W Ht (SvgLine x1 x2 y1 y2) \<longleftrightarrow> 0 \<le> x1 \<and> x1 \<le> x2 \<and> x2 \<le> W \<and> 0 \<le> y1 \<and> y1 \<le> y2 \<and> y2 \<le> Ht"
| "inside W Ht (SvgDot cx cy) \<longleftrightarrow> 0 \<le> cx \<and> cx \<le> W \<and> 0 \<le> cy \<and> cy \<le> Ht"
| "inside W Ht (SvgScribble x y wd ht) \<longleftrightarrow> 0 \<le> x \<and> 0 \<le> wd \<and> x + wd \<le> W \<and> 0 \<le> y \<and> 0 \<le> ht \<and> y + ht \<le> Ht"

text \<open>The \<open><line>\<close> elements of a drawing.\<close>

fun svg_is_line :: "svg_elem \<Rightarrow> bool" where
  "svg_is_line (SvgLine _ _ _ _) = True"
| "svg_is_line _ = False"

section \<open>Properties\<close>

lemma foldl_create_line:
  "set (fst (foldl (create_line w) st ls)) = set (fst st) \<union> set ls \<and>
   set (snd (foldl (create_line w) st ls)) =
     set (snd st) \<union> (\<Union>l\<in>set ls - set (fst st). set (line_svg w l))"
  by (induction ls arbitrary: st) (auto simp: create_line_def)

lemma create_cell_sets:
  "set (fst (create_cell w st b)) = set (fst st) \<union> set (box_lines b) \<and>
   set (snd (create_cell w st b)) =
     set (snd st) \<union> (\<Union>l\<in>set (box_lines b) - set (fst st). set (line_svg w l)) \<union> {box_svg b}"
  using foldl_create_line [of w st "[lineTop b, lineBottom b, lineLeft b, lineRight b]"]
  by (simp add: create_cell_def Let_def) (auto simp: box_lines_def)

lemma foldl_create_cell:
  "set (fst (foldl (create_cell w) st bs)) = set (fst st) \<union> (\<Union>b\<in>set bs. set (box_lines b)) \<and>
   set (snd (foldl (create_cell w) st bs)) =
     set (snd st) \<union> (\<Union>l\<in>(\<Union>b\<in>set bs. set (box_lines b)) - set (fst st). set (line_svg w l)) \<union>
     box_svg ` set bs"
proof (induction bs arbitrary: st)
  case (Cons b bs)
  show ?case
  proof -
    let ?st = "create_cell w st b"
    have "foldl (create_cell w) st (b # bs) = foldl (create_cell w) ?st bs" by simp
    moreover note Cons [of ?st] create_cell_sets [of w st b]
    ultimately show ?thesis by auto
  qed
qed simp

lemma set_render:
  "set (render w h) = (\<Union>l\<in>{l. is_line w h l}. set (line_svg w l)) \<union> box_svg ` set (grid_boxes w h)"
proof -
  have "(\<Union>b\<in>set (grid_boxes w h). set (box_lines b)) = {l. is_line w h l}"
    using set_grid_lines [of w h] by (simp add: grid_lines_def)
  then show ?thesis by (simp add: render_def foldl_create_cell)
qed

lemma count_line_svg: "length (filter svg_is_line (line_svg w l)) = 1"
proof -
  obtain d x y where "l = (d, x, y)" by (cases l) auto
  then show ?thesis by (cases d) simp_all
qed

lemma box_svg_not_line: "\<not> svg_is_line (box_svg b)"
  by (cases b) simp

lemma count_foldl_create_line:
  "length (filter svg_is_line (snd (foldl (create_line w) st ls))) =
     length (filter svg_is_line (snd st)) + card (set ls - set (fst st))"
proof (induction ls arbitrary: st)
  case (Cons l ls)
  show ?case
  proof (cases "l \<in> set (fst st)")
    case True
    then have "set (l # ls) - set (fst st) = set ls - set (fst st)" by auto
    then show ?thesis using Cons [of st] True by (simp add: create_line_def)
  next
    case False
    let ?st = "(fst st @ [l], snd st @ line_svg w l)"
    have "set (l # ls) - set (fst st) = insert l (set ls - set (fst ?st))" using False by auto
    moreover have "l \<notin> set ls - set (fst ?st)" by simp
    ultimately have "card (set (l # ls) - set (fst st)) = Suc (card (set ls - set (fst ?st)))" by simp
    then show ?thesis using Cons [of ?st] False by (simp add: create_line_def count_line_svg)
  qed
qed simp

lemma count_create_cell:
  "length (filter svg_is_line (snd (create_cell w st b))) =
     length (filter svg_is_line (snd st)) + card (set (box_lines b) - set (fst st))"
proof -
  have "set [lineTop b, lineBottom b, lineLeft b, lineRight b] = set (box_lines b)"
    by (auto simp: box_lines_def)
  then show ?thesis
    using count_foldl_create_line [of w st "[lineTop b, lineBottom b, lineLeft b, lineRight b]"]
    by (simp add: create_cell_def Let_def box_svg_not_line)
qed

lemma count_foldl_create_cell:
  "length (filter svg_is_line (snd (foldl (create_cell w) st bs))) =
     length (filter svg_is_line (snd st)) + card ((\<Union>b\<in>set bs. set (box_lines b)) - set (fst st))"
proof (induction bs arbitrary: st)
  case (Cons b bs)
  let ?st = "create_cell w st b"
  let ?U = "\<Union>b\<in>set bs. set (box_lines b)"
  have F: "set (fst ?st) = set (fst st) \<union> set (box_lines b)" using create_cell_sets by blast
  have U: "(\<Union>b'\<in>set (b # bs). set (box_lines b')) - set (fst st) =
        (set (box_lines b) - set (fst st)) \<union> (?U - set (fst ?st))" using F by auto
  have disj: "(set (box_lines b) - set (fst st)) \<inter> (?U - set (fst ?st)) = {}" using F by blast
  have "card ((\<Union>b'\<in>set (b # bs). set (box_lines b')) - set (fst st)) =
             card (set (box_lines b) - set (fst st)) + card (?U - set (fst ?st))"
    unfolding U by (rule card_Un_disjoint) (use disj in auto)
  then show ?case using Cons [of ?st] by (simp add: count_create_cell)
qed simp

lemma lines_as_images:
  assumes "0 < w" "0 < h"
  shows "{l. is_line w h l} = (\<lambda>(x, y). (H, x, y)) ` ({..<w} \<times> {..h}) \<union> (\<lambda>(x, y). (V, x, y)) ` ({..w} \<times> {..<h})"
proof (intro set_eqI iffI)
  fix l assume "l \<in> {l. is_line w h l}"
  then show "l \<in> (\<lambda>(x, y). (H, x, y)) ` ({..<w} \<times> {..h}) \<union> (\<lambda>(x, y). (V, x, y)) ` ({..w} \<times> {..<h})"
  proof -
    obtain d x y where "l = (d, x, y)" by (cases l) auto
    then show ?thesis using \<open>l \<in> {l. is_line w h l}\<close> by (cases d) auto
  qed
qed (use assms in auto)

lemma card_lines:
  assumes "0 < w" "0 < h"
  shows "card {l. is_line w h l} = w * Suc h + Suc w * h"
proof -
  have "card ((\<lambda>(x, y). (H, x, y)) ` ({..<w} \<times> {..h})) = w * Suc h"
    by (subst card_image) (auto simp: inj_on_def card_cartesian_product)
  moreover have "card ((\<lambda>(x, y). (V, x, y)) ` ({..w} \<times> {..<h})) = Suc w * h"
    by (subst card_image) (auto simp: inj_on_def card_cartesian_product)
  ultimately show ?thesis
    unfolding lines_as_images [OF assms] by (subst card_Un_disjoint) auto
qed

text \<open>
  The \<open>||\<close> in \<open>this.lines[d][x][y] || new Line(...)\<close> creates each line
  once although two boxes name an interior line: the drawing holds one
  \<open><line>\<close> element per line of the grid.
\<close>

theorem render_draws_each_line_once:
  assumes "0 < w" "0 < h"
  shows "length (filter svg_is_line (render w h)) = w * Suc h + Suc w * h"
proof -
  have "(\<Union>b\<in>set (grid_boxes w h). set (box_lines b)) = {l. is_line w h l}"
    using set_grid_lines [of w h] by (simp add: grid_lines_def)
  then show ?thesis
    using count_foldl_create_cell [of w "([], [])" "grid_boxes w h"] card_lines [OF assms]
    by (simp add: render_def)
qed

lemma px_inj [simp]: "px a = px b \<longleftrightarrow> a = b"
  by (simp add: px_def BOX_SIZE_def)

lemma px_Suc: "px a + BOX_SIZE = px (Suc a)"
  by (simp add: px_def BOX_SIZE_def algebra_simps)

lemma dot_in_line_svg:
  "SvgDot (px i) (px j) \<in> set (line_svg w (d, x, y)) \<longleftrightarrow>
     (i, j) = (x, y) \<or> (int y = int w - 1 \<and> (if d = H then (i, j) = (Suc x, y) else (i, j) = (x, Suc y)))"
  by (cases d) (simp_all add: px_Suc, blast+)

lemma dot_in_render:
  "SvgDot (px i) (px j) \<in> set (render w h) \<longleftrightarrow>
     (\<exists>d x y. is_line w h (d, x, y) \<and>
        ((i, j) = (x, y) \<or> (int y = int w - 1 \<and> (if d = H then (i, j) = (Suc x, y) else (i, j) = (x, Suc y)))))"
proof -
  have "SvgDot (px i) (px j) \<notin> box_svg ` set (grid_boxes w h)" by auto
  then have "SvgDot (px i) (px j) \<in> set (render w h) \<longleftrightarrow>
      (\<exists>l. is_line w h l \<and> SvgDot (px i) (px j) \<in> set (line_svg w l))"
    by (simp add: set_render)
  also have "\<dots> \<longleftrightarrow> (\<exists>d x y. is_line w h (d, x, y) \<and> SvgDot (px i) (px j) \<in> set (line_svg w (d, x, y)))"
    by simp
  finally show ?thesis by (simp only: dot_in_line_svg)
qed

lemma line_svg_inside:
  assumes "is_line w h l" "e \<in> set (line_svg w l)"
  shows "inside (int w * BOX_SIZE + GAME_PADDING + GAME_PADDING) (int h * BOX_SIZE + GAME_PADDING + GAME_PADDING) e"
proof -
  obtain d x y where l: "l = (d, x, y)" by (cases l) auto
  show ?thesis
  proof (cases d)
    case H
    then have "x < w" "y \<le> h" using assms l by simp_all
    then show ?thesis using assms l H by (auto simp: px_def BOX_SIZE_def GAME_PADDING_def)
  next
    case V
    then have "x \<le> w" "y < h" using assms l by simp_all
    then show ?thesis using assms l V by (auto simp: px_def BOX_SIZE_def GAME_PADDING_def)
  qed
qed

lemma box_svg_inside:
  assumes "b \<in> set (grid_boxes w h)"
  shows "inside (int w * BOX_SIZE + GAME_PADDING + GAME_PADDING) (int h * BOX_SIZE + GAME_PADDING + GAME_PADDING) (box_svg b)"
proof -
  obtain x y where "b = (x, y)" "x < w" "y < h" using assms unfolding set_grid_boxes by blast
  then show ?thesis by (simp add: px_def BOX_SIZE_def GAME_PADDING_def BOX_PADDING_def)
qed

text \<open>
  Every element the constructor draws lies inside the \<open>viewBox\<close> it sets,
  whose origin is \<open>(0, 0)\<close>.
\<close>

theorem render_inside:
  "case viewBox w h of (x0, y0, W, Ht) \<Rightarrow> x0 = 0 \<and> y0 = 0 \<and> list_all (inside W Ht) (render w h)"
  unfolding viewBox_def list_all_iff set_render
  using line_svg_inside box_svg_inside by auto


end
