(* ===== verification/LocalBoard.thy ===== *)
theory LocalBoard
  imports Render
begin

text \<open>
  The board objects of the standalone page \<open>src/js/app.js\<close>, built by its
  \<open>Game\<close> constructor: \<open>Line\<close> objects with their listener lists, the
  \<open>Box\<close> constructor registering on its four lines, and the SVG elements
  both draw.  The constructor keeps horizontal lines transposed, in
  \<open>this.lines['h'][y][x]\<close>, and vertical ones in \<open>this.lines['v'][x][y]\<close>.
  The line table is a map from these array indices to the \<open>Line\<close> object
  stored there (absent slots are \<open>undefined\<close>, a stored object is truthy).
  The results: the page draws the board \<open>Render.render\<close> describes, every
  slot holds the line of its own coordinates, and the listener lists are
  \<open>Grid.build_listeners\<close>, which \<open>LocalGame\<close> relies on.
\<close>

text \<open>
  A \<open>Line\<close> object: its coordinates (\<open>this.x\<close>, \<open>this.y\<close> and its class)
  and \<open>this.listeners\<close>; its owner is kept by \<open>LocalGame\<close>.
\<close>

record lline =
  ll_line :: line
  ll_listeners :: "box list"

text \<open>The \<open>Line\<close> constructor of \<open>src/js/app.js\<close>.\<close>

fun local_line_svg :: "nat \<Rightarrow> line \<Rightarrow> svg_elem list" where
  "local_line_svg w (H, x, y) =
     [SvgLine (px x + 5) (px x + BOX_SIZE - 5) (px y) (px y)] @
     (if int y = int w - 1 then [SvgDot (px x + BOX_SIZE) (px y)] else []) @
     [SvgDot (px x) (px y)]"
| "local_line_svg w (V, x, y) =
     [SvgLine (px x) (px x) (px y + 5) (px y + BOX_SIZE - 5)] @
     (if int y = int w - 1 then [SvgDot (px x) (px y + BOX_SIZE)] else []) @
     [SvgDot (px x) (px y)]"

text \<open>The \<open>Box\<close> constructor's scribble in \<open>src/js/app.js\<close>.\<close>

fun local_box_svg :: "box \<Rightarrow> svg_elem" where
  "local_box_svg (x, y) =
     SvgScribble (BOX_PADDING + px x) (BOX_PADDING + px y)
       (BOX_SIZE - BOX_PADDING - BOX_PADDING) (BOX_SIZE - BOX_PADDING - BOX_PADDING)"

text \<open>The slot of \<open>this.lines\<close> a line is stored in.\<close>

fun local_slot :: "line \<Rightarrow> dir \<times> nat \<times> nat" where
  "local_slot (H, x, y) = (H, y, x)"
| "local_slot (V, x, y) = (V, x, y)"

type_synonym line_table = "dir \<times> nat \<times> nat \<Rightarrow> lline option"

text \<open>
  \<open>this.lines[d][i][j] = this.lines[d][i][j] || new Line(...)\<close>: the
  line is created, and drawn, when its slot is empty.
\<close>

definition local_create_line :: "nat \<Rightarrow> line_table \<times> svg_elem list \<Rightarrow> line \<Rightarrow> line_table \<times> svg_elem list" where
  "local_create_line w st l =
    (case fst st (local_slot l) of
       Some _ \<Rightarrow> st
     | None \<Rightarrow> ((fst st)(local_slot l \<mapsto> \<lparr>ll_line = l, ll_listeners = []\<rparr>), snd st @ local_line_svg w l))"

text \<open>\<open>Line.addListener\<close> on the object in the slot of \<open>l\<close>.\<close>

definition local_addListener :: "line_table \<Rightarrow> line \<Rightarrow> box \<Rightarrow> line_table" where
  "local_addListener t l b =
    t(local_slot l := map_option (\<lambda>obj. obj\<lparr>ll_listeners := ll_listeners obj @ [b]\<rparr>) (t (local_slot l)))"

text \<open>
  The \<open>Box\<close> constructor: registration on the left, top, right and bottom
  lines, then the scribble.
\<close>

definition local_Box :: "line_table \<times> svg_elem list \<Rightarrow> box \<Rightarrow> line_table \<times> svg_elem list" where
  "local_Box st b =
    (foldl (\<lambda>t l. local_addListener t l b) (fst st) [lineLeft b, lineTop b, lineRight b, lineBottom b],
     snd st @ [local_box_svg b])"

text \<open>One iteration of the constructor's loop: top, bottom, left, right, then the box.\<close>

definition local_create_cell :: "nat \<Rightarrow> line_table \<times> svg_elem list \<Rightarrow> box \<Rightarrow> line_table \<times> svg_elem list" where
  "local_create_cell w st b =
    local_Box (foldl (local_create_line w) st [lineTop b, lineBottom b, lineLeft b, lineRight b]) b"

text \<open>The constructor's nested loop.\<close>

definition local_construct :: "nat \<Rightarrow> nat \<Rightarrow> line_table \<times> svg_elem list" where
  "local_construct w h = foldl (local_create_cell w) (Map.empty, []) (grid_boxes w h)"

definition local_render :: "nat \<Rightarrow> nat \<Rightarrow> svg_elem list" where
  "local_render w h = snd (local_construct w h)"

text \<open>The listeners of the line object in the slot of \<open>l\<close> (none where there is no object).\<close>

definition table_listeners :: "line_table \<Rightarrow> line \<Rightarrow> box list" where
  "table_listeners t l = (case t (local_slot l) of None \<Rightarrow> [] | Some obj \<Rightarrow> ll_listeners obj)"

definition local_listeners :: "nat \<Rightarrow> nat \<Rightarrow> line \<Rightarrow> box list" where
  "local_listeners w h = table_listeners (fst (local_construct w h))"

text \<open>The simulation between the two constructions: the local table has a
  line in the slot of \<open>l\<close> exactly when the construction of \<open>Render\<close> has
  created \<open>l\<close>, and both have drawn the same elements.\<close>

definition table_rel :: "line_table \<times> svg_elem list \<Rightarrow> line list \<times> svg_elem list \<Rightarrow> bool" where
  "table_rel st st' \<longleftrightarrow> snd st = snd st' \<and> (\<forall>l. fst st (local_slot l) = None \<longleftrightarrow> l \<notin> set (fst st'))"

section \<open>Properties\<close>

lemma local_line_svg_eq: "local_line_svg w l = line_svg w l"
proof -
  obtain d x y where "l = (d, x, y)" by (cases l) auto
  then show ?thesis by (cases d) simp_all
qed

lemma local_box_svg_eq: "local_box_svg b = box_svg b"
  by (cases b) simp

lemma local_slot_inj: "local_slot l = local_slot l' \<longleftrightarrow> l = l'"
proof -
  obtain d x y d' x' y' where "l = (d, x, y)" "l' = (d', x', y')" by (cases l, cases l') auto
  then show ?thesis by (cases d; cases d') auto
qed

lemma table_rel_create_line:
  assumes r: "table_rel st st'"
  shows "table_rel (local_create_line w st l) (create_line w st' l)"
proof (cases "l \<in> set (fst st')")
  case True
  then obtain l0 where "fst st (local_slot l) = Some l0" using r unfolding table_rel_def by blast
  then show ?thesis using True r by (simp add: local_create_line_def create_line_def)
next
  case False
  then have "fst st (local_slot l) = None" using r unfolding table_rel_def by blast
  then show ?thesis using False r
    by (auto simp: table_rel_def local_create_line_def create_line_def local_line_svg_eq local_slot_inj)
qed

lemma table_rel_foldl_create_line:
  "table_rel st st' \<Longrightarrow> table_rel (foldl (local_create_line w) st ls) (foldl (create_line w) st' ls)"
  by (induction ls arbitrary: st st') (simp_all add: table_rel_create_line)

lemma local_addListener_None [simp]: "local_addListener t l b s = None \<longleftrightarrow> t s = None"
  by (simp add: local_addListener_def)

lemma foldl_local_addListener_None [simp]:
  "foldl (\<lambda>t l. local_addListener t l b) t ls s = None \<longleftrightarrow> t s = None"
  by (induction ls arbitrary: t) simp_all

lemma table_rel_create_cell:
  "table_rel st st' \<Longrightarrow> table_rel (local_create_cell w st b) (create_cell w st' b)"
  using table_rel_foldl_create_line [of st st' w "[lineTop b, lineBottom b, lineLeft b, lineRight b]"]
  by (simp add: local_create_cell_def local_Box_def create_cell_def Let_def table_rel_def local_box_svg_eq)

lemma table_rel_foldl_create_cell:
  "table_rel st st' \<Longrightarrow> table_rel (foldl (local_create_cell w) st bs) (foldl (create_cell w) st' bs)"
  by (induction bs arbitrary: st st') (simp_all add: table_rel_create_cell)

lemma local_render_eq: "local_render w h = render w h"
proof -
  have "table_rel (Map.empty, []) ([], [])" by (simp add: table_rel_def)
  then show ?thesis
    using table_rel_foldl_create_cell [of "(Map.empty, [])" "([], [])" w "grid_boxes w h"]
    by (simp add: local_render_def local_construct_def render_def table_rel_def)
qed

subsection \<open>The line objects and their listeners\<close>

lemma local_create_line_slot:
  "fst (local_create_line w st l) s =
     (if s = local_slot l \<and> fst st s = None then Some \<lparr>ll_line = l, ll_listeners = []\<rparr> else fst st s)"
  by (auto simp: local_create_line_def split: option.split)

lemma foldl_local_create_line_dom:
  "fst (foldl (local_create_line w) st ls) s = None \<longleftrightarrow> fst st s = None \<and> s \<notin> local_slot ` set ls"
  by (induction ls arbitrary: st) (auto simp: local_create_line_slot)

lemma table_listeners_create_line:
  "table_listeners (fst (local_create_line w st l)) = table_listeners (fst st)"
  by (rule ext) (auto simp: table_listeners_def local_create_line_slot local_slot_inj)

lemma table_listeners_foldl_create_line:
  "table_listeners (fst (foldl (local_create_line w) st ls)) = table_listeners (fst st)"
  by (induction ls arbitrary: st) (simp_all add: table_listeners_create_line)

lemma table_listeners_addListener:
  "t (local_slot l) \<noteq> None \<Longrightarrow>
   table_listeners (local_addListener t l b) = addListener (table_listeners t) l b"
  by (rule ext) (auto simp: table_listeners_def local_addListener_def addListener_def local_slot_inj)

lemma table_listeners_foldl_addListener:
  "\<forall>l\<in>set ls. t (local_slot l) \<noteq> None \<Longrightarrow>
   table_listeners (foldl (\<lambda>t l. local_addListener t l b) t ls) =
     foldl (\<lambda>L l. addListener L l b) (table_listeners t) ls"
proof (induction ls arbitrary: t)
  case (Cons l ls)
  have "\<forall>l'\<in>set ls. local_addListener t l b (local_slot l') \<noteq> None"
    using Cons.prems by (simp del: not_None_eq)
  then show ?case using Cons.IH [of "local_addListener t l b"] Cons.prems
    by (simp add: table_listeners_addListener del: not_None_eq)
qed simp

lemma table_listeners_create_cell:
  "table_listeners (fst (local_create_cell w st b)) = register_box (table_listeners (fst st)) b"
proof -
  let ?st = "foldl (local_create_line w) st [lineTop b, lineBottom b, lineLeft b, lineRight b]"
  have "\<forall>l\<in>set [lineLeft b, lineTop b, lineRight b, lineBottom b]. fst ?st (local_slot l) \<noteq> None"
    unfolding foldl_local_create_line_dom by (simp del: not_None_eq)
  then have "table_listeners (foldl (\<lambda>t l. local_addListener t l b) (fst ?st) [lineLeft b, lineTop b, lineRight b, lineBottom b]) =
      foldl (\<lambda>L l. addListener L l b) (table_listeners (fst ?st)) [lineLeft b, lineTop b, lineRight b, lineBottom b]"
    by (rule table_listeners_foldl_addListener)
  then show ?thesis
    unfolding local_create_cell_def local_Box_def fst_conv table_listeners_foldl_create_line register_box_def box_lines_def .
qed

lemma table_listeners_foldl_create_cell:
  "table_listeners (fst (foldl (local_create_cell w) st bs)) = foldl register_box (table_listeners (fst st)) bs"
  by (induction bs arbitrary: st) (simp_all add: table_listeners_create_cell)

text \<open>The listener lists the page's lines hold are those of \<open>Grid\<close>.\<close>

lemma local_listeners_eq [simp]: "local_listeners w h = build_listeners w h"
proof -
  have "table_listeners Map.empty = (\<lambda>_. [])" by (rule ext) (simp add: table_listeners_def)
  then show ?thesis
    by (simp add: local_listeners_def local_construct_def build_listeners_def table_listeners_foldl_create_cell)
qed

lemma foldl_local_create_cell_dom:
  "fst (foldl (local_create_cell w) st bs) s = None \<longleftrightarrow>
     fst st s = None \<and> s \<notin> local_slot ` (\<Union>b\<in>set bs. set (box_lines b))"
proof (induction bs arbitrary: st)
  case (Cons b bs)
  have "fst (local_create_cell w st b) s = None \<longleftrightarrow> fst st s = None \<and> s \<notin> local_slot ` set (box_lines b)"
    unfolding local_create_cell_def local_Box_def fst_conv foldl_local_addListener_None foldl_local_create_line_dom
    by (auto simp: box_lines_def)
  then show ?case using Cons [of "local_create_cell w st b"] by auto
qed simp

lemma slots_ok_create_line:
  "\<forall>s obj. fst st s = Some obj \<longrightarrow> local_slot (ll_line obj) = s \<Longrightarrow>
   \<forall>s obj. fst (local_create_line w st l) s = Some obj \<longrightarrow> local_slot (ll_line obj) = s"
  by (simp add: local_create_line_slot)

lemma slots_ok_foldl_create_line:
  "\<forall>s obj. fst st s = Some obj \<longrightarrow> local_slot (ll_line obj) = s \<Longrightarrow>
   \<forall>s obj. fst (foldl (local_create_line w) st ls) s = Some obj \<longrightarrow> local_slot (ll_line obj) = s"
proof (induction ls arbitrary: st)
  case (Cons l ls)
  show ?case unfolding foldl_Cons by (rule Cons.IH [OF slots_ok_create_line [OF Cons.prems]])
qed simp

lemma local_addListener_Some:
  "local_addListener t l b s = Some obj \<Longrightarrow> \<exists>obj0. t s = Some obj0 \<and> ll_line obj = ll_line obj0"
  by (cases "s = local_slot l") (auto simp: local_addListener_def)

lemma slots_ok_foldl_addListener:
  "\<forall>s obj. t s = Some obj \<longrightarrow> local_slot (ll_line obj) = s \<Longrightarrow>
   \<forall>s obj. foldl (\<lambda>t l. local_addListener t l b) t ls s = Some obj \<longrightarrow> local_slot (ll_line obj) = s"
proof (induction ls arbitrary: t)
  case (Cons l ls)
  have "\<forall>s obj. local_addListener t l b s = Some obj \<longrightarrow> local_slot (ll_line obj) = s"
  proof (intro allI impI)
    fix s obj assume "local_addListener t l b s = Some obj"
    then obtain obj0 where "t s = Some obj0" "ll_line obj = ll_line obj0"
      by (blast dest: local_addListener_Some)
    moreover from Cons.prems \<open>t s = Some obj0\<close> have "local_slot (ll_line obj0) = s" by blast
    ultimately show "local_slot (ll_line obj) = s" by simp
  qed
  then show ?case unfolding foldl_Cons by (rule Cons.IH)
qed simp

lemma slots_ok_foldl_create_cell:
  "\<forall>s obj. fst st s = Some obj \<longrightarrow> local_slot (ll_line obj) = s \<Longrightarrow>
   \<forall>s obj. fst (foldl (local_create_cell w) st bs) s = Some obj \<longrightarrow> local_slot (ll_line obj) = s"
proof (induction bs arbitrary: st)
  case (Cons b bs)
  let ?st = "foldl (local_create_line w) st [lineTop b, lineBottom b, lineLeft b, lineRight b]"
  have "\<forall>s obj. fst ?st s = Some obj \<longrightarrow> local_slot (ll_line obj) = s"
    using Cons.prems by (rule slots_ok_foldl_create_line)
  then have "\<forall>s obj. fst (local_create_cell w st b) s = Some obj \<longrightarrow> local_slot (ll_line obj) = s"
    unfolding local_create_cell_def local_Box_def fst_conv by (rule slots_ok_foldl_addListener)
  then show ?case unfolding foldl_Cons by (rule Cons.IH)
qed simp

text \<open>
  The constructor leaves in the slot of \<open>l\<close> the \<open>Line\<close> object with the
  coordinates of \<open>l\<close> and the listener list of \<open>Grid.build_listeners\<close>
  when \<open>l\<close> is a line of the grid, and nothing otherwise.
\<close>

theorem local_construct_objects:
  "fst (local_construct w h) (local_slot l) =
     (if is_line w h l then Some \<lparr>ll_line = l, ll_listeners = build_listeners w h l\<rparr> else None)"
proof -
  let ?t = "fst (local_construct w h)"
  have U: "(\<Union>b\<in>set (grid_boxes w h). set (box_lines b)) = {l. is_line w h l}"
    using set_grid_lines [of w h] by (simp add: grid_lines_def)
  have dom: "?t (local_slot l) = None \<longleftrightarrow> \<not> is_line w h l"
    unfolding local_construct_def foldl_local_create_cell_dom U by (auto simp: local_slot_inj)
  have ok: "\<forall>s obj. ?t s = Some obj \<longrightarrow> local_slot (ll_line obj) = s"
    unfolding local_construct_def by (rule slots_ok_foldl_create_cell) simp
  show ?thesis
  proof (cases "?t (local_slot l)")
    case None
    then show ?thesis using dom by simp
  next
    case (Some obj)
    then have "ll_line obj = l" using ok local_slot_inj by blast
    moreover have "ll_listeners obj = build_listeners w h l"
      using Some local_listeners_eq [of w h] unfolding local_listeners_def table_listeners_def
      by (metis option.simps(5))
    ultimately show ?thesis using Some dom by simp
  qed
qed

text \<open>
  C40: On a board with at least one box, both pages draw a dot on every
  grid point other than the bottom-right corner, and on the corner
  \<open>(w, h)\<close> exactly when \<open>w = h\<close> or \<open>w = h + 1\<close>: both extra-dot
  branches of either \<open>Line\<close> constructor compare the line's \<open>y\<close> with
  the board's width.
\<close>

theorem corner_dot_rule:
  assumes "0 < w" "0 < h" "i \<le> w" "j \<le> h"
  shows "(SvgDot (px i) (px j) \<in> set (render w h) \<longleftrightarrow> i < w \<or> j < h \<or> w = h \<or> w = Suc h) \<and>
         (SvgDot (px i) (px j) \<in> set (local_render w h) \<longleftrightarrow> i < w \<or> j < h \<or> w = h \<or> w = Suc h)"
  unfolding local_render_eq conj_absorb
proof
  assume "SvgDot (px i) (px j) \<in> set (render w h)"
  then obtain d x y where l: "is_line w h (d, x, y)"
    and p: "(i, j) = (x, y) \<or> (int y = int w - 1 \<and> (if d = H then (i, j) = (Suc x, y) else (i, j) = (x, Suc y)))"
    unfolding dot_in_render by blast
  show "i < w \<or> j < h \<or> w = h \<or> w = Suc h"
  proof (cases d)
    case H
    then show ?thesis using l p assms by (simp split: if_splits) linarith
  next
    case V
    then show ?thesis using l p assms by (simp split: if_splits) linarith
  qed
next
  assume "i < w \<or> j < h \<or> w = h \<or> w = Suc h"
  then consider "i < w" | "j < h" | "w = h" "i = w" "j = h" | "w = Suc h" "i = w" "j = h"
    using assms by linarith
  then show "SvgDot (px i) (px j) \<in> set (render w h)"
  proof cases
    case 1
    then show ?thesis using assms
      unfolding dot_in_render by (intro exI [of _ H] exI [of _ i] exI [of _ j]) simp
  next
    case 2
    then show ?thesis using assms
      unfolding dot_in_render by (intro exI [of _ V] exI [of _ i] exI [of _ j]) simp
  next
    case 3
    then show ?thesis using assms
      unfolding dot_in_render by (intro exI [of _ V] exI [of _ w] exI [of _ "h - 1"]) simp
  next
    case 4
    then show ?thesis using assms
      unfolding dot_in_render by (intro exI [of _ H] exI [of _ "w - 1"] exI [of _ h]) simp
  qed
qed

theorem corner_dot_rule_witness:
  "(0::nat) < 3 \<and> (0::nat) < 1 \<and> (3::nat) \<le> 3 \<and> (1::nat) \<le> 1 \<and>
   SvgDot (px 3) (px 1) \<notin> set (render 3 1) \<and> SvgDot (px 3) (px 1) \<notin> set (local_render 3 1)"
  using corner_dot_rule [of 3 1 3 1] by simp

end
