(* ===== verification/LocalGame.thy ===== *)
theory LocalGame
  imports ClientGame LocalBoard "HOL-Library.Multiset"
begin

text \<open>
  The single-browser game of \<open>src/js/app.js\<close>, an older version of the
  replica in which all players share one mouse.  Here a \<open>Line\<close> or
  \<open>Box\<close> holds a reference to a \<open>Player\<close> object, each player object keeps
  a mutable \<open>score\<close> counter, and at the end \<open>nextTurn\<close> sorts
  \<open>this.players\<close> in place by score.  Since references survive the sort,
  the player objects live in a store (\<open>lg_store\<close>) at addresses and
  \<open>this.players\<close> is a list of addresses.  The listener table is the one
  the page's own constructor builds (\<open>LocalBoard.local_listeners\<close>),
  which is \<open>Grid.build_listeners\<close> (\<open>local_listeners_eq\<close>); the lemmas
  state it in that form.
\<close>

record lplayer =
  lp_name :: string
  lp_color :: string
  lp_score :: int

record lgame =
  lg_width :: nat
  lg_height :: nat
  lg_store :: "addr \<Rightarrow> lplayer"
  lg_players :: "addr list"
  lg_player :: int
  lg_lines :: "line \<Rightarrow> addr option"
  lg_boxes :: "box \<Rightarrow> addr option"
  lg_listeners :: "line \<Rightarrow> box list"
  lg_status :: string

subsection \<open>Operations\<close>

text \<open>\<open>new Player({ name, color })\<close>.\<close>

definition new_Player :: "player_info \<Rightarrow> lplayer" where
  "new_Player i = \<lparr>lp_name = name i, lp_color = color i, lp_score = 0\<rparr>"

text \<open>The default \<open>players\<close> of the \<open>Game\<close> constructor.\<close>

definition DEFAULT_PLAYERS :: "player_info list" where
  "DEFAULT_PLAYERS =
    [\<lparr>name = ''Player One'', color = ''#CCCC00''\<rparr>,
     \<lparr>name = ''Player Two'', color = ''#00CCCC''\<rparr>,
     \<lparr>name = ''Player Three'', color = ''#CC00CC''\<rparr>]"

text \<open>
  Every box of \<open>this.boxes\<close> holds a player (a \<open>Player\<close> object is
  truthy, \<open>null\<close> is not).
\<close>

definition local_all_taken :: "lgame \<Rightarrow> bool" where
  "local_all_taken g \<longleftrightarrow> list_all (\<lambda>b. lg_boxes g b \<noteq> None) (grid_boxes (lg_width g) (lg_height g))"

text \<open>\<open>Game.setStatus\<close>: the status element's \<open>textContent\<close>.\<close>

definition local_setStatus :: "lgame \<Rightarrow> string \<Rightarrow> lgame" where
  "local_setStatus g s = g\<lparr>lg_status := s\<rparr>"

text \<open>
  \<open>Game.nextTurn\<close>.  At the end, \<open>this.players.sort((a, b) => b.score - a.score)\<close>
  reorders the array in place, stably (ECMAScript 2019), by decreasing
  score; \<open>players[0].score\<close> and \<open>players[1].score\<close> throw when the array
  is too short.  Otherwise the turn passes to the next player, whose name
  the status shows.
\<close>

definition local_nextTurn :: "lgame \<Rightarrow> unit js \<times> lgame" where
  "local_nextTurn g =
    (if local_all_taken g then
       (let ps = sort_key (\<lambda>a. - lp_score (lg_store g a)) (lg_players g);
            g1 = g\<lparr>lg_players := ps\<rparr>
        in case (js_nth ps 0, js_nth ps 1) of
             (Some a, Some b) \<Rightarrow>
               (Inr (), local_setStatus g1
                  (if lp_score (lg_store g a) > lp_score (lg_store g b)
                   then lp_name (lg_store g a) @ '' has won!'' else ''It's a tie!''))
           | _ \<Rightarrow> (Inl TypeError, g1))
     else
       (let g1 = g\<lparr>lg_player := next_index (lg_player g) (length (lg_players g))\<rparr>
        in case js_nth (lg_players g1) (lg_player g1) of
             None \<Rightarrow> (Inl TypeError, g1)
           | Some a \<Rightarrow> (Inr (), local_setStatus g1 (''It's your turn, '' @ lp_name (lg_store g a) @ ''!''))))"

text \<open>The guard of \<open>Box.onLineClick\<close>: its left, top, right and bottom lines hold a player.\<close>

definition local_box_closed :: "lgame \<Rightarrow> box \<Rightarrow> bool" where
  "local_box_closed g b \<longleftrightarrow> list_all (\<lambda>l. lg_lines g l \<noteq> None) (box_lines b)"

text \<open>
  \<open>Box.onLineClick({ player })\<close>: a closed box takes the player and
  \<open>this.player.score++\<close> counts it (a \<open>TypeError\<close> on an undefined player).
  The box does not test whether it already has a player.
\<close>

definition local_onLineClick :: "lgame \<Rightarrow> box \<Rightarrow> addr option \<Rightarrow> unit js \<times> lgame" where
  "local_onLineClick g b p =
    (if local_box_closed g b then
       (let g1 = g\<lparr>lg_boxes := (lg_boxes g)(b := p)\<rparr>
        in case p of
             None \<Rightarrow> (Inl TypeError, g1)
           | Some a \<Rightarrow>
               (Inr (), g1\<lparr>lg_store := (lg_store g1)(a := (lg_store g1 a)\<lparr>lp_score := lp_score (lg_store g1 a) + 1\<rparr>)\<rparr>))
     else (Inr (), g))"

text \<open>\<open>this.listeners.forEach(listener => listener({ player }))\<close>: every listener runs.\<close>

fun local_forEach :: "lgame \<Rightarrow> box list \<Rightarrow> addr option \<Rightarrow> unit js \<times> lgame" where
  "local_forEach g [] p = (Inr (), g)"
| "local_forEach g (b # bs) p =
    (case local_onLineClick g b p of
       (Inl e, g') \<Rightarrow> (Inl e, g')
     | (Inr _, g') \<Rightarrow> local_forEach g' bs p)"

text \<open>
  \<open>Line.onClick\<close>: a taken line ignores the click; otherwise it takes
  \<open>this.game.players[this.game.player]\<close>, runs its listeners, reads the
  player's colour and passes the turn, whether or not a box was closed.
\<close>

definition local_onClick :: "lgame \<Rightarrow> line \<Rightarrow> unit js \<times> lgame" where
  "local_onClick g l =
    (if lg_lines g l \<noteq> None then (Inr (), g)
     else
       (let p = js_nth (lg_players g) (lg_player g);
            g1 = g\<lparr>lg_lines := (lg_lines g)(l := p)\<rparr>
        in case local_forEach g1 (lg_listeners g1 l) p of
             (Inl e, g2) \<Rightarrow> (Inl e, g2)
           | (Inr _, g2) \<Rightarrow> (case p of None \<Rightarrow> (Inl TypeError, g2) | Some _ \<Rightarrow> local_nextTurn g2)))"

text \<open>
  The \<open>Game\<close> constructor: one player object per entry of \<open>players\<close> (at
  addresses \<open>0, 1, ...\<close>), \<open>this.player = -1\<close>, the lines and boxes of the
  grid with their listeners, then \<open>this.nextTurn()\<close>.  The status element
  starts empty.
\<close>

definition local_Game :: "nat \<Rightarrow> nat \<Rightarrow> player_info list \<Rightarrow> unit js \<times> lgame" where
  "local_Game w h ps =
    local_nextTurn
      \<lparr>lg_width = w, lg_height = h,
       lg_store = (\<lambda>a. new_Player (if a < length ps then ps ! a else \<lparr>name = [], color = []\<rparr>)),
       lg_players = [0..<length ps], lg_player = -1,
       lg_lines = (\<lambda>_. None), lg_boxes = (\<lambda>_. None),
       lg_listeners = local_listeners w h, lg_status = []\<rparr>"

text \<open>
  The games a page reaches: the constructor returned, then clicks on lines
  of the grid, one at a time (each click is one browser event; a click
  that throws leaves its partial updates, and the page keeps running).
\<close>

inductive local_reach :: "nat \<Rightarrow> nat \<Rightarrow> player_info list \<Rightarrow> lgame \<Rightarrow> bool"
  for w h ps where
  start: "local_Game w h ps = (Inr (), g) \<Longrightarrow> local_reach w h ps g"
| click: "local_reach w h ps g \<Longrightarrow> is_line w h l \<Longrightarrow> local_reach w h ps (snd (local_onClick g l))"

text \<open>A sequence of clicks.\<close>

fun local_clicks :: "lgame \<Rightarrow> line list \<Rightarrow> lgame" where
  "local_clicks g [] = g"
| "local_clicks g (l # ls) = local_clicks (snd (local_onClick g l)) ls"

subsection \<open>Auxiliary notions\<close>

text \<open>
  The invariant of a game built for \<open>n\<close> players on a \<open>w\<close> by \<open>h\<close> grid:
  \<open>this.players\<close> is a permutation of the player objects, \<open>this.player\<close>
  is \<open>-1\<close> only on an empty grid, a box holds a player exactly when its four
  lines do, and each player's \<open>score\<close> counter is the number of boxes it
  holds.
\<close>

definition local_inv :: "nat \<Rightarrow> nat \<Rightarrow> nat \<Rightarrow> lgame \<Rightarrow> bool" where
  "local_inv w h n g \<longleftrightarrow>
     0 < n \<and> lg_width g = w \<and> lg_height g = h \<and> lg_listeners g = build_listeners w h \<and>
     mset (lg_players g) = mset [0..<n] \<and>
     -1 \<le> lg_player g \<and> lg_player g < int n \<and> (0 < w \<and> 0 < h \<longrightarrow> 0 \<le> lg_player g) \<and>
     (\<forall>l a. lg_lines g l = Some a \<longrightarrow> a < n) \<and>
     (\<forall>b. lg_boxes g b \<noteq> None \<longleftrightarrow> b \<in> set (grid_boxes w h) \<and> local_box_closed g b) \<and>
     (\<forall>b a. lg_boxes g b = Some a \<longrightarrow> a < n) \<and>
     (\<forall>a<n. lp_score (lg_store g a) = int (length (filter (\<lambda>b. lg_boxes g b = Some a) (grid_boxes w h))))"

text \<open>The lines of the grid no click has drawn yet: the measure that bounds a game.\<close>

definition local_free_lines :: "lgame \<Rightarrow> line list" where
  "local_free_lines g = filter (\<lambda>l. lg_lines g l = None) (remdups (grid_lines (lg_width g) (lg_height g)))"

subsection \<open>Frame and evaluation lemmas\<close>

lemma local_box_closed_cong:
  "lg_lines g' = lg_lines g \<Longrightarrow> local_box_closed g' = local_box_closed g"
  by (rule ext) (simp add: local_box_closed_def)

lemma local_forEach_Some:
  "local_forEach g bs (Some a) =
     (Inr (), g\<lparr>lg_boxes := (\<lambda>b. if b \<in> set bs \<and> local_box_closed g b then Some a else lg_boxes g b),
               lg_store := (lg_store g)(a := (lg_store g a)\<lparr>lp_score :=
                  lp_score (lg_store g a) + int (length (filter (local_box_closed g) bs))\<rparr>)\<rparr>)"
proof (induction bs arbitrary: g)
  case Nil
  then show ?case by (simp add: fun_eq_iff)
next
  case (Cons b bs)
  show ?case
  proof (cases "local_box_closed g b")
    case True
    let ?g1 = "g\<lparr>lg_boxes := (lg_boxes g)(b := Some a),
                 lg_store := (lg_store g)(a := (lg_store g a)\<lparr>lp_score := lp_score (lg_store g a) + 1\<rparr>)\<rparr>"
    have c: "local_box_closed ?g1 = local_box_closed g" by (rule local_box_closed_cong) simp
    have "local_forEach g (b # bs) (Some a) = local_forEach ?g1 bs (Some a)"
      using True by (simp add: local_onLineClick_def)
    with True show ?thesis by (simp add: Cons c fun_eq_iff)
  next
    case False
    then have "(\<lambda>c. if c \<in> set bs \<and> local_box_closed g c then Some a else lg_boxes g c) =
        (\<lambda>c. if c \<in> set (b # bs) \<and> local_box_closed g c then Some a else lg_boxes g c)"
      by (auto simp: fun_eq_iff)
    with False show ?thesis by (simp add: local_onLineClick_def Cons)
  qed
qed

lemma local_forEach_unclosed:
  "\<forall>b\<in>set bs. \<not> local_box_closed g b \<Longrightarrow> local_forEach g bs p = (Inr (), g)"
  by (induction bs) (simp_all add: local_onLineClick_def)

lemma local_nextTurn_frame:
  "lg_lines (snd (local_nextTurn g)) = lg_lines g"
  "lg_boxes (snd (local_nextTurn g)) = lg_boxes g"
  "lg_store (snd (local_nextTurn g)) = lg_store g"
  "lg_width (snd (local_nextTurn g)) = lg_width g"
  "lg_height (snd (local_nextTurn g)) = lg_height g"
  "lg_listeners (snd (local_nextTurn g)) = lg_listeners g"
  "mset (lg_players (snd (local_nextTurn g))) = mset (lg_players g)"
  by (auto simp: local_nextTurn_def local_setStatus_def Let_def split: option.splits)

lemma local_nextTurn_player:
  "lg_player (snd (local_nextTurn g)) =
     (if local_all_taken g then lg_player g else next_index (lg_player g) (length (lg_players g)))"
  by (auto simp: local_nextTurn_def local_setStatus_def Let_def split: option.splits)

lemma next_index_range:
  "-1 \<le> p \<Longrightarrow> p < int n \<Longrightarrow> 0 < n \<Longrightarrow> 0 \<le> next_index p n \<and> next_index p n < int n"
  by (simp add: next_index_def)

lemma local_inv_nextTurn:
  assumes "local_inv w h n g"
  shows "local_inv w h n (snd (local_nextTurn g))"
proof -
  have c: "local_box_closed (snd (local_nextTurn g)) = local_box_closed g"
    by (rule local_box_closed_cong) (simp add: local_nextTurn_frame)
  have "length (lg_players g) = n"
    using assms by (metis local_inv_def length_upt minus_nat.diff_0 size_mset)
  then show ?thesis
    using assms next_index_range [of "lg_player g" n]
    by (simp add: local_inv_def local_nextTurn_frame local_nextTurn_player c)
qed

lemma local_closed_after_draw:
  "local_box_closed (g\<lparr>lg_lines := (lg_lines g)(l := p)\<rparr>) b =
     (if l \<in> set (box_lines b) then p \<noteq> None \<and> list_all (\<lambda>l'. l' = l \<or> lg_lines g l' \<noteq> None) (box_lines b)
      else local_box_closed g b)"
  by (auto simp: local_box_closed_def list_all_iff)

lemma local_not_closed_undrawn:
  "l \<in> set (box_lines b) \<Longrightarrow> lg_lines g l = None \<Longrightarrow> \<not> local_box_closed g b"
  by (auto simp: local_box_closed_def list_all_iff)

lemma local_inv_draw:
  assumes inv: "local_inv w h n g" and free: "lg_lines g l = None" and an: "a < n"
  defines "g1 \<equiv> g\<lparr>lg_lines := (lg_lines g)(l := Some a)\<rparr>"
  shows "local_inv w h n (snd (local_forEach g1 (build_listeners w h l) (Some a)))"
proof -
  let ?L = "build_listeners w h l" and ?G = "grid_boxes w h"
  let ?new = "\<lambda>b. b \<in> set ?L \<and> local_box_closed g1 b"
  have L: "b \<in> set ?L \<longleftrightarrow> b \<in> set ?G \<and> l \<in> set (box_lines b)" for b
    by (rule listener_iff_bounding_line)
  have c1: "local_box_closed g1 b = local_box_closed g b" if "l \<notin> set (box_lines b)" for b
    using that by (simp add: g1_def local_closed_after_draw)
  have c0: "\<not> local_box_closed g b" if "l \<in> set (box_lines b)" for b
    using that free by (rule local_not_closed_undrawn)
  have boxes: "lg_boxes g b \<noteq> None \<longleftrightarrow> b \<in> set ?G \<and> local_box_closed g b" for b
    using inv unfolding local_inv_def by blast
  have fresh: "lg_boxes g b = None" if "?new b" for b
    using that boxes [of b] c0 L by blast
  have closed_iff: "(?new b \<or> lg_boxes g b \<noteq> None) \<longleftrightarrow> b \<in> set ?G \<and> local_box_closed g1 b" for b
    using boxes [of b] c0 [of b] c1 [of b] L [of b] by blast
  have count_new: "length (filter ?new ?G) = length (filter (local_box_closed g1) ?L)"
    by (simp add: build_listeners_filter filter_filter L conj_commute cong: filter_cong)
  have score: "length (filter (\<lambda>b. (if ?new b then Some a else lg_boxes g b) = Some c) ?G) =
      length (filter (\<lambda>b. lg_boxes g b = Some c) ?G) + (if c = a then length (filter ?new ?G) else 0)" for c
  proof (cases "c = a")
    case True
    have "length (filter (\<lambda>b. (if ?new b then Some a else lg_boxes g b) = Some c) ?G) =
        length (filter (\<lambda>b. ?new b \<or> lg_boxes g b = Some a) ?G)"
      using True by (intro arg_cong [where f = length] filter_cong) auto
    also have "\<dots> = length (filter ?new ?G) + length (filter (\<lambda>b. lg_boxes g b = Some a) ?G)"
      using fresh by (intro length_filter_disj) auto
    finally show ?thesis using True by simp
  next
    case False
    then have "filter (\<lambda>b. (if ?new b then Some a else lg_boxes g b) = Some c) ?G =
        filter (\<lambda>b. lg_boxes g b = Some c) ?G"
      using fresh by (intro filter_cong) auto
    with False show ?thesis by simp
  qed
  define R where "R = snd (local_forEach g1 ?L (Some a))"
  have closed_R: "local_box_closed R = local_box_closed g1"
    by (rule local_box_closed_cong) (simp add: R_def local_forEach_Some)
  have R_boxes: "lg_boxes R b = (if ?new b then Some a else lg_boxes g b)" for b
    by (simp add: R_def local_forEach_Some g1_def)
  have R_score: "lp_score (lg_store R c) =
      lp_score (lg_store g c) + (if c = a then int (length (filter (local_box_closed g1) ?L)) else 0)" for c
    by (simp add: R_def local_forEach_Some g1_def)
  have fr: "lg_width R = w" "lg_height R = h" "lg_listeners R = build_listeners w h"
      "lg_players R = lg_players g" "lg_player R = lg_player g"
    using inv by (simp_all add: R_def local_forEach_Some g1_def local_inv_def)
  have i1: "\<forall>b. lg_boxes R b \<noteq> None \<longleftrightarrow> b \<in> set ?G \<and> local_box_closed R b"
  proof
    fix b
    show "lg_boxes R b \<noteq> None \<longleftrightarrow> b \<in> set ?G \<and> local_box_closed R b"
      using closed_iff [of b] L [of b] unfolding R_boxes closed_R by (cases "?new b"; simp; blast)
  qed
  have i2: "\<forall>b c. lg_boxes R b = Some c \<longrightarrow> c < n"
    using inv an unfolding R_boxes local_inv_def by auto
  have i3: "\<forall>c<n. lp_score (lg_store R c) = int (length (filter (\<lambda>b. lg_boxes R b = Some c) ?G))"
    using inv score count_new unfolding R_boxes R_score local_inv_def by auto
  have i4: "\<forall>l' c. lg_lines R l' = Some c \<longrightarrow> c < n"
    using inv an by (simp add: R_def local_forEach_Some g1_def local_inv_def)
  show ?thesis
    using inv i1 i2 i3 i4 unfolding R_def [symmetric] local_inv_def by (simp only: fr) blast
qed

lemma local_inv_players:
  "local_inv w h n g \<Longrightarrow> set (lg_players g) = {..<n} \<and> distinct (lg_players g) \<and> length (lg_players g) = n"
proof -
  assume "local_inv w h n g"
  then have m: "mset (lg_players g) = mset [0..<n]" by (simp add: local_inv_def)
  show ?thesis
    using mset_eq_setD [OF m] mset_eq_length [OF m] mset_eq_imp_distinct_iff [OF m]
    by (simp add: atLeast_upt)
qed

lemma local_onClick_undefined:
  assumes free: "lg_lines g l = None" and None: "js_nth (lg_players g) (lg_player g) = None"
    and fe: "\<forall>b\<in>set (lg_listeners g l). \<not> local_box_closed g b"
  shows "local_onClick g l = (Inl TypeError, g)"
proof -
  have g1: "g\<lparr>lg_lines := (lg_lines g)(l := None)\<rparr> = g"
    using free by (simp add: fun_upd_idem)
  show ?thesis
    by (simp add: local_onClick_def free None g1 local_forEach_unclosed [OF fe])
qed

lemma local_onClick_draw:
  assumes free: "lg_lines g l = None" and p: "js_nth (lg_players g) (lg_player g) = Some a"
  shows "local_onClick g l =
    local_nextTurn (snd (local_forEach (g\<lparr>lg_lines := (lg_lines g)(l := Some a)\<rparr>) (lg_listeners g l) (Some a)))"
  by (simp add: local_onClick_def Let_def free p local_forEach_Some)

lemma local_inv_click:
  assumes inv: "local_inv w h n g"
  shows "local_inv w h n (snd (local_onClick g l))"
proof (cases "lg_lines g l = None")
  case False
  then show ?thesis using inv by (simp add: local_onClick_def)
next
  case free: True
  have L: "lg_listeners g = build_listeners w h" using inv by (simp add: local_inv_def)
  show ?thesis
  proof (cases "js_nth (lg_players g) (lg_player g)")
    case None
    have "\<forall>b\<in>set (lg_listeners g l). \<not> local_box_closed g b"
    proof
      fix b assume "b \<in> set (lg_listeners g l)"
      then have "l \<in> set (box_lines b)" by (simp add: L listener_iff_bounding_line)
      then show "\<not> local_box_closed g b" using free by (rule local_not_closed_undrawn)
    qed
    then show ?thesis using inv by (simp add: local_onClick_undefined [OF free None])
  next
    case (Some a)
    then have "a \<in> set (lg_players g)"
      by (auto simp: js_nth_Some_iff)
    then have "a < n"
      using local_inv_players [OF inv] by blast
    then have "local_inv w h n (snd (local_forEach (g\<lparr>lg_lines := (lg_lines g)(l := Some a)\<rparr>)
                 (build_listeners w h l) (Some a)))"
      by (rule local_inv_draw [OF inv free])
    then show ?thesis
      unfolding local_onClick_draw [OF free Some] L by (rule local_inv_nextTurn)
  qed
qed

subsection \<open>Every reachable game satisfies the invariant\<close>

lemma local_box_lines_undrawn:
  "lg_lines g = (\<lambda>_. None) \<Longrightarrow> \<not> local_box_closed g b"
  by (simp add: local_box_closed_def box_lines_def)

lemma local_inv_start:
  assumes start: "local_Game w h ps = (Inr (), g)"
  shows "local_inv w h (length ps) g"
proof -
  let ?n = "length ps"
  define g0 where "g0 =
      \<lparr>lg_width = w, lg_height = h,
       lg_store = (\<lambda>a. new_Player (if a < length ps then ps ! a else \<lparr>name = [], color = []\<rparr>)),
       lg_players = [0..<length ps], lg_player = -1,
       lg_lines = (\<lambda>_. None), lg_boxes = (\<lambda>_. None),
       lg_listeners = build_listeners w h, lg_status = []\<rparr>"
  have ng: "local_nextTurn g0 = (Inr (), g)"
    using start by (simp add: local_Game_def g0_def)
  have n: "0 < ?n"
  proof (rule ccontr)
    assume "\<not> 0 < ?n"
    then have "fst (local_nextTurn g0) \<noteq> Inr ()"
      by (simp add: local_nextTurn_def local_setStatus_def Let_def g0_def js_nth_def)
    with ng show False by simp
  qed
  have g: "g = snd (local_nextTurn g0)" using ng by simp
  have taken: "local_all_taken g0 \<longleftrightarrow> w = 0 \<or> h = 0"
    unfolding grid_boxes_empty_iff [symmetric]
    by (cases "grid_boxes w h") (simp_all add: local_all_taken_def g0_def)
  have closed: "\<not> local_box_closed g b" for b
    by (rule local_box_lines_undrawn) (simp add: g local_nextTurn_frame g0_def)
  have player: "lg_player g = (if w = 0 \<or> h = 0 then -1 else 0)"
    unfolding g local_nextTurn_player taken using n by (simp add: g0_def next_index_def)
  have fr: "lg_width g = w" "lg_height g = h" "lg_listeners g = build_listeners w h"
      "lg_boxes g = (\<lambda>_. None)" "lg_lines g = (\<lambda>_. None)"
      "mset (lg_players g) = mset [0..<?n]" "lp_score (lg_store g a) = 0" for a
    by (simp_all add: g local_nextTurn_frame g0_def new_Player_def)
  show ?thesis
    using n unfolding local_inv_def by (simp add: player closed fr)
qed

lemma local_reach_inv:
  "local_reach w h ps g \<Longrightarrow> local_inv w h (length ps) g"
  by (induction rule: local_reach.induct) (simp_all add: local_inv_start local_inv_click)

lemma local_reach_clicks:
  "local_reach w h ps g \<Longrightarrow> list_all (is_line w h) ls \<Longrightarrow> local_reach w h ps (local_clicks g ls)"
  by (induction g ls rule: local_clicks.induct) (simp_all add: local_reach.click)

lemma local_inv_current:
  assumes "local_inv w h n g" "is_line w h l"
  obtains a where "js_nth (lg_players g) (lg_player g) = Some a" "a < n"
proof -
  have "0 < w" "0 < h" using assms(2) by (cases l; auto elim: is_line.elims)+
  with assms(1) have "0 \<le> lg_player g" "lg_player g < int n" by (simp_all add: local_inv_def)
  moreover have "set (lg_players g) = {..<n}" "length (lg_players g) = n"
    using local_inv_players [OF assms(1)] by simp_all
  ultimately show ?thesis
    using that by (metis js_nth_Some_iff lessThan_iff nat_less_iff nth_mem)
qed

lemma local_nextTurn_all_taken:
  "local_all_taken (snd (local_nextTurn g)) = local_all_taken g"
  by (simp add: local_all_taken_def local_nextTurn_frame)

lemma local_onClick_lines:
  assumes "local_inv w h n g" "is_line w h l"
  shows "lg_lines (snd (local_onClick g l)) l \<noteq> None \<and>
         (\<forall>l'. lg_lines g l' \<noteq> None \<longrightarrow> lg_lines (snd (local_onClick g l)) l' = lg_lines g l')"
proof (cases "lg_lines g l = None")
  case True
  obtain a where a: "js_nth (lg_players g) (lg_player g) = Some a" "a < n"
    using local_inv_current [OF assms] .
  show ?thesis
    using True by (simp add: local_onClick_draw [OF True a(1)] local_nextTurn_frame local_forEach_Some)
qed (simp add: local_onClick_def)

lemma local_clicks_drawn:
  assumes "local_reach w h ps g" "list_all (is_line w h) ls"
  shows "\<forall>l. (l \<in> set ls \<or> lg_lines g l \<noteq> None) \<longrightarrow> lg_lines (local_clicks g ls) l \<noteq> None"
  using assms
proof (induction g ls rule: local_clicks.induct)
  case (1 g)
  then show ?case by simp
next
  case (2 g l ls)
  have inv: "local_inv w h (length ps) g" using 2(2) by (rule local_reach_inv)
  have l: "is_line w h l" using 2(3) by simp
  have step: "lg_lines (snd (local_onClick g l)) l' \<noteq> None"
    if "l' = l \<or> lg_lines g l' \<noteq> None" for l'
    using local_onClick_lines [OF inv l] that by metis
  have "local_reach w h ps (snd (local_onClick g l))"
    using 2(2,3) by (simp add: local_reach.click)
  with 2 step show ?case by auto
qed

lemma local_inv_boxes:
  "local_inv w h n g \<Longrightarrow> lg_boxes g b \<noteq> None \<longleftrightarrow> b \<in> set (grid_boxes w h) \<and> local_box_closed g b"
  unfolding local_inv_def by blast

lemma local_inv_owner:
  "local_inv w h n g \<Longrightarrow> lg_boxes g b = Some a \<Longrightarrow> a < n"
  unfolding local_inv_def by blast

lemma local_nextTurn_returns:
  assumes inv: "local_inv w h n g" and two: "2 \<le> n"
  shows "fst (local_nextTurn g) = Inr ()"
proof -
  have len: "length (lg_players g) = n" using local_inv_players [OF inv] by simp
  have r: "-1 \<le> lg_player g" "lg_player g < int n" using inv by (simp_all add: local_inv_def)
  show ?thesis
  proof (cases "local_all_taken g")
    case True
    let ?s = "sort_key (\<lambda>a. - lp_score (lg_store g a)) (lg_players g)"
    have "length ?s = n" by (simp add: len)
    then have "?s \<noteq> []" "1 < length ?s" using two by (metis list.size(3) not_numeral_le_zero, simp)
    then show ?thesis using True by (simp add: local_nextTurn_def local_setStatus_def Let_def js_nth_def)
  next
    case False
    have "0 \<le> next_index (lg_player g) n" "next_index (lg_player g) n < int n"
      using next_index_range [OF r] two by simp_all
    then show ?thesis using False len by (simp add: local_nextTurn_def local_setStatus_def Let_def js_nth_def)
  qed
qed

lemma sort_key_top_two:
  fixes f :: "'a \<Rightarrow> int"
  assumes d: "distinct xs" and s: "sort_key (\<lambda>a. - f a) xs = a0 # a1 # rest"
  shows "find (\<lambda>a. \<forall>b\<in>set xs. b \<noteq> a \<longrightarrow> f b < f a) xs = (if f a1 < f a0 then Some a0 else None)"
proof -
  let ?P = "\<lambda>a. \<forall>b\<in>set xs. b \<noteq> a \<longrightarrow> f b < f a"
  have set: "set xs = insert a0 (insert a1 (set rest))"
    using s by (metis list.simps(15) set_sort)
  have "distinct (a0 # a1 # rest)" using s d by (metis distinct_sort)
  then have ne: "a0 \<noteq> a1" by simp
  have "sorted (map (\<lambda>a. - f a) (a0 # a1 # rest))" using s by (metis sorted_sort_key)
  then have le: "f a1 \<le> f a0" "\<forall>b\<in>set rest. f b \<le> f a1"
    by auto
  then have top: "\<forall>b\<in>set xs. f b \<le> f a0" using set by auto
  show ?thesis
  proof (cases "f a1 < f a0")
    case True
    have "\<forall>a\<in>set xs. ?P a \<longleftrightarrow> a = a0"
    proof
      fix a assume a: "a \<in> set xs"
      show "?P a \<longleftrightarrow> a = a0"
      proof
        assume "?P a"
        then show "a = a0" using top a set by (metis insertI1 not_le)
      next
        assume "a = a0"
        then show "?P a" using True le set by auto
      qed
    qed
    then show ?thesis using True set by (simp add: find_unique)
  next
    case False
    have "\<not> ?P a" if "a \<in> set xs" for a
    proof (cases "a = a0")
      case True
      then show ?thesis using False ne set by auto
    next
      case False
      then show ?thesis using top that set by (metis insertI1 not_le)
    qed
    then show ?thesis using False by (simp add: find_None_iff)
  qed
qed

lemma local_reach_Game:
  "fst (local_Game w h ps) = Inr () \<Longrightarrow> local_reach w h ps (snd (local_Game w h ps))"
  by (rule local_reach.start) (metis prod.collapse)

lemma local_reach_demo:
  "list_all (is_line 2 1) ls \<Longrightarrow>
   local_reach 2 1 (take 2 DEFAULT_PLAYERS) (local_clicks (snd (local_Game 2 1 (take 2 DEFAULT_PLAYERS))) ls)"
proof -
  have "fst (local_Game 2 1 (take 2 DEFAULT_PLAYERS)) = Inr ()" by code_simp
  moreover assume "list_all (is_line 2 1) ls"
  ultimately show ?thesis by (intro local_reach_clicks local_reach_Game)
qed

lemma local_drawn_box_owned:
  assumes "local_inv w h n g" "b \<in> set (grid_boxes w h)" "\<forall>l\<in>set (box_lines b). lg_lines g l \<noteq> None"
  shows "lg_boxes g b \<noteq> None"
proof -
  have "local_box_closed g b" using assms(3) by (simp add: local_box_closed_def list_all_iff)
  with local_inv_boxes [OF assms(1), of b] assms(2) show ?thesis by blast
qed

lemma local_drawn_all_taken:
  assumes inv: "local_inv w h n g" and drawn: "\<forall>l\<in>set (grid_lines w h). lg_lines g l \<noteq> None"
  shows "local_all_taken g"
proof -
  have "lg_boxes g b \<noteq> None" if "b \<in> set (grid_boxes w h)" for b
    using drawn that by (intro local_drawn_box_owned [OF inv that]) (auto simp: grid_lines_def)
  with inv show ?thesis unfolding local_inv_def local_all_taken_def list_all_iff by simp
qed

lemma local_nextTurn_players:
  "\<not> local_all_taken g \<Longrightarrow> lg_players (snd (local_nextTurn g)) = lg_players g"
  by (auto simp: local_nextTurn_def local_setStatus_def Let_def split: option.splits)

lemma local_free_not_all_taken:
  assumes inv: "local_inv w h n g" and l: "is_line w h l" and free: "lg_lines g l = None"
  shows "\<not> local_all_taken g"
proof
  assume all: "local_all_taken g"
  obtain b where b: "b \<in> set (adjacent_boxes w h l)"
    using adjacent_boxes_nonempty [OF l] last_in_set by blast
  then have bg: "b \<in> set (grid_boxes w h)" and bl: "l \<in> set (box_lines b)"
    using listener_iff_bounding_line [of b w h l] by (simp_all add: build_listeners_closed_form)
  have "lg_boxes g b \<noteq> None"
    using all bg inv by (simp add: local_all_taken_def list_all_iff local_inv_def)
  then have "local_box_closed g b" using local_inv_boxes [OF inv] by blast
  with local_not_closed_undrawn [OF bl free] show False by contradiction
qed

lemma local_forEach_names:
  "lp_name (lg_store (snd (local_forEach g bs p)) a) = lp_name (lg_store g a)"
  by (induction g bs p rule: local_forEach.induct)
     (auto simp: local_onLineClick_def Let_def split: option.splits sum.splits prod.splits)

lemma local_onClick_names:
  "lp_name (lg_store (snd (local_onClick g l)) a) = lp_name (lg_store g a)"
proof (cases "lg_lines g l = None")
  case True
  let ?p = "js_nth (lg_players g) (lg_player g)" and ?g1 = "g\<lparr>lg_lines := (lg_lines g)(l := js_nth (lg_players g) (lg_player g))\<rparr>"
  obtain r g2 where fe: "local_forEach ?g1 (lg_listeners ?g1 l) ?p = (r, g2)" by fastforce
  have "lp_name (lg_store g2 a) = lp_name (lg_store g a)"
    using local_forEach_names [of ?g1 "lg_listeners ?g1 l" ?p a] fe by simp
  then show ?thesis using True fe
    by (auto simp: local_onClick_def Let_def local_nextTurn_frame split: option.splits sum.splits)
qed (simp add: local_onClick_def)

lemma local_reach_names:
  "local_reach w h ps g \<Longrightarrow> a < length ps \<Longrightarrow> lp_name (lg_store g a) = name (ps ! a)"
  by (induction rule: local_reach.induct)
     (auto simp: local_Game_def local_nextTurn_frame new_Player_def local_onClick_names
      dest!: arg_cong [where f = snd])

lemma local_reach_players:
  "local_reach w h ps g \<Longrightarrow> local_all_taken g \<or> lg_players g = [0..<length ps]"
proof (induction rule: local_reach.induct)
  case (start g)
  define g0 where "g0 =
      \<lparr>lg_width = w, lg_height = h,
       lg_store = (\<lambda>a. new_Player (if a < length ps then ps ! a else \<lparr>name = [], color = []\<rparr>)),
       lg_players = [0..<length ps], lg_player = -1,
       lg_lines = (\<lambda>_. None), lg_boxes = (\<lambda>_. None),
       lg_listeners = build_listeners w h, lg_status = []\<rparr>"
  have g: "g = snd (local_nextTurn g0)"
    using start by (simp add: local_Game_def g0_def)
  show ?case
  proof (cases "local_all_taken g0")
    case True
    then show ?thesis by (simp add: g local_nextTurn_all_taken)
  next
    case False
    then have "lg_players g = lg_players g0" by (simp add: g local_nextTurn_players)
    then show ?thesis by (simp add: g0_def)
  qed
next
  case (click g l)
  have inv: "local_inv w h (length ps) g" using click(1) by (rule local_reach_inv)
  show ?case
  proof (cases "lg_lines g l = None")
    case free: True
    have "\<not> local_all_taken g" by (rule local_free_not_all_taken [OF inv click(2) free])
    with click(3) have ps: "lg_players g = [0..<length ps]" by simp
    obtain a where a: "js_nth (lg_players g) (lg_player g) = Some a" "a < length ps"
      using local_inv_current [OF inv click(2)] .
    show ?thesis
      unfolding local_onClick_draw [OF free a(1)]
      by (cases "local_all_taken (snd (local_forEach (g\<lparr>lg_lines := (lg_lines g)(l := Some a)\<rparr>) (lg_listeners g l) (Some a)))")
         (simp_all add: local_nextTurn_all_taken local_nextTurn_players local_forEach_Some ps)
  next
    case False
    then show ?thesis using click(3) by (simp add: local_onClick_def)
  qed
qed

lemma local_inv_score:
  "local_inv w h n g \<Longrightarrow> a < n \<Longrightarrow>
   lp_score (lg_store g a) = int (length (filter (\<lambda>b. lg_boxes g b = Some a) (grid_boxes w h)))"
  by (simp add: local_inv_def)

lemma local_nextTurn_end:
  assumes "distinct (lg_players g)" "2 \<le> length (lg_players g)" "local_all_taken g"
  shows "local_nextTurn g =
    (Inr (), g\<lparr>lg_players := sort_key (\<lambda>a. - lp_score (lg_store g a)) (lg_players g),
               lg_status :=
                 (case find (\<lambda>a. \<forall>b\<in>set (lg_players g). b \<noteq> a \<longrightarrow>
                                  lp_score (lg_store g b) < lp_score (lg_store g a)) (lg_players g) of
                    Some a \<Rightarrow> lp_name (lg_store g a) @ '' has won!''
                  | None \<Rightarrow> ''It's a tie!'')\<rparr>)"
proof -
  let ?s = "sort_key (\<lambda>a. - lp_score (lg_store g a)) (lg_players g)"
  have "length ?s = length (lg_players g)" by simp
  then obtain a0 a1 rest where s: "?s = a0 # a1 # rest"
    using assms(2) by (metis Suc_le_length_iff numeral_2_eq_2)
  show ?thesis
    using assms(3) sort_key_top_two [OF assms(1) s] s
    by (simp add: local_nextTurn_def local_setStatus_def Let_def js_nth_def)
qed

subsection \<open>Properties\<close>

text \<open>
  C27: The score counter of the standalone game never drifts from the
  board: in every game reachable by clicks, each player's \<open>score\<close> is the
  number of boxes it holds, double-box moves included (\<open>forEach\<close> runs
  every listener).
\<close>

theorem local_score_counts_boxes:
  "local_reach w h ps g \<Longrightarrow> a < length ps \<Longrightarrow>
   lp_score (lg_store g a) = int (length (filter (\<lambda>b. lg_boxes g b = Some a) (grid_boxes w h)))"
  by (rule local_inv_score [OF local_reach_inv])

theorem local_score_counts_boxes_witness:
  "local_reach 2 1 (take 2 DEFAULT_PLAYERS)
     (local_clicks (snd (local_Game 2 1 (take 2 DEFAULT_PLAYERS)))
        [(H,0,0),(H,0,1),(V,0,0),(H,1,0),(H,1,1),(V,2,0),(V,1,0)]) \<and>
   (0::nat) < length (take 2 DEFAULT_PLAYERS) \<and>
   lp_score (lg_store (local_clicks (snd (local_Game 2 1 (take 2 DEFAULT_PLAYERS)))
        [(H,0,0),(H,0,1),(V,0,0),(H,1,0),(H,1,1),(V,2,0),(V,1,0)]) 0) = 2 \<and>
   lp_score (lg_store (local_clicks (snd (local_Game 2 1 (take 2 DEFAULT_PLAYERS)))
        [(H,0,0),(H,0,1),(V,0,0),(H,1,0),(H,1,1),(V,2,0),(V,1,0)]) 0) =
   int (length (filter (\<lambda>b. lg_boxes (local_clicks (snd (local_Game 2 1 (take 2 DEFAULT_PLAYERS)))
        [(H,0,0),(H,0,1),(V,0,0),(H,1,0),(H,1,1),(V,2,0),(V,1,0)]) b = Some 0) (grid_boxes 2 1)))"
proof -
  let ?g = "local_clicks (snd (local_Game 2 1 (take 2 DEFAULT_PLAYERS)))
        [(H,0,0),(H,0,1),(V,0,0),(H,1,0),(H,1,1),(V,2,0),(V,1,0)]"
  have r: "local_reach 2 1 (take 2 DEFAULT_PLAYERS) ?g" by (rule local_reach_demo) code_simp
  have v: "lp_score (lg_store ?g 0) = 2" by code_simp
  have n: "(0::nat) < length (take 2 DEFAULT_PLAYERS)" by code_simp
  show ?thesis using local_score_counts_boxes [OF r n] r v n by simp
qed

text \<open>
  C28: A click on a free line of the standalone game gives the line to the
  player whose turn it is and passes the turn to the next player even when
  the click closed a box: there is no bonus turn (the turn stays only once
  the game is over).
\<close>

theorem local_turn_passes:
  assumes "local_reach w h ps g" "is_line w h l" "lg_lines g l = None"
  shows "lg_lines (snd (local_onClick g l)) l = js_nth (lg_players g) (lg_player g) \<and>
         lg_player (snd (local_onClick g l)) =
           (if local_all_taken (snd (local_onClick g l)) then lg_player g
            else next_index (lg_player g) (length ps))"
proof -
  have inv: "local_inv w h (length ps) g" using assms(1) by (rule local_reach_inv)
  obtain a where a: "js_nth (lg_players g) (lg_player g) = Some a" "a < length ps"
    using local_inv_current [OF inv assms(2)] .
  have len: "length (lg_players g) = length ps" using local_inv_players [OF inv] by simp
  show ?thesis
    unfolding local_onClick_draw [OF assms(3) a(1)] local_nextTurn_all_taken
    by (simp add: local_nextTurn_player local_nextTurn_frame local_forEach_Some a(1) len)
qed

theorem local_turn_passes_witness:
  "local_reach 2 1 (take 2 DEFAULT_PLAYERS)
     (local_clicks (snd (local_Game 2 1 (take 2 DEFAULT_PLAYERS))) [(H,0,0),(H,0,1),(V,0,0)]) \<and>
   is_line 2 1 (V,1,0) \<and>
   lg_lines (local_clicks (snd (local_Game 2 1 (take 2 DEFAULT_PLAYERS))) [(H,0,0),(H,0,1),(V,0,0)]) (V,1,0) = None \<and>
   lg_boxes (local_clicks (snd (local_Game 2 1 (take 2 DEFAULT_PLAYERS))) [(H,0,0),(H,0,1),(V,0,0),(V,1,0)]) (0,0) = Some 1 \<and>
   lg_player (local_clicks (snd (local_Game 2 1 (take 2 DEFAULT_PLAYERS))) [(H,0,0),(H,0,1),(V,0,0)]) = 1 \<and>
   lg_player (local_clicks (snd (local_Game 2 1 (take 2 DEFAULT_PLAYERS))) [(H,0,0),(H,0,1),(V,0,0),(V,1,0)]) = 0"
proof -
  let ?g = "local_clicks (snd (local_Game 2 1 (take 2 DEFAULT_PLAYERS))) [(H,0,0),(H,0,1),(V,0,0)]"
  have r: "local_reach 2 1 (take 2 DEFAULT_PLAYERS) ?g" by (rule local_reach_demo) code_simp
  have l: "is_line 2 1 (V,1,0)" by simp
  have f: "lg_lines ?g (V,1,0) = None" by code_simp
  have p: "lg_player ?g = 1" by code_simp
  have b: "lg_boxes (snd (local_onClick ?g (V,1,0))) (0,0) = Some 1" by code_simp
  have t: "\<not> local_all_taken (snd (local_onClick ?g (V,1,0)))" by code_simp
  have n: "length (take 2 DEFAULT_PLAYERS) = 2" by code_simp
  have "lg_player (snd (local_onClick ?g (V,1,0))) = 0"
    using local_turn_passes [OF r l f] t p n by (simp add: next_index_def)
  moreover have "local_clicks (snd (local_Game 2 1 (take 2 DEFAULT_PLAYERS))) [(H,0,0),(H,0,1),(V,0,0),(V,1,0)] =
      snd (local_onClick ?g (V,1,0))" by simp
  ultimately show ?thesis using r l f p b by simp
qed

text \<open>
  C29: At the end of the standalone game, \<open>nextTurn\<close> sorts the players
  by score and announces the player whose score is strictly greater than
  every other player's, or a tie when the top score is shared.
\<close>

theorem local_winner:
  assumes "distinct (lg_players g)" "2 \<le> length (lg_players g)" "local_all_taken g"
  shows "local_nextTurn g =
    (Inr (), g\<lparr>lg_players := sort_key (\<lambda>a. - lp_score (lg_store g a)) (lg_players g),
               lg_status :=
                 (case find (\<lambda>a. \<forall>b\<in>set (lg_players g). b \<noteq> a \<longrightarrow>
                                  lp_score (lg_store g b) < lp_score (lg_store g a)) (lg_players g) of
                    Some a \<Rightarrow> lp_name (lg_store g a) @ '' has won!''
                  | None \<Rightarrow> ''It's a tie!'')\<rparr>)"
  using assms by (rule local_nextTurn_end)

theorem local_winner_witness:
  "lg_status (snd (local_nextTurn
      \<lparr>lg_width = 2, lg_height = 2,
       lg_store = (\<lambda>a. (new_Player (DEFAULT_PLAYERS ! a))\<lparr>lp_score := [3, 3, 2] ! a\<rparr>),
       lg_players = [0, 1, 2], lg_player = 0, lg_lines = (\<lambda>_. None), lg_boxes = (\<lambda>_. Some 0),
       lg_listeners = build_listeners 2 2, lg_status = []\<rparr>)) = ''It's a tie!'' \<and>
   lg_status (snd (local_nextTurn
      \<lparr>lg_width = 2, lg_height = 2,
       lg_store = (\<lambda>a. (new_Player (DEFAULT_PLAYERS ! a))\<lparr>lp_score := [3, 1] ! a\<rparr>),
       lg_players = [0, 1], lg_player = 0, lg_lines = (\<lambda>_. None), lg_boxes = (\<lambda>_. Some 0),
       lg_listeners = build_listeners 2 2, lg_status = []\<rparr>)) = ''Player One has won!''"
proof -
  have tie: "local_all_taken \<lparr>lg_width = 2, lg_height = 2,
       lg_store = (\<lambda>a. (new_Player (DEFAULT_PLAYERS ! a))\<lparr>lp_score := [3, 3, 2] ! a\<rparr>),
       lg_players = [0, 1, 2], lg_player = 0, lg_lines = (\<lambda>_. None), lg_boxes = (\<lambda>_. Some 0),
       lg_listeners = build_listeners 2 2, lg_status = []\<rparr>"
    by code_simp
  have win: "local_all_taken \<lparr>lg_width = 2, lg_height = 2,
       lg_store = (\<lambda>a. (new_Player (DEFAULT_PLAYERS ! a))\<lparr>lp_score := [3, 1] ! a\<rparr>),
       lg_players = [0, 1], lg_player = 0, lg_lines = (\<lambda>_. None), lg_boxes = (\<lambda>_. Some 0),
       lg_listeners = build_listeners 2 2, lg_status = []\<rparr>"
    by code_simp
  show ?thesis
    using local_winner [OF _ _ tie] local_winner [OF _ _ win]
    by (simp add: new_Player_def DEFAULT_PLAYERS_def)
qed

text \<open>
  C30: Clicking every line of the grid, in any order, ends the standalone
  game: every box is taken and the scores add up to the number of boxes.
\<close>

theorem local_game_completes:
  assumes "local_reach w h ps g" "list_all (is_line w h) ls" "set (grid_lines w h) \<subseteq> set ls"
  shows "local_all_taken (local_clicks g ls) \<and>
         (\<Sum>a<length ps. lp_score (lg_store (local_clicks g ls) a)) = int (w * h)"
proof -
  let ?g = "local_clicks g ls" and ?n = "length ps"
  have inv: "local_inv w h ?n ?g" by (rule local_reach_inv, rule local_reach_clicks [OF assms(1,2)])
  have owned: "lg_boxes ?g b \<noteq> None" if "b \<in> set (grid_boxes w h)" for b
  proof (rule local_drawn_box_owned [OF inv that])
    show "\<forall>l\<in>set (box_lines b). lg_lines ?g l \<noteq> None"
      using that assms(3) local_clicks_drawn [OF assms(1,2)] by (auto simp: grid_lines_def)
  qed
  have below: "lg_boxes ?g b = Some a \<Longrightarrow> a < ?n" for a b
    using inv by (rule local_inv_owner)
  have "(\<Sum>a<?n. lp_score (lg_store ?g a)) = int (\<Sum>a<?n. length (filter (\<lambda>b. lg_boxes ?g b = Some a) (grid_boxes w h)))"
    using inv by (simp add: local_inv_def)
  also have "\<dots> = int (length (filter (\<lambda>b. \<exists>a<?n. lg_boxes ?g b = Some a) (grid_boxes w h)))"
    by (simp only: sum_count_owners)
  also have "filter (\<lambda>b. \<exists>a<?n. lg_boxes ?g b = Some a) (grid_boxes w h) = grid_boxes w h"
    using owned below by (simp add: filter_id_conv) blast
  finally have "(\<Sum>a<?n. lp_score (lg_store ?g a)) = int (w * h)"
    by (simp add: length_grid_boxes)
  moreover have "local_all_taken ?g"
    using owned inv unfolding local_inv_def local_all_taken_def list_all_iff by simp
  ultimately show ?thesis by simp
qed

theorem local_game_completes_witness:
  "local_reach 2 1 (take 2 DEFAULT_PLAYERS) (snd (local_Game 2 1 (take 2 DEFAULT_PLAYERS))) \<and>
   list_all (is_line 2 1) [(H,0,0),(H,0,1),(V,0,0),(H,1,0),(H,1,1),(V,2,0),(V,1,0)] \<and>
   set (grid_lines 2 1) \<subseteq> set [(H,0,0),(H,0,1),(V,0,0),(H,1,0),(H,1,1),(V,2,0),(V,1,0)] \<and>
   local_all_taken (local_clicks (snd (local_Game 2 1 (take 2 DEFAULT_PLAYERS)))
        [(H,0,0),(H,0,1),(V,0,0),(H,1,0),(H,1,1),(V,2,0),(V,1,0)]) \<and>
   (\<Sum>a<length (take 2 DEFAULT_PLAYERS). lp_score (lg_store (local_clicks (snd (local_Game 2 1 (take 2 DEFAULT_PLAYERS)))
        [(H,0,0),(H,0,1),(V,0,0),(H,1,0),(H,1,1),(V,2,0),(V,1,0)]) a)) = int (2 * 1)"
proof -
  have r: "local_reach 2 1 (take 2 DEFAULT_PLAYERS) (snd (local_Game 2 1 (take 2 DEFAULT_PLAYERS)))"
    using local_reach_demo [of "[]"] by simp
  have ls: "list_all (is_line 2 1) [(H,0,0),(H,0,1),(V,0,0),(H,1,0),(H,1,1),(V,2,0),(V,1,0)]" by code_simp
  have sub: "set (grid_lines 2 1) \<subseteq> set [(H,0,0),(H,0,1),(V,0,0),(H,1,0),(H,1,1),(V,2,0),(V,1,0)]"
    by code_simp
  show ?thesis using local_game_completes [OF r ls sub] r ls sub by simp
qed

text \<open>
  C31: With two or more players, no click of the standalone game throws.
\<close>

theorem local_never_throws:
  assumes "local_reach w h ps g" "2 \<le> length ps" "is_line w h l"
  shows "fst (local_onClick g l) = Inr ()"
proof (cases "lg_lines g l = None")
  case free: True
  have inv: "local_inv w h (length ps) g" using assms(1) by (rule local_reach_inv)
  obtain a where a: "js_nth (lg_players g) (lg_player g) = Some a" "a < length ps"
    using local_inv_current [OF inv assms(3)] .
  have L: "lg_listeners g = build_listeners w h" using inv by (simp add: local_inv_def)
  show ?thesis
    unfolding local_onClick_draw [OF free a(1)] L
    by (rule local_nextTurn_returns [OF local_inv_draw [OF inv free a(2)] assms(2)])
qed (simp add: local_onClick_def)

theorem local_never_throws_witness:
  "local_reach 2 1 (take 2 DEFAULT_PLAYERS)
     (local_clicks (snd (local_Game 2 1 (take 2 DEFAULT_PLAYERS))) [(H,0,0),(H,0,1),(V,0,0)]) \<and>
   2 \<le> length (take 2 DEFAULT_PLAYERS) \<and> is_line 2 1 (V,1,0) \<and>
   fst (local_onClick (local_clicks (snd (local_Game 2 1 (take 2 DEFAULT_PLAYERS))) [(H,0,0),(H,0,1),(V,0,0)]) (V,1,0)) = Inr ()"
proof -
  let ?g = "local_clicks (snd (local_Game 2 1 (take 2 DEFAULT_PLAYERS))) [(H,0,0),(H,0,1),(V,0,0)]"
  have r: "local_reach 2 1 (take 2 DEFAULT_PLAYERS) ?g" by (rule local_reach_demo) code_simp
  have n: "2 \<le> length (take 2 DEFAULT_PLAYERS)" by code_simp
  have l: "is_line 2 1 (V,1,0)" by simp
  show ?thesis using local_never_throws [OF r n l] r n l by simp
qed

text \<open>
  C34: The standalone game terminates: a click on a free line of the grid
  lowers the number of free grid lines, a click on a drawn line changes
  nothing, and a game with no free line left is over.
\<close>

theorem local_game_terminates:
  assumes "local_reach w h ps g"
  shows "(local_free_lines g = [] \<longrightarrow> local_all_taken g) \<and>
         (\<forall>l. is_line w h l \<longrightarrow>
            (if lg_lines g l = None
             then length (local_free_lines (snd (local_onClick g l))) < length (local_free_lines g)
             else snd (local_onClick g l) = g))"
proof -
  have inv: "local_inv w h (length ps) g" using assms by (rule local_reach_inv)
  have wh: "lg_width g = w" "lg_height g = h" using inv by (simp_all add: local_inv_def)
  have ended: "local_all_taken g" if "local_free_lines g = []"
    using that by (intro local_drawn_all_taken [OF inv]) (auto simp: local_free_lines_def wh filter_empty_conv)
  have step: "length (local_free_lines (snd (local_onClick g l))) < length (local_free_lines g)"
    if l: "is_line w h l" and free: "lg_lines g l = None" for l
  proof -
    obtain a where a: "js_nth (lg_players g) (lg_player g) = Some a" "a < length ps"
      using local_inv_current [OF inv l] .
    let ?G = "snd (local_onClick g l)" and ?L = "remdups (grid_lines w h)"
    have lines: "lg_lines ?G = (lg_lines g)(l := Some a)" "lg_width ?G = w" "lg_height ?G = h"
      by (simp_all add: local_onClick_draw [OF free a(1)] local_nextTurn_frame local_forEach_Some wh)
    have "local_free_lines ?G = filter (\<lambda>l'. l' \<noteq> l) (local_free_lines g)"
      by (simp add: local_free_lines_def lines wh filter_filter) (metis (lifting))
    moreover have "l \<in> set (local_free_lines g)"
      using l free by (simp add: local_free_lines_def wh set_grid_lines)
    ultimately show ?thesis by (simp add: length_filter_less)
  qed
  show ?thesis using ended step by (simp add: local_onClick_def)
qed

theorem local_game_terminates_witness:
  "local_reach 2 1 (take 2 DEFAULT_PLAYERS) (snd (local_Game 2 1 (take 2 DEFAULT_PLAYERS))) \<and>
   length (local_free_lines (snd (local_Game 2 1 (take 2 DEFAULT_PLAYERS)))) = 7 \<and>
   length (local_free_lines (snd (local_onClick (snd (local_Game 2 1 (take 2 DEFAULT_PLAYERS))) (V,1,0)))) <
   length (local_free_lines (snd (local_Game 2 1 (take 2 DEFAULT_PLAYERS))))"
proof -
  have r: "local_reach 2 1 (take 2 DEFAULT_PLAYERS) (snd (local_Game 2 1 (take 2 DEFAULT_PLAYERS)))"
    using local_reach_demo [of "[]"] by simp
  have f: "lg_lines (snd (local_Game 2 1 (take 2 DEFAULT_PLAYERS))) (V,1,0) = None" by code_simp
  have c: "length (local_free_lines (snd (local_Game 2 1 (take 2 DEFAULT_PLAYERS)))) = 7" by code_simp
  have "length (local_free_lines (snd (local_onClick (snd (local_Game 2 1 (take 2 DEFAULT_PLAYERS))) (V,1,0)))) <
      length (local_free_lines (snd (local_Game 2 1 (take 2 DEFAULT_PLAYERS))))"
    using conjunct2 [OF local_game_terminates [OF r], rule_format, of "(V,1,0)"] f by simp
  with r c show ?thesis by simp
qed

end
