(* ===== verification/Refinement.thy ===== *)
theory Refinement
  imports GameSpec LocalGame
begin

text \<open>
  The standalone game of \<open>src/js/app.js\<close> against the game state machine
  of the specification.  \<open>local_abs\<close> reads a spec state off a game: the
  owners of lines and boxes are the player objects' addresses, which are
  the players' indices since the constructor creates them in order; the
  current player is \<open>this.player\<close>; the game is finished when every box
  is taken.  A click refines \<open>applyTurn\<close> of the current player except
  for the bonus turn, and the announced result is the spec's winner.
\<close>

definition local_abs :: "lgame \<Rightarrow> spec_game" where
  "local_abs g =
    \<lparr>sg_width = lg_width g, sg_height = lg_height g, sg_nplayers = length (lg_players g),
     sg_phase = (if local_all_taken g then Finished else Active), sg_current = nat (lg_player g),
     sg_lines = lg_lines g, sg_boxes = lg_boxes g\<rparr>"

lemma local_box_closed_spec: "local_box_closed g = spec_box_full (lg_lines g)"
  by (rule ext) (simp add: local_box_closed_def spec_box_full_def)

subsection \<open>Properties\<close>

text \<open>
  C32: Refinement of the specification's \<open>applyTurn\<close>.  A click on a free
  line of a reachable standalone game is a turn the specification accepts
  for the current player, and the game it leaves is the specification's
  state after that turn, lines, boxes and phase included, except that after
  a closure that does not end the game the turn has passed to the next
  player where the specification keeps it.
\<close>

theorem local_refines_applyTurn:
  assumes reach: "local_reach w h ps g" and l: "is_line w h l" and free: "lg_lines g l = None"
  shows "\<exists>s' closed. applyTurn (local_abs g) (nat (lg_player g)) l = Inr (s', closed) \<and>
     local_abs (snd (local_onClick g l)) =
       s'\<lparr>sg_current := (if closed \<noteq> [] \<and> sg_phase s' = Active
                         then (sg_current s' + 1) mod length ps else sg_current s')\<rparr>"
proof -
  let ?n = "length ps" and ?p = "nat (lg_player g)"
  have inv: "local_inv w h ?n g" using reach by (rule local_reach_inv)
  have nt: "\<not> local_all_taken g" by (rule local_free_not_all_taken [OF inv l free])
  have ps: "lg_players g = [0..<?n]" using local_reach_players [OF reach] nt by simp
  have rng: "0 \<le> lg_player g" "lg_player g < int ?n"
    using inv l by (auto simp: local_inv_def elim: is_line.elims)
  then have js: "js_nth (lg_players g) (lg_player g) = Some ?p"
    by (simp add: ps js_nth_def)
  have fr: "lg_width g = w" "lg_height g = h" "lg_listeners g = build_listeners w h"
    using inv by (simp_all add: local_inv_def)
  define ls where "ls = (lg_lines g)(l := Some ?p)"
  define closed where "closed = filter (spec_box_full ls) (adjacent_boxes w h l)"
  define bs where "bs = (\<lambda>b. if b \<in> set closed then Some ?p else lg_boxes g b)"
  define g1 where "g1 = g\<lparr>lg_lines := ls\<rparr>"
  define R where "R = snd (local_forEach g1 (lg_listeners g l) (Some ?p))"
  have R: "lg_lines R = ls" "lg_boxes R = bs" "lg_width R = w" "lg_height R = h"
      "lg_players R = lg_players g" "lg_player R = lg_player g"
    by (simp_all add: R_def g1_def local_forEach_Some fr bs_def closed_def ls_def
        local_box_closed_spec build_listeners_closed_form fun_eq_iff)
  have g': "snd (local_onClick g l) = snd (local_nextTurn R)"
    by (simp add: local_onClick_draw [OF free js] R_def g1_def ls_def)
  have taken: "local_all_taken R = spec_all_owned w h bs"
    by (simp add: local_all_taken_def spec_all_owned_def R)
  have fin: "closed \<noteq> []" if "spec_all_owned w h bs"
  proof
    assume "closed = []"
    then have "bs = lg_boxes g" by (simp add: bs_def fun_eq_iff)
    with that nt fr show False by (simp add: local_all_taken_def spec_all_owned_def)
  qed
  have next_mod: "nat (next_index (lg_player g) ?n) = Suc ?p mod ?n"
    using rng by (auto simp: next_index_def nat_add_distrib mod_if)
  have apply_eq: "applyTurn (local_abs g) ?p l =
      Inr ((local_abs g)\<lparr>sg_lines := ls, sg_boxes := bs,
             sg_current := (if closed \<noteq> [] then ?p else Suc ?p mod ?n),
             sg_phase := (if spec_all_owned w h bs then Finished else Active)\<rparr>, closed)"
  proof -
    have absf: "sg_phase (local_abs g) = Active" "sg_lines (local_abs g) = lg_lines g"
        "sg_current (local_abs g) = ?p" "sg_width (local_abs g) = w" "sg_height (local_abs g) = h"
        "sg_boxes (local_abs g) = lg_boxes g" "sg_nplayers (local_abs g) = ?n"
      using nt ps by (simp_all add: local_abs_def fr)
    show ?thesis
      using free by (simp add: applyTurn_def Let_def absf ls_def closed_def bs_def cong: if_cong)
  qed
  let ?G = "snd (local_onClick g l)"
  have G: "lg_lines ?G = ls" "lg_boxes ?G = bs" "lg_width ?G = w" "lg_height ?G = h"
      "length (lg_players ?G) = ?n" "local_all_taken ?G = spec_all_owned w h bs"
      "lg_player ?G = (if spec_all_owned w h bs then lg_player g else next_index (lg_player g) ?n)"
    using mset_eq_length [OF local_nextTurn_frame(7) [of R]]
    by (simp_all add: g' local_nextTurn_frame local_nextTurn_player local_nextTurn_all_taken taken R ps)
  define S where "S = (local_abs g)\<lparr>sg_lines := ls, sg_boxes := bs,
             sg_current := (if closed \<noteq> [] then ?p else Suc ?p mod ?n),
             sg_phase := (if spec_all_owned w h bs then Finished else Active)\<rparr>"
  have "local_abs ?G = S\<lparr>sg_current := (if closed \<noteq> [] \<and> sg_phase S = Active
                                         then (sg_current S + 1) mod ?n else sg_current S)\<rparr>"
    using fin next_mod
    by (cases "spec_all_owned w h bs") (simp_all add: S_def local_abs_def G fr ps)
  then show ?thesis using apply_eq unfolding S_def [symmetric] by blast
qed

theorem local_refines_applyTurn_witness:
  "local_reach 2 1 (take 2 DEFAULT_PLAYERS)
     (local_clicks (snd (local_Game 2 1 (take 2 DEFAULT_PLAYERS))) [(H,0,0),(H,0,1),(V,0,0)]) \<and>
   is_line 2 1 (V,1,0) \<and>
   lg_lines (local_clicks (snd (local_Game 2 1 (take 2 DEFAULT_PLAYERS))) [(H,0,0),(H,0,1),(V,0,0)]) (V,1,0) = None \<and>
   (\<exists>s' closed. applyTurn (local_abs (local_clicks (snd (local_Game 2 1 (take 2 DEFAULT_PLAYERS))) [(H,0,0),(H,0,1),(V,0,0)]))
        (nat (lg_player (local_clicks (snd (local_Game 2 1 (take 2 DEFAULT_PLAYERS))) [(H,0,0),(H,0,1),(V,0,0)]))) (V,1,0) =
        Inr (s', closed) \<and>
      local_abs (snd (local_onClick (local_clicks (snd (local_Game 2 1 (take 2 DEFAULT_PLAYERS))) [(H,0,0),(H,0,1),(V,0,0)]) (V,1,0))) =
        s'\<lparr>sg_current := (if closed \<noteq> [] \<and> sg_phase s' = Active
                          then (sg_current s' + 1) mod length (take 2 DEFAULT_PLAYERS) else sg_current s')\<rparr>)"
proof -
  let ?g = "local_clicks (snd (local_Game 2 1 (take 2 DEFAULT_PLAYERS))) [(H,0,0),(H,0,1),(V,0,0)]"
  have r: "local_reach 2 1 (take 2 DEFAULT_PLAYERS) ?g" by (rule local_reach_demo) code_simp
  have l: "is_line 2 1 (V,1,0)" by simp
  have f: "lg_lines ?g (V,1,0) = None" by code_simp
  show ?thesis using local_refines_applyTurn [OF r l f] r l f by blast
qed

text \<open>
  C33: The last click of a standalone game with two or more players
  announces the specification's result: the name of the player with a
  strictly greatest score, or a tie.
\<close>

theorem local_announces_spec_winner:
  assumes reach: "local_reach w h ps g" and two: "2 \<le> length ps" and l: "is_line w h l"
    and free: "lg_lines g l = None" and over: "local_all_taken (snd (local_onClick g l))"
  shows "lg_status (snd (local_onClick g l)) =
    (case spec_winner (local_abs (snd (local_onClick g l))) of
       Some p \<Rightarrow> name (ps ! p) @ '' has won!''
     | None \<Rightarrow> ''It's a tie!'')"
proof -
  let ?n = "length ps" and ?G = "snd (local_onClick g l)"
  have inv: "local_inv w h ?n g" using reach by (rule local_reach_inv)
  have ps: "lg_players g = [0..<?n]"
    using local_reach_players [OF reach] local_free_not_all_taken [OF inv l free] by simp
  obtain a where a: "js_nth (lg_players g) (lg_player g) = Some a" "a < ?n"
    using local_inv_current [OF inv l] .
  define R where "R = snd (local_forEach (g\<lparr>lg_lines := (lg_lines g)(l := Some a)\<rparr>) (lg_listeners g l) (Some a))"
  have click: "local_onClick g l = local_nextTurn R"
    by (simp add: local_onClick_draw [OF free a(1)] R_def)
  have RP: "lg_players R = [0..<?n]" by (simp add: R_def local_forEach_Some ps)
  have Rt: "local_all_taken R" using over by (simp add: click local_nextTurn_all_taken)
  have W: "local_nextTurn R = (Inr (), R\<lparr>lg_players := sort_key (\<lambda>a. - lp_score (lg_store R a)) (lg_players R),
               lg_status :=
                 (case find (\<lambda>a. \<forall>b\<in>set (lg_players R). b \<noteq> a \<longrightarrow>
                                  lp_score (lg_store R b) < lp_score (lg_store R a)) (lg_players R) of
                    Some a \<Rightarrow> lp_name (lg_store R a) @ '' has won!''
                  | None \<Rightarrow> ''It's a tie!'')\<rparr>)"
    using two Rt by (intro local_nextTurn_end) (simp_all add: RP)
  have reachG: "local_reach w h ps ?G" using reach l by (rule local_reach.click)
  have G: "lg_store ?G = lg_store R" "lg_boxes ?G = lg_boxes R" "lg_width ?G = w" "lg_height ?G = h"
      "length (lg_players ?G) = ?n"
    using local_reach_inv [OF reachG] local_inv_players [of w h ?n ?G]
    by (simp_all add: click W local_inv_def)
  have score: "lp_score (lg_store R q) = int (spec_score (local_abs ?G) q)" if "q < ?n" for q
    using local_inv_score [OF local_reach_inv [OF reachG] that]
    by (simp add: spec_score_def local_abs_def G)
  have names: "lp_name (lg_store R q) = name (ps ! q)" if "q < ?n" for q
    using local_reach_names [OF reachG that] by (simp add: G)
  let ?P = "\<lambda>a. \<forall>b\<in>set [0..<?n]. b \<noteq> a \<longrightarrow> lp_score (lg_store R b) < lp_score (lg_store R a)"
  have win: "find ?P [0..<?n] = spec_winner (local_abs ?G)"
    unfolding spec_winner_def
    by (rule find_cong) (auto simp: local_abs_def G score list_all_iff)
  have stat: "lg_status ?G = (case find ?P [0..<?n] of
       Some a \<Rightarrow> lp_name (lg_store R a) @ '' has won!'' | None \<Rightarrow> ''It's a tie!'')"
    by (simp add: click W RP)
  have lt: "find ?P [0..<?n] = Some p \<Longrightarrow> p < ?n" for p
    using find_Some_mem [of ?P "[0..<?n]" p] by simp
  show ?thesis
    unfolding stat win [symmetric] using lt names by (auto split: option.splits)
qed

theorem local_announces_spec_winner_witness:
  "local_reach 2 1 (take 2 DEFAULT_PLAYERS)
     (local_clicks (snd (local_Game 2 1 (take 2 DEFAULT_PLAYERS))) [(H,0,0),(H,0,1),(V,0,0),(H,1,0),(H,1,1),(V,2,0)]) \<and>
   2 \<le> length (take 2 DEFAULT_PLAYERS) \<and> is_line 2 1 (V,1,0) \<and>
   lg_lines (local_clicks (snd (local_Game 2 1 (take 2 DEFAULT_PLAYERS))) [(H,0,0),(H,0,1),(V,0,0),(H,1,0),(H,1,1),(V,2,0)]) (V,1,0) = None \<and>
   local_all_taken (snd (local_onClick (local_clicks (snd (local_Game 2 1 (take 2 DEFAULT_PLAYERS)))
      [(H,0,0),(H,0,1),(V,0,0),(H,1,0),(H,1,1),(V,2,0)]) (V,1,0))) \<and>
   spec_winner (local_abs (snd (local_onClick (local_clicks (snd (local_Game 2 1 (take 2 DEFAULT_PLAYERS)))
      [(H,0,0),(H,0,1),(V,0,0),(H,1,0),(H,1,1),(V,2,0)]) (V,1,0)))) = Some 0 \<and>
   lg_status (snd (local_onClick (local_clicks (snd (local_Game 2 1 (take 2 DEFAULT_PLAYERS)))
      [(H,0,0),(H,0,1),(V,0,0),(H,1,0),(H,1,1),(V,2,0)]) (V,1,0))) = ''Player One has won!''"
proof -
  let ?g = "local_clicks (snd (local_Game 2 1 (take 2 DEFAULT_PLAYERS))) [(H,0,0),(H,0,1),(V,0,0),(H,1,0),(H,1,1),(V,2,0)]"
  have r: "local_reach 2 1 (take 2 DEFAULT_PLAYERS) ?g" by (rule local_reach_demo) code_simp
  have n: "2 \<le> length (take 2 DEFAULT_PLAYERS)" by code_simp
  have l: "is_line 2 1 (V,1,0)" by simp
  have f: "lg_lines ?g (V,1,0) = None" by code_simp
  have t: "local_all_taken (snd (local_onClick ?g (V,1,0)))" by code_simp
  have w: "spec_winner (local_abs (snd (local_onClick ?g (V,1,0)))) = Some 0" by code_simp
  have p: "name (DEFAULT_PLAYERS ! 0) = ''Player One''" by (simp add: DEFAULT_PLAYERS_def)
  have "lg_status (snd (local_onClick ?g (V,1,0))) = ''Player One has won!''"
    using local_announces_spec_winner [OF r n l f t] unfolding w by (simp add: p)
  with r n l f t w show ?thesis by (intro conjI)
qed

end
