(* ===== verification/ServerRefinement.thy ===== *)
theory ServerRefinement
  imports GameSpec Server
begin

text \<open>
  The session manager of \<open>src/server/lib/Server.js\<close> against the
  specification's \<open>joinSession\<close> and \<open>startSession\<close>.  A session object
  is read as its phase (\<open>started\<close> gives \<open>Active\<close>; the server has no
  finished phase) and its roster size; \<open>server_abs\<close> looks a session up by
  id as \<open>joinSession\<close> does, \<open>sock_abs\<close> through the socket's stored
  session as \<open>start\<close> does.  Error values are related by
  \<open>server_error_of\<close>, replies by \<open>reply_result\<close>.
\<close>

definition session_abs :: "session \<Rightarrow> phase \<times> nat" where
  "session_abs obj = (if started obj then Active else Lobby, length (players obj))"

definition server_abs :: "server \<Rightarrow> string \<Rightarrow> (phase \<times> nat) option" where
  "server_abs s i = (case sessions s i of None \<Rightarrow> None | Some a \<Rightarrow> map_option session_abs (heap s a))"

definition sock_abs :: "server \<Rightarrow> sid \<Rightarrow> (phase \<times> nat) option" where
  "sock_abs s k = (case sock_session (sockets s k) of None \<Rightarrow> None | Some a \<Rightarrow> map_option session_abs (heap s a))"

fun server_error_of :: "session_error \<Rightarrow> server_error" where
  "server_error_of SessionNotFound = Session_not_found"
| "server_error_of GameAlreadyStarted = Game_already_started"
| "server_error_of MaxPlayersReached = Max_players"
| "server_error_of NotEnoughPlayers = Waiting_for_players"

fun reply_result :: "reply \<Rightarrow> server_error + pid option" where
  "reply_result (Err e) = Inl e"
| "reply_result Ack = Inr None"
| "reply_result (Welcome i n obj) = Inr (Some n)"

subsection \<open>Properties\<close>

text \<open>
  C38: \<open>onIOJoinSession\<close> refines the specification's \<open>joinSession\<close> in
  every state, with two exceptions.  An unbound id that names a property of
  \<open>Object.prototype\<close> (\<open>constructor\<close>, \<open>__proto__\<close>, ...) makes the
  handler throw a \<open>TypeError\<close> with no reply, where the specification
  answers \<open>SessionNotFound\<close>.  A running game whose roster is full is
  refused with \<open>max_players\<close> where the specification's check order gives
  \<open>GameAlreadyStarted\<close>.  An admitted joiner gets the index the
  specification assigns.
\<close>

theorem join_refines_spec:
  "(if sessions s i = None \<and> i \<in> set proto_keys
    then snd (snd (onIOJoinSession s k i)) = Throws TypeError
    else reply_result (snd (snd (onIOJoinSession s k i))) =
       (if server_abs s i = Some (Active, length PLAYERS) then Inl Max_players
        else map_sum server_error_of Some (spec_joinSession (server_abs s) (length PLAYERS) i)))"
  by (auto simp: onIOJoinSession_def spec_joinSession_def server_abs_def session_abs_def Let_def
      split: option.splits)

text \<open>
  C39: \<open>onIOStart\<close> refines the specification's \<open>startSession\<close> on the
  socket's session: the same refusals, and an accepted start leaves that
  session active with the same roster; a refused start changes nothing.
\<close>

theorem start_refines_spec:
  "reply_result (snd (snd (onIOStart s k))) = map_sum server_error_of (\<lambda>_. None) (spec_startSession (sock_abs s k)) \<and>
   (case spec_startSession (sock_abs s k) of
      Inl e \<Rightarrow> fst (onIOStart s k) = s
    | Inr ss \<Rightarrow> sock_abs (fst (onIOStart s k)) k = Some ss)"
  by (auto simp: onIOStart_def spec_startSession_def sock_abs_def session_abs_def Let_def
      split: option.splits)

end
