(* ===== verification/LineTable.thy ===== *)
theory LineTable
  imports ClientGame
begin

text \<open>
  The line table the \<open>Game\<close> constructor of \<open>src/public/js/app.js\<close> builds,
  \<open>this.lines[d][x][y]\<close>, with what each \<open>Line\<close> object carries: its class
  and coordinates (\<open>LineHorizontal\<close> or \<open>LineVertical\<close>, \<open>this.x\<close>,
  \<open>this.y\<close>) and the payload of the \<open>onClick\<close> option the constructor
  passes, \<open>() => this.onTurn({ direction, x, y })\<close>.  Both the slot and
  the payload are written out per line in the constructor, as literals.
  The round trip: the payload a line's click sends names the slot that
  line is stored in, and the replica's \<open>lookup_line\<close> finds that line.
\<close>

record pline =
  pl_line :: line
  pl_click :: "string \<times> int \<times> int"

type_synonym pline_table = "string \<times> nat \<times> nat \<Rightarrow> pline option"

text \<open>\<open>this.lines[d][x][y] = this.lines[d][x][y] || new Line...(this, {...})\<close>.\<close>

definition pub_line :: "pline_table \<Rightarrow> string \<times> nat \<times> nat \<Rightarrow> pline \<Rightarrow> pline_table" where
  "pub_line t k obj = (case t k of Some _ \<Rightarrow> t | None \<Rightarrow> t(k \<mapsto> obj))"

text \<open>One iteration of the constructor's loop: top, bottom, left and right lines.\<close>

fun pub_create_cell :: "pline_table \<Rightarrow> box \<Rightarrow> pline_table" where
  "pub_create_cell t (x, y) =
    (let t1 = pub_line t (''h'', x, y) \<lparr>pl_line = (H, x, y), pl_click = (''h'', int x, int y)\<rparr>;
         t2 = pub_line t1 (''h'', x, y + 1) \<lparr>pl_line = (H, x, y + 1), pl_click = (''h'', int x, int y + 1)\<rparr>;
         t3 = pub_line t2 (''v'', x, y) \<lparr>pl_line = (V, x, y), pl_click = (''v'', int x, int y)\<rparr>
     in pub_line t3 (''v'', x + 1, y) \<lparr>pl_line = (V, x + 1, y), pl_click = (''v'', int x + 1, int y)\<rparr>)"

definition pub_lines :: "nat \<Rightarrow> nat \<Rightarrow> pline_table" where
  "pub_lines w h = foldl pub_create_cell Map.empty (grid_boxes w h)"

text \<open>
  \<open>this.lines[direction][x][y]\<close> read with the payload of a turn: a
  negative index reads a missing property, \<open>undefined\<close>.
\<close>

definition pub_lookup :: "pline_table \<Rightarrow> string \<Rightarrow> int \<Rightarrow> int \<Rightarrow> pline option" where
  "pub_lookup t d x y = (if 0 \<le> x \<and> 0 \<le> y then t (d, nat x, nat y) else None)"

text \<open>The object a slot holds once the constructor has filled it.\<close>

fun slot_obj :: "string \<times> nat \<times> nat \<Rightarrow> pline" where
  "slot_obj (d, i, j) = \<lparr>pl_line = (if d = ''h'' then H else V, i, j), pl_click = (d, int i, int j)\<rparr>"

section \<open>Properties\<close>

lemma pub_line_slot:
  "pub_line t k obj k' = (if k' = k \<and> t k = None then Some obj else t k')"
  by (simp add: pub_line_def split: option.split)

lemma pub_create_cell_slot:
  "pub_create_cell t b k =
     (if t k = None \<and> k \<in> (\<lambda>l. (dir_str (fst l), snd l)) ` set (box_lines b) then Some (slot_obj k) else t k)"
proof -
  obtain x y where b: "b = (x, y)" by (cases b)
  obtain d i j where k: "k = (d, i, j)" by (cases k)
  show ?thesis
    by (auto simp: b k Let_def pub_line_slot box_lines_def)
qed

lemma foldl_pub_create_cell:
  "foldl pub_create_cell t bs k =
     (if t k = None \<and> k \<in> (\<lambda>l. (dir_str (fst l), snd l)) ` (\<Union>b\<in>set bs. set (box_lines b))
      then Some (slot_obj k) else t k)"
  by (induction bs arbitrary: t) (auto simp: pub_create_cell_slot)

lemma pub_lines_slot:
  "pub_lines w h (d, i, j) =
     (if (d = ''h'' \<and> is_line w h (H, i, j)) \<or> (d = ''v'' \<and> is_line w h (V, i, j))
      then Some (slot_obj (d, i, j)) else None)"
proof -
  have U: "(\<Union>b\<in>set (grid_boxes w h). set (box_lines b)) = {l. is_line w h l}"
    using set_grid_lines [of w h] by (simp add: grid_lines_def)
  have "(d, i, j) \<in> (\<lambda>l. (dir_str (fst l), snd l)) ` {l. is_line w h l} \<longleftrightarrow>
        (d = ''h'' \<and> is_line w h (H, i, j)) \<or> (d = ''v'' \<and> is_line w h (V, i, j))"
  proof
    assume "(d, i, j) \<in> (\<lambda>l. (dir_str (fst l), snd l)) ` {l. is_line w h l}"
    then obtain d' where "is_line w h (d', i, j)" "d = dir_str d'" by auto
    then show "(d = ''h'' \<and> is_line w h (H, i, j)) \<or> (d = ''v'' \<and> is_line w h (V, i, j))"
      by (cases d') simp_all
  next
    assume "(d = ''h'' \<and> is_line w h (H, i, j)) \<or> (d = ''v'' \<and> is_line w h (V, i, j))"
    then show "(d, i, j) \<in> (\<lambda>l. (dir_str (fst l), snd l)) ` {l. is_line w h l}"
      by (auto intro: image_eqI [where x = "(H, i, j)"] image_eqI [where x = "(V, i, j)"])
  qed
  then show ?thesis by (simp add: pub_lines_def foldl_pub_create_cell U)
qed

text \<open>
  C9: Round trip of a click: for every \<open>Line\<close> object the constructor
  stores, the \<open>direction\<close>, \<open>x\<close> and \<open>y\<close> its click sends read back that
  same object from \<open>this.lines\<close>, and the replica's \<open>lookup_line\<close> turns
  them into that line; only lines of the grid are stored.
\<close>

theorem lookup_line_roundtrip:
  assumes "pub_lines (g_width g) (g_height g) k = Some obj" "pl_click obj = (d, x, y)"
  shows "pub_lookup (pub_lines (g_width g) (g_height g)) d x y = Some obj \<and>
         lookup_line g d x y = Some (pl_line obj) \<and> is_line (g_width g) (g_height g) (pl_line obj)"
proof -
  obtain d' i j where k: "k = (d', i, j)" by (cases k)
  have s: "(d' = ''h'' \<and> is_line (g_width g) (g_height g) (H, i, j)) \<or>
           (d' = ''v'' \<and> is_line (g_width g) (g_height g) (V, i, j))" and o: "obj = slot_obj (d', i, j)"
    using assms(1) by (simp_all add: k pub_lines_slot split: if_splits)
  then have "d = d'" "x = int i" "y = int j" using assms(2) by auto
  then show ?thesis
    using s o by (auto simp: pub_lookup_def pub_lines_slot lookup_line_def)
qed

theorem lookup_line_roundtrip_witness:
  "pub_lines (g_width (new_game 2 2)) (g_height (new_game 2 2)) (''h'', 1, 2) =
     Some \<lparr>pl_line = (H, 1, 2), pl_click = (''h'', 1, 2)\<rparr> \<and>
   pl_click \<lparr>pl_line = (H, 1, 2), pl_click = (''h'', 1, 2)\<rparr> = (''h'', 1, 2) \<and>
   lookup_line (new_game 2 2) ''h'' 1 2 = Some (H, 1, 2)"
  (is "?a \<and> ?b \<and> _")
proof -
  have h: ?a ?b by (simp_all add: pub_lines_slot new_game_def)
  from lookup_line_roundtrip [OF h] h show ?thesis by simp
qed

end
