(* ===== verification/Spec2Isabelle.thy ===== *)
theory Spec2Isabelle
  imports Sync Refinement ServerRefinement LineTable
begin

text \<open>
  Verification development of the networked dots-and-boxes game
  (WeeJeWel/dots-and-boxes-v2).

  \<^bold>\<open>The program.\<close>  A Node server (\<open>src/server/lib/Server.js\<close>, with
  \<open>src/server/lib/Util.js\<close> and \<open>src/config.js\<close>) keeps one session object
  per five-character session id: the roster, a \<open>started\<close> flag, a turn
  counter \<open>player\<close> and the turn log.  Sockets send \<open>createSession\<close>,
  \<open>joinSession\<close>, \<open>start\<close> and \<open>turn\<close>; after every accepted request the
  server emits the whole session object as a \<open>state\<close> message to the
  session's room.  The browser (\<open>src/public/js/app.js\<close>) keeps a replica
  of the board made of \<open>Line\<close> and \<open>Box\<close> objects wired by listeners, and
  on every \<open>state\<close> message replays the turn log onto it; the replica, not
  the server, decides box ownership, bonus turns and the end of the game.
  \<open>src/js/app.js\<close> is an older single-browser version of the same game.

  \<^bold>\<open>Theories.\<close>
  \<^item> \<open>Prelude\<close>: JavaScript exceptions (\<open>exn\<close>), results of statements
    that may throw (\<open>exn + 'a\<close> beside the state left behind), truthiness of
    a player slot (\<open>truthy\<close>: \<open>null\<close>, \<open>undefined\<close> and \<open>0\<close> are falsy),
    array reads with a JavaScript index (\<open>js_nth\<close>), shared list lemmas.
  \<^item> \<open>Protocol\<close>: \<open>PLAYERS\<close> of \<open>src/config.js\<close>, the turn record and the
    session object that is also the broadcast snapshot.
  \<^item> \<open>Grid\<close>: the line and box names of the board, the constructor's
    creation order (\<open>grid_boxes\<close>), the listener table it builds
    (\<open>addListener\<close>, \<open>register_box\<close>, \<open>build_listeners\<close>) and its closed
    form \<open>adjacent_boxes\<close> (the spec's \<open>boxesAdjacentTo\<close>).  Properties
    C10 to C12: the listener table is the adjacency; the box at
    \<open>(x, y)\<close> listens on the lines at heights \<open>y\<close>, \<open>y + 1\<close> and columns
    \<open>x\<close>, \<open>x + 1\<close>; each line has one or two listeners.
  \<^item> \<open>ClientGame\<close>: \<open>class Game\<close> of \<open>src/public/js/app.js\<close> as a record
    \<open>game\<close> and its methods \<open>onLineClick\<close>, \<open>some_listener\<close>
    (\<open>listeners.some\<close>), \<open>setPlayer\<close>, \<open>nextTurn\<close>, \<open>renderStatus\<close>,
    \<open>lookup_line\<close> (\<open>this.lines[d][x][y]\<close>), \<open>replay\<close> and
    \<open>setState\<close>.  Properties C1 to C8: the bonus-turn rule, on the turn
    index (C1); in every replica the double-box defect of
    \<open>listeners.some\<close> leaves the second box unowned for ever (C2); player
    0 never scores (C3); lines are write-once only for players other than 0
    (C4); closed boxes keep their owner (C5); re-applying a player-0 turn
    passes the turn again, so a replica replaying each snapshot drifts (C6);
    the completing move always throws (C7); status rendering is safe (C8);
    a turn logged with an undefined player stops every later replay at that
    turn (C22).
    \<open>status_html\<close> is the text \<open>renderStatus\<close> writes; the lemma
    \<open>status_says_your_turn\<close> shows it announces the player's turn exactly
    when the page enables their clicks.
  \<^item> \<open>LineTable\<close>: the line table \<open>this.lines[d][x][y]\<close> the public
    \<open>Game\<close> constructor builds (\<open>pub_lines\<close>, one \<open>pub_create_cell\<close> per
    box, memoised by \<open>pub_line\<close>), with each \<open>Line\<close> object's class,
    coordinates and the payload of its \<open>onClick\<close> option, all written as
    literals per line in the constructor; \<open>pub_lookup\<close> is the read in
    \<open>setState\<close>.  Property C9: every stored object's click payload reads it
    back, and \<open>lookup_line\<close> turns that payload into the object's line.
  \<^item> \<open>SessionId\<close>: \<open>Util.createSessionId\<close> as a loop over given draws
    (\<open>createSessionId_loop\<close>), the route pattern of the page route
    (\<open>route_matches\<close>) and the inverse reading of an id.  Properties C20
    and C21: generated ids match the route; the draws are recoverable.
  \<^item> \<open>Server\<close>: \<open>src/server/lib/Server.js\<close> over an explicit store.  The
    record \<open>server\<close> holds the session objects at addresses (\<open>heap\<close>),
    \<open>this.sessions\<close> (\<open>sessions\<close>), each socket's \<open>playerId\<close>,
    \<open>sessionId\<close> and \<open>session\<close> reference (\<open>sockets\<close>) and socket.io's
    room lists (\<open>rooms\<close>).  \<open>onIOCreateSession\<close>, \<open>onIOJoinSession\<close>,
    \<open>onIOStart\<close> and \<open>onIOTurn\<close> return the new server, the emitted
    \<open>state\<close> messages with their recipients, and the callback reply;
    \<open>handle\<close> dispatches a socket event, \<open>serve\<close> runs requests one at a
    time (Node's event loop), \<open>reachable\<close> is the inductive set of servers
    some run reaches.  \<open>this.sessions\<close> is a plain object: a join with an
    unbound id that names a property of \<open>Object.prototype\<close>
    (\<open>proto_keys\<close>) throws before its callback (reply \<open>Throws\<close>), which
    ends the process, so \<open>serve\<close> and \<open>reachable\<close> stop at such a step
    (\<open>served\<close>, \<open>crash_free\<close>).  The invariant \<open>server_inv\<close> (each object
    \<open>session_ok\<close>, fresh addresses unused, no dangling reference) holds in
    every reachable server, by rule induction with one preservation lemma per
    handler.  Properties C13 to C19: the roster and counter invariant (C13);
    turns accepted unchecked with a round-robin counter (C14); joiners
    refused by a started game can play (C15); in every reachable server an
    id collision rebinds the id and leaves the old game in the shared room
    (C16); refusals
    change no session (C17); the join contract (C18); sessions never move
    backwards (C19); logged identities are undefined or an index of
    \<open>PLAYERS\<close>, by a second invariant \<open>ids_ok\<close> (C35).
  \<^item> \<open>Sync\<close>: the page script of \<open>src/public/js/app.js\<close> and its
    composition with the server.  \<open>lobby\<close> and \<open>lobby_setState\<close> model
    \<open>class Lobby\<close>; a \<open>page\<close> holds its game replica, its lobby, the
    visibility of the two sections and its location; \<open>on_state\<close> is the
    \<open>socket.on('state')\<close> handler, \<open>on_welcome\<close> and \<open>on_reply\<close> the
    callbacks of \<open>joinSession\<close> and \<open>createSession\<close>, \<open>initial_request\<close>
    the choice made from the location.  A \<open>system\<close> pairs a server with one
    page per socket; \<open>sys_step\<close> runs one socket event through
    \<open>handle\<close>, delivers the emitted \<open>state\<close> messages in order to the
    pages of the room (\<open>deliver\<close>) and then the callback reply to the
    requester, which is socket.io's order on one connection; \<open>sys_run\<close>
    stops at a handler that throws.  Properties C23 to C26, each over every
    server and replica state they name: a closing move keeps the turn on a
    replica while the server's counter moves on, so the two disagree (C23,
    of which the spec's end-to-end scenario is an instance); replicas of
    one room that receive the same messages agree (C24); one turn of a
    refused joiner without identity makes every later log stop replaying at
    that turn (C25); the lobby's start button is disabled exactly when the
    server would refuse to start (C26).
    \<open>line_click\<close> is the click path of a line: the constructor's
    \<open>onClick\<close> option shadows the guarded \<open>Line.onClick\<close>, so every click
    emits a turn.  A click on a drawn line is accepted and counted by the
    server and has no effect on any replica's replay (C36); a socket
    refused by a running game has its clicks logged and drawn there under
    the identity it holds from another session (C37).
  \<^item> \<open>LocalGame\<close>: the standalone game of \<open>src/js/app.js\<close>.  Its
    \<open>Player\<close> objects, whose \<open>score\<close> counters are mutable and which
    lines and boxes reference, live in a store (\<open>lg_store\<close>), and
    \<open>this.players\<close> is a list of addresses that \<open>nextTurn\<close> sorts in place
    (\<open>sort_key\<close>, stable, by decreasing score).  \<open>local_onClick\<close>,
    \<open>local_forEach\<close>, \<open>local_onLineClick\<close>, \<open>local_nextTurn\<close> and
    \<open>local_Game\<close> are \<open>Line.onClick\<close>, its \<open>forEach\<close> over the
    listeners, \<open>Box.onLineClick\<close>, \<open>Game.nextTurn\<close> and the constructor;
    \<open>local_reach\<close> is the set of games the page reaches by clicks.
    Its listener table is \<open>LocalBoard.local_listeners\<close>, and
    \<open>local_setStatus\<close> is \<open>Game.setStatus\<close>.  The
    invariant \<open>local_inv\<close> (a box is taken exactly when its four lines are,
    each counter is its player's box count) holds in every reachable game.
    Properties C27 to C31: the counters never drift (C27); the turn passes
    even after a box is closed (C28); the winner is the strict top scorer,
    else a tie (C29); clicking every line ends the game with all boxes
    taken (C30); with two or more players no click throws (C31); each
    click on a free line lowers the number of free lines, so every game
    ends (C34).
  \<^item> \<open>GameSpec\<close>: the game state machine of the specification (section
    4.2), written from the specification since the code has no such module:
    \<open>applyTurn\<close> with its validation order (phase, free line, turn),
    closure of adjacent boxes, bonus turn and termination, and
    \<open>spec_winner\<close> over scores derived from box ownership.  None of it is
    mapped to code.
  \<^item> \<open>Refinement\<close>: the abstraction \<open>local_abs\<close> of a standalone game to a
    spec state and the refinement lemmas.  Properties C32 and C33: a click on
    a free line is an accepted \<open>applyTurn\<close> of the current player with the
    same lines, boxes and phase, the turn excepted after a closure (C32); the
    last click announces \<open>spec_winner\<close> (C33).  The networked replica is
    not related to \<open>applyTurn\<close> this way: its defects (player 0 is falsy,
    \<open>listeners.some\<close> closes one box of two, the end of the game throws)
    are the properties C2 to C7 instead.
  \<^item> \<open>ServerRefinement\<close>: the server's join and start handlers against the
    specification's \<open>joinSession\<close> and \<open>startSession\<close>, through the
    abstractions \<open>server_abs\<close> and \<open>sock_abs\<close> of a session to its phase
    and roster size.  Properties C38 and C39: join refines the
    specification except that an inherited id throws where the
    specification answers \<open>SessionNotFound\<close>, and a full running game is
    refused with \<open>max_players\<close> (check order) (C38); start refines it
    exactly (C39).
  \<^item> \<open>Render\<close>: the SVG board the \<open>Game\<close> constructor of
    \<open>src/public/js/app.js\<close> draws.  Each element is a value of
    \<open>svg_elem\<close> holding its coordinates (line, dot, box scribble).
    \<open>line_svg\<close> is the \<open>Line\<close> constructor and \<open>box_svg\<close> the
    \<open>Box\<close> constructor's scribble.  \<open>create_line\<close> is the memoised
    \<open>this.lines[d][x][y] || new Line(...)\<close>, \<open>create_cell\<close> one
    iteration of the nested loop, and \<open>render\<close> the whole loop.
    \<open>viewBox\<close> is the attribute set after the loop.  The drawing is a list
    in creation (document) order.  Lemmas: every drawn element lies
    inside the \<open>viewBox\<close> (\<open>render_inside\<close>); the drawing has one
    \<open><line>\<close> per grid line, \<open>w(h+1) + (w+1)h\<close> of them
    (\<open>render_draws_each_line_once\<close>).
  \<^item> \<open>LocalBoard\<close>: the board objects the \<open>Game\<close> constructor of
    \<open>src/js/app.js\<close> builds.  That constructor stores horizontal lines
    transposed, in \<open>this.lines['h'][y][x]\<close>.  The model keeps a line table
    (\<open>line_table\<close>) from these array indices (\<open>local_slot\<close>) to
    \<open>Line\<close> objects (\<open>lline\<close>: coordinates and \<open>listeners\<close>).
    \<open>local_create_line\<close> is the memoised creation and
    \<open>local_addListener\<close> is \<open>Line.addListener\<close>.  \<open>local_Box\<close> is the
    \<open>Box\<close> constructor, registering on its four lines and drawing its
    scribble.  \<open>local_line_svg\<close> and \<open>local_box_svg\<close> are the drawing
    code of this file.  \<open>local_construct\<close> is the nested loop.  A
    simulation (\<open>table_rel\<close>) shows that the page draws \<open>render\<close>
    (\<open>local_render_eq\<close>).  Its listener lists are those of
    \<open>Grid.build_listeners\<close> (\<open>local_listeners_eq\<close>), which
    \<open>LocalGame.local_Game\<close> uses.  The slot of a line of the grid holds
    the object with that line's coordinates, and every other slot is empty
    (\<open>local_construct_objects\<close>).  Property C40: both extra-dot branches
    of either page test \<open>this.y === this.game.width - 1\<close>, so the
    bottom-right corner dot is drawn only when \<open>w = h\<close> or
    \<open>w = h + 1\<close>.  The default boards are square, so the defect shows
    only on other sizes.

  \<^bold>\<open>Modelling choices.\<close>  Objects are records; object graphs whose
  identity matters are total functions from names (lines by orientation and
  coordinates, boxes by coordinates), which the constructor's memoisation
  \<open>a[i] = a[i] || new Line(...)\<close> justifies.  JavaScript numbers used as
  player indices are \<open>int\<close>; coordinates coming from the network are \<open>int\<close>.
  Throws are values, and the state reached before a throw is kept, since the
  browser keeps it.  Every loop of the source is a loop over a finite list
  (\<open>forEach\<close>, \<open>some\<close>, the constructor's nested \<open>for\<close>), modelled by
  structural recursion or \<open>foldl\<close>; no fuel is needed.  The game loop
  itself (clicks until every box is taken) is bounded by the number of
  free lines, the measure \<open>local_free_lines\<close> of C34.

  \<^bold>\<open>Assumptions.\<close>  The page markup is not in \<open>src/\<close>.  The standalone
  game assumes it loads the \<open>confetti\<close> script, whose calls at the end of a
  won game are omitted (C31 and C33 rely on it); the networked page
  assumes no global named \<open>players\<close>, so that \<open>nextTurn\<close> throws at
  the end (C7).

  \<^bold>\<open>Not modelled.\<close>  The DOM beyond the board's SVG elements: CSS
  classes, the scribble's fixed polyline, the stroke colours and random
  stroke width set when a box closes, confetti and timers
  (they change no state the protocol reads); express static serving; the
  socket.io transport beyond room membership and message order: sockets
  are numbered, connections never drop, and alerts are omitted (a failed
  callback leaves the page as it was, except for the redirect of a
  successful create, modelled as the page's location).

  The module headers (\<open>require\<close> calls, \<open>module.exports\<close>) and the
  score table \<open>nextTurn\<close> of \<open>src/public/js/app.js\<close> builds only to log
  it have no effect on the state.  The prototype \<open>Line.onClick\<close> of
  \<open>src/public/js/app.js\<close> is dead code, shadowed by the constructor's own
  \<open>onClick\<close> property (C36), and is not modelled.

  \<^bold>\<open>Open.\<close>  The specification's \<open>submitTurn\<close> over \<open>applyTurn\<close>
  is not related to \<open>onIOTurn\<close> by a refinement lemma, since the server
  validates nothing; C14 and C36 state what it does instead.
\<close>

end
